(* ===== verification/Prelude.thy ===== *)
theory Prelude
  imports "HOL-Library.Word" "HOL-Library.Sublist"
begin

text \<open>
  Shared vocabulary of the development: the integer types of the source at their widths, the
  \<^verbatim>\<open>Result\<close> type and the computations that thread a state through it, Rust's checked and
  saturating arithmetic, little-endian byte codecs, and byte-addressed memories with their
  update. A plain \<^verbatim>\<open>+\<close> on an unsigned integer of the source is the wrapping \<^verbatim>\<open>+\<close> of a word
  (the release profile, which has no overflow checks).
\<close>

unbundle bit_operations_syntax

named_theorems le_simps \<open>little-endian codecs\<close>
named_theorems run_simps \<open>evaluation of stateful computations\<close>
named_theorems mem_simps \<open>byte-addressed memories\<close>

section \<open>Integer types\<close>

type_synonym u8 = "8 word"
type_synonym u16 = "16 word"
type_synonym u32 = "32 word"
type_synonym u64 = "64 word"

abbreviation u64_max :: u64 where
  "u64_max \<equiv> - 1"

definition checked_add :: "'w::len word \<Rightarrow> 'w word \<Rightarrow> 'w word option" where
  "checked_add a b = (if unat a + unat b < 2 ^ LENGTH('w) then Some (a + b) else None)"

definition checked_sub :: "'w::len word \<Rightarrow> 'w word \<Rightarrow> 'w word option" where
  "checked_sub a b = (if b \<le> a then Some (a - b) else None)"

definition saturating_add :: "'w::len word \<Rightarrow> 'w word \<Rightarrow> 'w word" where
  "saturating_add a b = (if unat a + unat b < 2 ^ LENGTH('w) then a + b else - 1)"

definition saturating_sub :: "'w::len word \<Rightarrow> 'w word \<Rightarrow> 'w word" where
  "saturating_sub a b = (if b \<le> a then a - b else 0)"

definition saturating_mul :: "'w::len word \<Rightarrow> 'w word \<Rightarrow> 'w word" where
  "saturating_mul a b = (if unat a * unat b < 2 ^ LENGTH('w) then a * b else - 1)"

definition is_power_of_two :: "u64 \<Rightarrow> bool" where
  "is_power_of_two w = list_ex (\<lambda>k. w = push_bit k 1) [0..<64]"

definition checked_next_power_of_two :: "u64 \<Rightarrow> u64 option" where
  "checked_next_power_of_two w = find (\<lambda>p. w \<le> p) (map (\<lambda>k. push_bit k 1) [0..<64])"

lemma unat_u64_lt: "unat (w :: u64) < 2 ^ 64"
  using unsigned_less [of w, where 'a = nat] by simp

lemma unat_u32_lt: "unat (w :: u32) < 2 ^ 32"
  using unsigned_less [of w, where 'a = nat] by simp

lemma unat_u64_max: "unat u64_max = 2 ^ 64 - 1"
  by (simp add: unsigned_minus_1_eq_mask mask_eq_exp_minus_1)

lemma unat_lt_u64_max: "w \<noteq> u64_max \<Longrightarrow> unat w < 2 ^ 64 - 1"
  using unat_u64_lt [of w] unat_u64_max by (auto simp: word_unat_eq_iff)

lemma unat_of_nat_u64: "n < 2 ^ 64 \<Longrightarrow> unat (of_nat n :: u64) = n"
  by (simp add: unat_of_nat take_bit_nat_eq_self)

lemma unat_of_nat_u32: "n < 2 ^ 32 \<Longrightarrow> unat (of_nat n :: u32) = n"
  by (simp add: unat_of_nat take_bit_nat_eq_self)

lemma unat_ucast_u32_u64 [simp]: "unat (ucast (w :: u32) :: u64) = unat w"
  using unat_u32_lt [of w] by (simp add: unsigned_ucast_eq take_bit_nat_eq_self)

lemma unat_add_lt [simp]:
  "unat a + unat b < 2 ^ LENGTH('w) \<Longrightarrow> unat (a + b :: 'w::len word) = unat a + unat b"
  by (simp add: unat_word_ariths)

lemma unat_step_less:
  fixes p q :: "'w::len word"
  assumes "p < q"
  shows "unat q - unat (p + 1) < unat q - unat p"
proof -
  have "unat p < unat q" using assms by (simp add: word_less_nat_alt)
  moreover have "Suc (unat p) < 2 ^ LENGTH('w)"
    using calculation unsigned_less [of q, where 'a = nat] by linarith
  then have "unat (p + 1) = unat p + 1" by (simp add: unat_word_ariths)
  ultimately show ?thesis by linarith
qed

lemma checked_add_Some:
  "checked_add a b = Some c \<longleftrightarrow> unat a + unat b < 2 ^ LENGTH('w) \<and> c = a + (b :: 'w::len word)"
  by (auto simp: checked_add_def)

lemma checked_add_None:
  "checked_add a b = None \<longleftrightarrow> 2 ^ LENGTH('w) \<le> unat a + unat (b :: 'w::len word)"
  by (auto simp: checked_add_def)

lemma unat_saturating_sub:
  "unat (saturating_sub a b) = unat a - unat b"
  by (auto simp: saturating_sub_def unat_sub word_le_nat_alt)

lemma unat_saturating_add:
  "unat (saturating_add a b :: 'w::len word) = min (unat a + unat b) (2 ^ LENGTH('w) - 1)"
  by (auto simp: saturating_add_def unsigned_minus_1_eq_mask mask_eq_exp_minus_1)

lemma unat_push_bit_1: "k < LENGTH('w) \<Longrightarrow> unat (push_bit k 1 :: 'w::len word) = 2 ^ k"
  by (simp only: unsigned_push_bit_eq unsigned_1) (simp add: push_bit_eq_mult take_bit_eq_mod)

lemma is_power_of_twoE:
  assumes "is_power_of_two c"
  obtains k where "k < 64" "c = 2 ^ k" "unat c = 2 ^ k"
proof -
  from assms obtain k where k: "k < 64" "c = push_bit k 1"
    by (auto simp: is_power_of_two_def list_ex_iff)
  then have "c = 2 ^ k" by (simp add: push_bit_eq_mult)
  moreover have "unat c = 2 ^ k" using k(1) unfolding k(2) by (intro unat_push_bit_1) simp
  ultimately show thesis using k that by blast
qed

lemma is_power_of_two_pos: "is_power_of_two c \<Longrightarrow> 0 < unat c"
  by (erule is_power_of_twoE) simp

text \<open>Masking with \<^verbatim>\<open>capacity - 1\<close> is the remainder by the capacity.\<close>

lemma unat_and_capacity_mask:
  assumes "is_power_of_two c"
  shows "unat (p AND (c - 1)) = unat p mod unat c"
proof -
  from assms obtain k where k: "k < 64" "c = 2 ^ k" "unat c = 2 ^ k"
    by (rule is_power_of_twoE)
  have "p AND (c - 1) = take_bit k p"
    using k by (simp add: take_bit_eq_mask mask_eq_exp_minus_1)
  then show ?thesis
    by (simp only: unsigned_take_bit_eq k(3)) (simp add: take_bit_eq_mod)
qed

section \<open>Results and stateful computations\<close>

text \<open>
  \<^verbatim>\<open>Result<T, E>\<close> is a sum, \<^verbatim>\<open>Ok\<close> on the right. A fallible operation that also changes a state
  returns both; a failing operation keeps the state changes made before the failure.
\<close>

type_synonym ('e, 'a) result = "'e + 'a"
type_synonym ('s, 'e, 'a) comp = "'s \<Rightarrow> ('e, 'a) result \<times> 's"

abbreviation Ok :: "'a \<Rightarrow> ('e, 'a) result" where "Ok \<equiv> Inr"
abbreviation Err :: "'e \<Rightarrow> ('e, 'a) result" where "Err \<equiv> Inl"

definition ret :: "'a \<Rightarrow> ('s, 'e, 'a) comp" where
  "ret a = (\<lambda>s. (Ok a, s))"

definition fail :: "'e \<Rightarrow> ('s, 'e, 'a) comp" where
  "fail e = (\<lambda>s. (Err e, s))"

definition bindR :: "('s, 'e, 'a) comp \<Rightarrow> ('a \<Rightarrow> ('s, 'e, 'b) comp) \<Rightarrow> ('s, 'e, 'b) comp" where
  "bindR m f = (\<lambda>s. case m s of (Err e, s') \<Rightarrow> (Err e, s') | (Ok a, s') \<Rightarrow> f a s')"

definition map_err :: "('d \<Rightarrow> 'e) \<Rightarrow> ('s, 'd, 'a) comp \<Rightarrow> ('s, 'e, 'a) comp" where
  "map_err g m = (\<lambda>s. case m s of (Err e, s') \<Rightarrow> (Err (g e), s') | (Ok a, s') \<Rightarrow> (Ok a, s'))"

definition lift_result :: "('e, 'a) result \<Rightarrow> ('s, 'e, 'a) comp" where
  "lift_result r = (\<lambda>s. (r, s))"

definition bind_result :: "('e, 'a) result \<Rightarrow> ('a \<Rightarrow> ('e, 'b) result) \<Rightarrow> ('e, 'b) result" where
  "bind_result r f = (case r of Err e \<Rightarrow> Err e | Ok a \<Rightarrow> f a)"

definition ok_or :: "'a option \<Rightarrow> 'e \<Rightarrow> ('e, 'a) result" where
  "ok_or x e = (case x of None \<Rightarrow> Err e | Some a \<Rightarrow> Ok a)"

fun for_each :: "('x \<Rightarrow> 'a \<Rightarrow> ('s, 'e, 'a) comp) \<Rightarrow> 'x list \<Rightarrow> 'a \<Rightarrow> ('s, 'e, 'a) comp" where
  "for_each f [] a = ret a"
| "for_each f (x # xs) a = bindR (f x a) (\<lambda>a'. for_each f xs a')"

lemma run_ret [run_simps, simp]: "ret a s = (Ok a, s)"
  by (simp add: ret_def)

lemma run_fail [run_simps, simp]: "fail e s = (Err e, s)"
  by (simp add: fail_def)

lemma run_lift [run_simps, simp]: "lift_result r s = (r, s)"
  by (simp add: lift_result_def)

lemma run_bind_Ok [run_simps, simp]: "m s = (Ok a, s') \<Longrightarrow> bindR m f s = f a s'"
  by (simp add: bindR_def)

lemma run_bind_Err [run_simps, simp]: "m s = (Err e, s') \<Longrightarrow> bindR m f s = (Err e, s')"
  by (simp add: bindR_def)

lemma run_map_err_Ok [run_simps, simp]: "m s = (Ok a, s') \<Longrightarrow> map_err g m s = (Ok a, s')"
  by (simp add: map_err_def)

lemma run_map_err_Err [run_simps, simp]: "m s = (Err e, s') \<Longrightarrow> map_err g m s = (Err (g e), s')"
  by (simp add: map_err_def)

lemma bindR_OkE:
  assumes "bindR m f s = (Ok b, t)"
  obtains a s' where "m s = (Ok a, s')" "f a s' = (Ok b, t)"
  using assms by (auto simp: bindR_def split: prod.splits sum.splits)

lemma map_err_OkE:
  assumes "map_err g m s = (Ok b, t)"
  obtains "m s = (Ok b, t)"
  using assms by (auto simp: map_err_def split: prod.splits sum.splits)

lemma bind_result_simps [simp]:
  "bind_result (Ok a) f = f a"
  "bind_result (Err e) f = Err e"
  by (simp_all add: bind_result_def)

lemma bind_result_Ok_iff: "bind_result r f = Ok b \<longleftrightarrow> (\<exists>a. r = Ok a \<and> f a = Ok b)"
  by (cases r) simp_all

lemma ok_or_simps [simp]:
  "ok_or (Some a) e = Ok a"
  "ok_or None e = Err e"
  by (simp_all add: ok_or_def)

lemma ok_or_Ok_iff: "ok_or x e = Ok a \<longleftrightarrow> x = Some a"
  by (cases x) simp_all

text \<open>A retry loop need not return; its computation is optional, and \<^verbatim>\<open>None\<close> is not returning.\<close>

type_synonym ('s, 'e, 'a) loop = "'s \<Rightarrow> (('e, 'a) result \<times> 's) option"

definition bindL :: "('s, 'e, 'a) loop \<Rightarrow> ('a \<Rightarrow> ('s, 'e, 'b) loop) \<Rightarrow> ('s, 'e, 'b) loop" where
  "bindL m f = (\<lambda>s. case m s of None \<Rightarrow> None
     | Some (Err e, s') \<Rightarrow> Some (Err e, s') | Some (Ok a, s') \<Rightarrow> f a s')"

definition returns :: "('s, 'e, 'a) comp \<Rightarrow> ('s, 'e, 'a) loop" where
  "returns m = (\<lambda>s. Some (m s))"

lemma run_returns [run_simps, simp]: "returns m s = Some (m s)"
  by (simp add: returns_def)

lemma run_bindL_Ok [run_simps, simp]: "m s = Some (Ok a, s') \<Longrightarrow> bindL m f s = f a s'"
  by (simp add: bindL_def)

lemma run_bindL_Err [run_simps, simp]: "m s = Some (Err e, s') \<Longrightarrow> bindL m f s = Some (Err e, s')"
  by (simp add: bindL_def)

lemma bindL_OkE:
  assumes "bindL m f s = Some (Ok b, t)"
  obtains a s' where "m s = Some (Ok a, s')" "f a s' = Some (Ok b, t)"
  using assms by (auto simp: bindL_def split: option.splits prod.splits sum.splits)

text \<open>An object with fields of its own over a shared state: the state is the pair of both.\<close>

definition on_shared :: "('s, 'e, 'a) comp \<Rightarrow> ('o \<times> 's, 'e, 'a) comp" where
  "on_shared m = (\<lambda>(obj, s). case m s of (r, s') \<Rightarrow> (r, (obj, s')))"

definition modify_self :: "('o \<Rightarrow> 'o) \<Rightarrow> ('o \<times> 's, 'e, unit) comp" where
  "modify_self f = (\<lambda>(obj, s). (Ok (), (f obj, s)))"

definition get_self :: "('o \<times> 's, 'e, 'o) comp" where
  "get_self = (\<lambda>(obj, s). (Ok obj, (obj, s)))"

lemma run_on_shared [run_simps, simp]: "m s = (r, s') \<Longrightarrow> on_shared m (obj, s) = (r, (obj, s'))"
  by (simp add: on_shared_def)

lemma run_modify_self [run_simps, simp]: "modify_self f (obj, s) = (Ok (), (f obj, s))"
  by (simp add: modify_self_def)

lemma run_get_self [run_simps, simp]: "get_self (obj, s) = (Ok obj, (obj, s))"
  by (simp add: get_self_def)

text \<open>Computations on a component of the state, and the basic steps on the whole of it.\<close>

definition gets :: "('s \<Rightarrow> 'a) \<Rightarrow> ('s, 'e, 'a) comp" where
  "gets f = (\<lambda>s. (Ok (f s), s))"

definition update :: "('s \<Rightarrow> 's) \<Rightarrow> ('s, 'e, unit) comp" where
  "update f = (\<lambda>s. (Ok (), f s))"

definition check :: "('s \<Rightarrow> ('e, 'a) result) \<Rightarrow> ('s, 'e, 'a) comp" where
  "check f = (\<lambda>s. (f s, s))"

definition ensure :: "bool \<Rightarrow> 'e \<Rightarrow> ('s, 'e, unit) comp" where
  "ensure b e = (\<lambda>s. (if b then Ok () else Err e, s))"

definition through :: "('s \<Rightarrow> 't) \<Rightarrow> ('t \<Rightarrow> 's \<Rightarrow> 's) \<Rightarrow> ('t, 'e, 'a) comp \<Rightarrow> ('s, 'e, 'a) comp" where
  "through get put c = (\<lambda>s. case c (get s) of (x, t) \<Rightarrow> (x, put t s))"

definition best_effort :: "('s, 'e, 'a) comp \<Rightarrow> ('s, 'd, unit) comp" where
  "best_effort c = (\<lambda>s. (Ok (), snd (c s)))"

lemma run_steps [run_simps, simp]:
  "gets f s = (Ok (f s), s)"
  "update g s = (Ok (), g s)"
  "check h s = (h s, s)"
  "ensure b e s = (if b then Ok () else Err e, s)"
  "through get put c s = (fst (c (get s)), put (snd (c (get s))) s)"
  "best_effort c' s = (Ok (), snd (c' s))"
  by (simp_all add: gets_def update_def check_def ensure_def through_def best_effort_def split: prod.split)

fun find_map :: "('x \<Rightarrow> 'a option) \<Rightarrow> 'x list \<Rightarrow> 'a option" where
  "find_map f [] = None"
| "find_map f (x # xs) = (case f x of Some a \<Rightarrow> Some a | None \<Rightarrow> find_map f xs)"

lemma find_map_None_iff: "find_map f xs = None \<longleftrightarrow> (\<forall>x\<in>set xs. f x = None)"
  by (induction xs) (auto split: option.splits)

lemma find_map_SomeD: "find_map f xs = Some a \<Longrightarrow> \<exists>x\<in>set xs. f x = Some a"
  by (induction xs) (auto split: option.splits)

section \<open>Little-endian bytes\<close>

fun to_le :: "nat \<Rightarrow> 'w::len word \<Rightarrow> u8 list" where
  "to_le 0 w = []"
| "to_le (Suc n) w = ucast w # to_le n (drop_bit 8 w)"

fun from_le :: "u8 list \<Rightarrow> 'w::len word" where
  "from_le [] = 0"
| "from_le (b # bs) = ucast b OR push_bit 8 (from_le bs)"

abbreviation le_bytes32 :: "u32 \<Rightarrow> u8 list" where "le_bytes32 \<equiv> to_le 4"
abbreviation le_bytes64 :: "u64 \<Rightarrow> u8 list" where "le_bytes64 \<equiv> to_le 8"

lemma to_le_numeral:
  "to_le (numeral k) w = ucast w # to_le (pred_numeral k) (drop_bit 8 w)"
  by (simp add: numeral_eq_Suc)

lemma length_to_le [simp]: "length (to_le n w) = n"
  by (induction n arbitrary: w) simp_all

lemma bit_from_le_to_le:
  "bit (from_le (to_le n w) :: 'w::len word) i \<longleftrightarrow> i < 8 * n \<and> bit (w :: 'w word) i"
proof (induction n arbitrary: w i)
  case 0
  then show ?case by simp
next
  case (Suc n)
  show ?case
  proof (cases "i < 8")
    case True
    then show ?thesis
      using bit_imp_le_length [of w i]
      by (auto simp: bit_or_iff bit_push_bit_iff bit_ucast_iff not_le)
  next
    case False
    then show ?thesis
      using Suc.IH [of "drop_bit 8 w" "i - 8"] bit_imp_le_length [of w i]
      by (auto simp: bit_or_iff bit_push_bit_iff bit_ucast_iff bit_drop_bit_eq
          dest: bit_imp_le_length)
  qed
qed

lemma from_le_to_le:
  "LENGTH('w) \<le> 8 * n \<Longrightarrow> from_le (to_le n w) = (w :: 'w::len word)"
  by (rule bit_word_eqI) (simp add: bit_from_le_to_le)

lemma from_le_to_le32 [le_simps, simp]: "from_le (to_le 4 w) = (w :: u32)"
  by (rule from_le_to_le) simp

lemma from_le_to_le64 [le_simps, simp]: "from_le (to_le 8 w) = (w :: u64)"
  by (rule from_le_to_le) simp

lemma to_le_from_le:
  "8 * length bs \<le> LENGTH('w) \<Longrightarrow> to_le (length bs) (from_le bs :: 'w::len word) = bs"
proof (induction bs)
  case Nil
  then show ?case by simp
next
  case (Cons b bs)
  have "ucast (from_le (b # bs) :: 'w word) = b"
    using Cons.prems
    by (intro bit_word_eqI) (auto simp: bit_ucast_iff bit_or_iff bit_push_bit_iff)
  moreover have "to_le (length bs) (drop_bit 8 (from_le (b # bs) :: 'w word)) = bs"
  proof -
    let ?r = "from_le bs :: 'w word"
    have "to_le n (drop_bit 8 (ucast b OR push_bit 8 w)) = to_le n (w :: 'w word)"
      if "8 * Suc n \<le> LENGTH('w)" for n w
      using that
    proof -
      have eq: "to_le n (v :: 'w word) = to_le n (w :: 'w word)"
        if "\<And>i. i < 8 * n \<Longrightarrow> bit v i = bit w i" "8 * n \<le> LENGTH('w)" for v w n
        using that
      proof (induction n arbitrary: v w)
        case 0
        then show ?case by simp
      next
        case (Suc n)
        have "ucast v = (ucast w :: u8)"
          using Suc.prems by (intro bit_word_eqI) (auto simp: bit_ucast_iff)
        moreover have "to_le n (drop_bit 8 v) = to_le n (drop_bit 8 w)"
          using Suc.prems by (intro Suc.IH) (auto simp: bit_drop_bit_eq)
        ultimately show ?case by simp
      qed
      show ?thesis
        using that
        by (intro eq) (auto simp: bit_drop_bit_eq bit_or_iff bit_push_bit_iff bit_ucast_iff
            dest: bit_imp_le_length)
    qed
    then show ?thesis using Cons by simp
  qed
  ultimately show ?case by simp
qed

lemma from_le_inject:
  assumes "length xs = length ys" "8 * length ys \<le> LENGTH('w)"
  shows "(from_le xs :: 'w::len word) = from_le ys \<longleftrightarrow> xs = ys"
  using to_le_from_le [where 'w = 'w, of xs] to_le_from_le [where 'w = 'w, of ys] assms by metis

section \<open>Byte-addressed memories\<close>

type_synonym bytemap = "nat \<Rightarrow> u8"

definition bytes_at :: "bytemap \<Rightarrow> nat \<Rightarrow> nat \<Rightarrow> u8 list" where
  "bytes_at m a n = map m [a..<a + n]"

definition upd_bytes :: "bytemap \<Rightarrow> nat \<Rightarrow> u8 list \<Rightarrow> bytemap" where
  "upd_bytes m a bs = (\<lambda>i. if a \<le> i \<and> i < a + length bs then bs ! (i - a) else m i)"

definition u64_at :: "bytemap \<Rightarrow> nat \<Rightarrow> u64" where
  "u64_at m a = from_le (bytes_at m a 8)"

lemma length_bytes_at [simp]: "length (bytes_at m a n) = n"
  by (simp add: bytes_at_def)

lemma bytes_at_0 [simp]: "bytes_at m a 0 = []"
  by (simp add: bytes_at_def)

lemma nth_bytes_at [simp]: "i < n \<Longrightarrow> bytes_at m a n ! i = m (a + i)"
  by (simp add: bytes_at_def)

lemma bytes_at_upd_same [mem_simps, simp]: "bytes_at (upd_bytes m a bs) a (length bs) = bs"
  by (rule nth_equalityI) (simp_all add: upd_bytes_def)

lemma bytes_at_upd_disjoint [mem_simps]:
  "a + n \<le> b \<or> b + length bs \<le> a \<Longrightarrow> bytes_at (upd_bytes m b bs) a n = bytes_at m a n"
  by (rule nth_equalityI) (auto simp: upd_bytes_def)

lemma u64_at_upd_same [mem_simps, simp]: "u64_at (upd_bytes m a (to_le 8 v)) a = v"
  using bytes_at_upd_same [of m a "to_le 8 v"] by (simp add: u64_at_def)

lemma u64_at_upd_disjoint [mem_simps]:
  "a + 8 \<le> b \<or> b + length bs \<le> a \<Longrightarrow> u64_at (upd_bytes m b bs) a = u64_at m a"
  by (simp add: u64_at_def bytes_at_upd_disjoint)

lemma upd_bytes_Nil [mem_simps, simp]: "upd_bytes m a [] = m"
  by (rule ext) (auto simp: upd_bytes_def)

lemma bytes_at_append: "bytes_at m a (n + k) = bytes_at m a n @ bytes_at m (a + n) k"
  by (rule nth_equalityI) (auto simp: nth_append)

section \<open>Circular byte areas\<close>

text \<open>
  A ring of \<open>c\<close> bytes that starts at address \<open>base\<close>: a logical position selects the byte at its
  remainder by \<open>c\<close>.
\<close>

definition ring_byte :: "nat \<Rightarrow> bytemap \<Rightarrow> nat \<Rightarrow> nat \<Rightarrow> u8" where
  "ring_byte base m c p = m (base + p mod c)"

definition ring_bytes :: "nat \<Rightarrow> bytemap \<Rightarrow> nat \<Rightarrow> nat \<Rightarrow> nat \<Rightarrow> u8 list" where
  "ring_bytes base m c p n = map (\<lambda>i. ring_byte base m c (p + i)) [0..<n]"

definition ring_upd :: "nat \<Rightarrow> bytemap \<Rightarrow> nat \<Rightarrow> nat \<Rightarrow> u8 list \<Rightarrow> bytemap" where
  "ring_upd base m c p bs = (\<lambda>a.
     if base \<le> a \<and> a < base + c \<and> (a - base + (c - p mod c)) mod c < length bs
     then bs ! ((a - base + (c - p mod c)) mod c) else m a)"

lemma length_ring_bytes [simp]: "length (ring_bytes base m c p n) = n"
  by (simp add: ring_bytes_def)

lemma ring_bytes_0 [simp]: "ring_bytes base m c p 0 = []"
  by (simp add: ring_bytes_def)

lemma mod_add_wrap:
  "i < c \<Longrightarrow> (p + i) mod c = (if p mod c + i < c then p mod c + i else p mod c + i - c)"
  for p i c :: nat
  by (subst mod_add_left_eq [symmetric])
     (auto simp: not_less le_mod_geq less_diff_conv2 intro!: mod_less add_less_le_mono
        order.strict_implies_order)

lemma ring_distance:
  fixes p q c :: nat
  assumes "i < c"
  shows "((p + i) mod c + (c - p mod c)) mod c = i"
proof -
  have "p mod c < c" using assms by simp
  then show ?thesis
    using assms by (cases "p mod c + i < c") (simp_all add: mod_add_wrap)
qed

lemma ring_byte_upd:
  assumes "i < c"
  shows "ring_byte base (ring_upd base m c p bs) c (p + i)
    = (if i < length bs then bs ! i else ring_byte base m c (p + i))"
proof -
  have "(p + i) mod c < c" using assms by simp
  then show ?thesis
    by (simp only: ring_byte_def ring_upd_def add_diff_cancel_left' ring_distance [OF assms] le_add1
        nat_add_left_cancel_less simp_thms)
qed

lemma ring_bytes_upd_same:
  "length bs \<le> c \<Longrightarrow> ring_bytes base (ring_upd base m c p bs) c p (length bs) = bs"
  by (rule nth_equalityI) (simp_all add: ring_bytes_def ring_byte_upd)

lemma ring_bytes_upd_after:
  assumes "length bs \<le> d" "d + n \<le> c"
  shows "ring_bytes base (ring_upd base m c p bs) c (p + d) n = ring_bytes base m c (p + d) n"
  using assms by (intro nth_equalityI) (simp_all add: ring_bytes_def ring_byte_upd add.assoc)

lemma ring_byte_shift: "ring_byte base m c (p + c) = ring_byte base m c p"
  by (simp add: ring_byte_def)

lemma ring_bytes_shift: "ring_bytes base m c (p + c) n = ring_bytes base m c p n"
proof -
  have "ring_byte base m c (p + c + i) = ring_byte base m c (p + i)" for i
    using ring_byte_shift [of base m c "p + i"] by (simp add: ac_simps)
  then show ?thesis by (simp add: ring_bytes_def)
qed

text \<open>A span that ends at or before the write and begins less than a lap behind its end is kept.\<close>

lemma ring_bytes_upd_before:
  assumes "q + n \<le> p" "p + length bs \<le> q + c"
  shows "ring_bytes base (ring_upd base m c p bs) c q n = ring_bytes base m c q n"
proof -
  define d where "d = q + c - p"
  have "q + c = p + d" using assms by (simp add: d_def)
  moreover have "ring_bytes base (ring_upd base m c p bs) c (p + d) n = ring_bytes base m c (p + d) n"
    using assms by (intro ring_bytes_upd_after) (simp_all add: d_def)
  ultimately show ?thesis using ring_bytes_shift by metis
qed

lemma ring_upd_outside: "a < base \<Longrightarrow> ring_upd base m c p bs a = m a"
  by (simp add: ring_upd_def)

lemma u64_at_ring_upd: "a + 8 \<le> base \<Longrightarrow> u64_at (ring_upd base m c p bs) a = u64_at m a"
  by (auto simp: u64_at_def bytes_at_def ring_upd_outside intro!: arg_cong [of _ _ from_le])

lemma ring_byte_upd_bytes:
  "a + length bs \<le> base \<Longrightarrow> ring_byte base (upd_bytes m a bs) c p = ring_byte base m c p"
  by (simp add: ring_byte_def upd_bytes_def)

lemma ring_bytes_upd_bytes:
  "a + length bs \<le> base \<Longrightarrow> ring_bytes base (upd_bytes m a bs) c p n = ring_bytes base m c p n"
  by (simp add: ring_bytes_def ring_byte_upd_bytes)

lemma ring_upd_Nil [simp]: "ring_upd base m c p [] = m"
  by (rule ext) (simp add: ring_upd_def)

lemma ring_upd_contiguous:
  assumes "0 < c" "p mod c + length bs \<le> c"
  shows "ring_upd base m c p bs = upd_bytes m (base + p mod c) bs"
proof
  fix a
  have "(a - base + (c - p mod c)) mod c = (if p mod c \<le> a - base then a - base - p mod c
      else a - base + (c - p mod c))" if "a - base < c"
    using that assms(1) mod_less_divisor [OF assms(1), of p]
    by (auto simp: le_mod_geq)
  then show "ring_upd base m c p bs a = upd_bytes m (base + p mod c) bs a"
    using assms by (auto simp: ring_upd_def upd_bytes_def)
qed

lemma ring_upd_split:
  assumes "0 < c" "c < p mod c + length bs" "length bs \<le> c"
  shows "ring_upd base m c p bs
    = upd_bytes (upd_bytes m (base + p mod c) (take (c - p mod c) bs)) base (drop (c - p mod c) bs)"
proof
  fix a
  have "(a - base + (c - p mod c)) mod c = (if p mod c \<le> a - base then a - base - p mod c
      else a - base + (c - p mod c))" if "a - base < c"
    using that assms(1) mod_less_divisor [OF assms(1), of p]
    by (auto simp: le_mod_geq)
  then show "ring_upd base m c p bs a
    = upd_bytes (upd_bytes m (base + p mod c) (take (c - p mod c) bs)) base (drop (c - p mod c) bs) a"
    using assms mod_less_divisor [OF assms(1), of p]
    by (auto simp: ring_upd_def upd_bytes_def intro!: arg_cong [of _ _ "(!) bs"])
qed

lemma ring_bytes_contiguous:
  "0 < c \<Longrightarrow> p mod c + n \<le> c \<Longrightarrow> ring_bytes base m c p n = bytes_at m (base + p mod c) n"
  by (rule nth_equalityI) (simp_all add: ring_bytes_def ring_byte_def mod_add_wrap add.assoc)

lemma ring_bytes_split:
  assumes "0 < c" "c < p mod c + n" "n \<le> c"
  shows "ring_bytes base m c p n
    = bytes_at m (base + p mod c) (c - p mod c) @ bytes_at m base (n - (c - p mod c))"
  using assms mod_less_divisor [OF assms(1), of p]
  by (intro nth_equalityI)
     (auto simp: ring_bytes_def ring_byte_def mod_add_wrap nth_append intro!: arg_cong [of _ _ m])

section \<open>Decimal rendering\<close>

fun dec_digits :: "nat \<Rightarrow> string" where
  "dec_digits n = (if n < 10 then [char_of (48 + n)]
     else dec_digits (n div 10) @ [char_of (48 + n mod 10)])"

declare dec_digits.simps [simp del]

end
