(* ===== verification/Frame_Header.thy ===== *)
theory Frame_Header
  imports Prelude
begin

text \<open>
  The frame header of the shared-memory ring protocol (\<^verbatim>\<open>crates/memory/src/frame.rs\<close>): the
  16-byte encoding with its FNV-1a checksum, the checked decoding and the flag tests.
\<close>

section \<open>Errors of the memory crate\<close>

datatype memory_error =
    MemCapacityExceeded
  | MemIndexOutOfBounds
  | MemInvalidLayout
  | MemCorruptedHeader
  | MemProviderNotSet
  | MemRegionNotFound u64
  | MemOther string

section \<open>Header\<close>

record frame_header =
  fh_len :: u32
  fh_tag :: u32
  fh_flags :: u8

definition encoded_size :: nat where "encoded_size = 16"
definition flag_ready :: u8 where "flag_ready = 1"
definition flag_aborted :: u8 where "flag_aborted = 2"
definition flag_stream_item :: u8 where "flag_stream_item = 4"
definition flag_stream_end :: u8 where "flag_stream_end = 8"
definition flag_stream_cancel :: u8 where "flag_stream_cancel = 16"
definition flag_stream_error :: u8 where "flag_stream_error = 32"

lemmas flag_defs = flag_ready_def flag_aborted_def flag_stream_item_def flag_stream_end_def
  flag_stream_cancel_def flag_stream_error_def

definition fnv_step :: "u32 \<Rightarrow> u8 \<Rightarrow> u32" where
  "fnv_step hash byte = (hash XOR ucast byte) * 0x01000193"

definition checksum :: "u8 list \<Rightarrow> u32" where
  "checksum bytes = foldl fnv_step 0x811c9dc5 bytes"

definition encode :: "frame_header \<Rightarrow> u8 list" where
  "encode h = (let body = to_le 4 (fh_len h) @ to_le 4 (fh_tag h) @ [fh_flags h]
     in body @ to_le 4 (checksum body) @ [0, 0, 0])"

definition decode :: "u8 list \<Rightarrow> (memory_error, frame_header) result" where
  "decode bytes =
    (if length bytes < encoded_size then Err MemInvalidLayout
     else if from_le (take 4 (drop 9 bytes)) \<noteq> checksum (take 9 bytes) then Err MemCorruptedHeader
     else Ok \<lparr>fh_len = from_le (take 4 bytes), fh_tag = from_le (take 4 (drop 4 bytes)),
              fh_flags = bytes ! 8\<rparr>)"

definition frame_size :: "frame_header \<Rightarrow> u64" where
  "frame_size h = of_nat encoded_size + ucast (fh_len h)"

definition is_ready :: "frame_header \<Rightarrow> bool" where
  "is_ready h \<longleftrightarrow> fh_flags h AND flag_ready \<noteq> 0"

definition is_aborted :: "frame_header \<Rightarrow> bool" where
  "is_aborted h \<longleftrightarrow> fh_flags h AND flag_aborted \<noteq> 0"

definition is_stream_item :: "frame_header \<Rightarrow> bool" where
  "is_stream_item h \<longleftrightarrow> fh_flags h AND flag_stream_item \<noteq> 0"

definition is_stream_end :: "frame_header \<Rightarrow> bool" where
  "is_stream_end h \<longleftrightarrow> fh_flags h AND flag_stream_end \<noteq> 0"

definition is_stream_cancel :: "frame_header \<Rightarrow> bool" where
  "is_stream_cancel h \<longleftrightarrow> fh_flags h AND flag_stream_cancel \<noteq> 0"

definition is_stream_error :: "frame_header \<Rightarrow> bool" where
  "is_stream_error h \<longleftrightarrow> fh_flags h AND flag_stream_error \<noteq> 0"

section \<open>The codec\<close>

lemma length_encode [simp]: "length (encode h) = 16"
  by (simp add: encode_def Let_def)

lemma decode_encode [simp]: "decode (encode h) = Ok h"
  by (simp add: decode_def encode_def Let_def encoded_size_def nth_append)

text \<open>The multiplier is odd, so one hashing step is injective in the hash and in the byte.\<close>

lemma fnv_mult_inverse: "(0x01000193 :: u32) * 0x359c449b = 1"
  by simp

lemma fnv_step_inj_hash: "fnv_step h b = fnv_step h' b \<Longrightarrow> h = h'"
proof -
  assume "fnv_step h b = fnv_step h' b"
  then have "(h XOR ucast b) * (0x01000193 * 0x359c449b) = (h' XOR ucast b) * (0x01000193 * 0x359c449b)"
    by (simp only: fnv_step_def mult.assoc [symmetric])
  then have "h XOR ucast b = h' XOR ucast b" by (simp only: fnv_mult_inverse mult_1_right)
  then have "(h XOR ucast b) XOR ucast b = (h' XOR ucast b) XOR ucast b" by simp
  then show "h = h'" by (simp only: xor.assoc xor_self_eq xor.right_neutral)
qed

lemma fnv_step_inj_byte: "fnv_step h b = fnv_step h b' \<Longrightarrow> b = b'"
proof -
  assume "fnv_step h b = fnv_step h b'"
  then have "(h XOR ucast b) * (0x01000193 * 0x359c449b) = (h XOR ucast b') * (0x01000193 * 0x359c449b)"
    by (simp only: fnv_step_def mult.assoc [symmetric])
  then have "h XOR ucast b = h XOR ucast b'" by (simp only: fnv_mult_inverse mult_1_right)
  then have "h XOR (h XOR ucast b) = h XOR (h XOR ucast b')" by simp
  then have "(ucast b :: u32) = ucast b'" by (simp add: xor.assoc [symmetric])
  then show "b = b'"
    by (auto intro!: bit_word_eqI simp: bit_eq_iff bit_ucast_iff)
qed

lemma foldl_fnv_inj: "foldl fnv_step h bs = foldl fnv_step h' bs \<Longrightarrow> h = h'"
  by (induction bs arbitrary: h h') (auto dest: fnv_step_inj_hash)

text \<open>Hence a single changed byte always changes the checksum.\<close>

lemma checksum_list_update:
  assumes "i < length bs" "b \<noteq> bs ! i"
  shows "checksum (bs[i := b]) \<noteq> checksum bs"
proof
  assume eq: "checksum (bs[i := b]) = checksum bs"
  have split: "bs = take i bs @ bs ! i # drop (Suc i) bs"
    using assms(1) by (simp add: id_take_nth_drop [symmetric])
  have upd: "bs[i := b] = take i bs @ b # drop (Suc i) bs"
    using assms(1) by (simp add: upd_conv_take_nth_drop)
  have "foldl fnv_step (fnv_step (foldl fnv_step 0x811c9dc5 (take i bs)) b) (drop (Suc i) bs)
      = foldl fnv_step (fnv_step (foldl fnv_step 0x811c9dc5 (take i bs)) (bs ! i)) (drop (Suc i) bs)"
    using eq upd arg_cong [OF split, of checksum] by (simp add: checksum_def)
  then show False
    using assms(2) by (blast dest: foldl_fnv_inj fnv_step_inj_byte)
qed

lemma decode_tampered:
  assumes "i < 13" "b \<noteq> encode h ! i"
  shows "decode ((encode h)[i := b]) = Err MemCorruptedHeader"
proof -
  let ?body = "take 9 (encode h)" and ?sum = "take 4 (drop 9 (encode h))"
  have sum: "from_le ?sum = checksum ?body"
    by (simp add: encode_def Let_def)
  have "from_le (take 4 (drop 9 ((encode h)[i := b]))) \<noteq> checksum (take 9 ((encode h)[i := b]))"
  proof (cases "i < 9")
    case True
    then have "checksum (?body[i := b]) \<noteq> checksum ?body"
      using assms(2) by (intro checksum_list_update) simp_all
    then show ?thesis using True sum by (simp add: take_update_swap)
  next
    case False
    then have "?sum[i - 9 := b] \<noteq> ?sum"
      using assms by (auto simp: list_eq_iff_nth_eq intro!: exI [of _ "i - 9"])
    then have "(from_le (?sum[i - 9 := b]) :: u32) \<noteq> from_le ?sum"
      by (subst from_le_inject) simp_all
    then show ?thesis
      using False sum by (simp add: drop_update_swap take_update_swap not_less list_update_beyond)
  qed
  then show ?thesis by (simp add: decode_def encoded_size_def)
qed

text \<open>Everything the decoder accepts is, up to the padding, an encoding of what it returns.\<close>

lemma decode_canonical:
  assumes "decode bs = Ok h"
  shows "take 13 bs = take 13 (encode h)"
proof -
  from assms have len: "16 \<le> length bs"
    and sum: "from_le (take 4 (drop 9 bs)) = checksum (take 9 bs)"
    and h: "h = \<lparr>fh_len = from_le (take 4 bs), fh_tag = from_le (take 4 (drop 4 bs)),
              fh_flags = bs ! 8\<rparr>"
    by (auto simp: decode_def encoded_size_def split: if_splits)
  have rt: "to_le 4 (from_le xs :: u32) = xs" if "length xs = 4" for xs
    using to_le_from_le [where 'w = 32, of xs] that by simp
  have nine: "take 9 bs = take 4 bs @ take 4 (drop 4 bs) @ [bs ! 8]"
    using len take_add [of 4 5 bs] take_add [of 4 1 "drop 4 bs"]
    by (simp add: take_Suc_conv_app_nth)
  have "take 13 bs = take 9 bs @ take 4 (drop 9 bs)"
    using take_add [of 9 4 bs] by simp
  then show ?thesis
    using len sum by (simp add: encode_def Let_def h rt nine [symmetric] sum [symmetric])
qed

lemma decode_ignores_padding:
  "length pad = 3 \<Longrightarrow> decode (take 13 (encode h) @ pad) = Ok h"
  by (simp add: decode_def encode_def Let_def encoded_size_def nth_append)

section \<open>Sizes and flags\<close>

lemma unat_frame_size [simp]: "unat (frame_size h) = 16 + unat (fh_len h)"
  using unat_u32_lt [of "fh_len h"] by (simp add: frame_size_def encoded_size_def)

lemma ready_or: "is_ready \<lparr>fh_len = l, fh_tag = t, fh_flags = f OR flag_ready\<rparr>"
  by (simp add: is_ready_def flag_ready_def word_ao_absorbs)

lemma not_ready_and: "\<not> is_ready \<lparr>fh_len = l, fh_tag = t, fh_flags = f AND NOT flag_ready\<rparr>"
  by (simp add: is_ready_def flag_ready_def and.assoc)

section \<open>Properties\<close>

text \<open>C32. The decoder accepts exactly the encodings: a buffer decodes to a header when it holds at
  least 16 bytes and its first 13 bytes are those of the header's encoding; the three padding bytes
  carry no meaning.\<close>

theorem decode_accepts_exactly_encodings:
  "decode bs = Ok h \<longleftrightarrow> 16 \<le> length bs \<and> take 13 bs = take 13 (encode h)"
proof (intro iffI conjI; (elim conjE)?)
  assume ok: "decode bs = Ok h"
  then show "16 \<le> length bs" by (auto simp: decode_def encoded_size_def split: if_splits)
  from ok show "take 13 bs = take 13 (encode h)" by (rule decode_canonical)
next
  assume len: "16 \<le> length bs" and eq: "take 13 bs = take 13 (encode h)"
  have part: "take n (drop k bs) = take n (drop k (encode h))" if "k + n \<le> 13" for k n
    using arg_cong [OF eq, of "\<lambda>xs. take n (drop k xs)"] that by (simp add: drop_take)
  have "bs ! 8 = encode h ! 8" using arg_cong [OF eq, of "\<lambda>xs. xs ! 8"] by simp
  then have "decode bs = decode (encode h)"
    using len part [of 0 4] part [of 4 4] part [of 0 9] part [of 9 4]
    by (simp add: decode_def encoded_size_def)
  then show "decode bs = Ok h" by simp
qed

text \<open>A header in which any one of its 13 meaningful bytes was changed is refused as corrupted:
  every hashing step of the checksum is injective, so no single-byte change collides.\<close>

theorem single_byte_change_is_detected:
  assumes "i < 13" "b \<noteq> encode h ! i"
  shows "decode ((encode h)[i := b]) = Err MemCorruptedHeader"
  using assms by (rule decode_tampered)

theorem single_byte_change_is_detected_witness:
  "decode ((encode \<lparr>fh_len = 1024, fh_tag = 42, fh_flags = 1\<rparr>)[0 := 7]) = Err MemCorruptedHeader"
  by (rule single_byte_change_is_detected) (simp_all add: encode_def Let_def to_le_numeral)

end
