(* ===== verification/Mapping_Backend.thy ===== *)
theory Mapping_Backend
  imports Frame_Header
begin

text \<open>
  Region mappings (\<^verbatim>\<open>crates/memory/src/lib.rs\<close>). The trait \<^verbatim>\<open>MappingBackend\<close> is a record of
  operations over a state of the provider's choice; \<^verbatim>\<open>PointerBackend\<close> implements it over the
  bytes of a process. The locale \<^verbatim>\<open>mapping_access\<close> is the contract for reads, writes and
  unconditional atomics: in-bounds accesses succeed and act on a byte view of the region. The
  locale \<^verbatim>\<open>mapping_laws\<close> adds the compare-and-exchange. A weak compare-and-exchange may fail
  spuriously, so the pointer backend keeps a script of such failures: it meets the first contract
  always and the second one while no spurious failure is pending.
\<close>

section \<open>The trait\<close>

record 's mapping_backend =
  mb_size :: u64
  mb_read :: "u64 \<Rightarrow> u64 \<Rightarrow> ('s, memory_error, u8 list) comp"
  mb_write :: "u64 \<Rightarrow> u8 list \<Rightarrow> ('s, memory_error, unit) comp"
  mb_load :: "u64 \<Rightarrow> ('s, memory_error, u64) comp"
  mb_store :: "u64 \<Rightarrow> u64 \<Rightarrow> ('s, memory_error, unit) comp"
  mb_fetch_add :: "u64 \<Rightarrow> u64 \<Rightarrow> ('s, memory_error, u64) comp"
  mb_cas :: "u64 \<Rightarrow> u64 \<Rightarrow> u64 \<Rightarrow> ('s, memory_error, u64) comp"
  mb_notify :: "u64 \<Rightarrow> u32 \<Rightarrow> ('s, memory_error, u32) comp"
  mb_wait32 :: "u64 \<Rightarrow> u32 \<Rightarrow> u64 \<Rightarrow> ('s, memory_error, unit) comp"

definition RING_HEADER_SIZE :: u64 where "RING_HEADER_SIZE = 4096"
definition SHARED_REGION_MAGIC :: u64 where "SHARED_REGION_MAGIC = 0x53454C49554D454D"
definition WASM_PAGE_SIZE :: u64 where "WASM_PAGE_SIZE = 65536"

section \<open>Parked threads\<close>

text \<open>
  The waiter registry keeps one notified flag per address; an absent entry is a flag that is not
  set. What a condition variable does to a parked thread is decided outside the process: it is
  read from a script, and an empty script stands for a wake-up without a cause.
\<close>

datatype wait_outcome = Woken | TimedOut

record process_memory =
  pm_bytes :: bytemap
  pm_weak :: "bool list"
  pm_notified :: "nat \<Rightarrow> bool"
  pm_waits :: "wait_outcome list"

definition waiters_notify :: "nat \<Rightarrow> u32 \<Rightarrow> process_memory \<Rightarrow> u32 \<times> process_memory" where
  "waiters_notify key count s =
    (if count = 0 then (0, s)
     else if \<not> pm_notified s key
       then (1, s\<lparr>pm_notified := (pm_notified s)(key := True)\<rparr>)
     else (0, s))"

definition waiters_wait :: "nat \<Rightarrow> u64 \<Rightarrow> (process_memory, memory_error, unit) comp" where
  "waiters_wait key timeout_ms s =
    (if pm_notified s key then (Ok (), s\<lparr>pm_notified := (pm_notified s)(key := False)\<rparr>)
     else
       let outcome = (case pm_waits s of [] \<Rightarrow> Woken | w # _ \<Rightarrow> w);
           s' = s\<lparr>pm_waits := tl (pm_waits s)\<rparr>
       in if timeout_ms \<noteq> u64_max \<and> outcome = TimedOut
          then (Err (MemOther ''wait32 timed out''), s')
          else (Ok (), s'\<lparr>pm_notified := (pm_notified s')(key := False)\<rparr>))"

section \<open>The pointer backend\<close>

record pointer_backend =
  pb_base :: nat
  pb_size :: u64

definition pb_checked_offset :: "pointer_backend \<Rightarrow> u64 \<Rightarrow> u64 \<Rightarrow> (memory_error, nat) result" where
  "pb_checked_offset b offset n =
    (case checked_add offset n of
       None \<Rightarrow> Err MemCapacityExceeded
     | Some e \<Rightarrow> if e > pb_size b then Err MemIndexOutOfBounds else Ok (pb_base b + unat offset))"

definition pb_read :: "pointer_backend \<Rightarrow> u64 \<Rightarrow> u64 \<Rightarrow> (process_memory, memory_error, u8 list) comp" where
  "pb_read b offset n s =
    (case checked_add offset n of
       None \<Rightarrow> (Err MemCapacityExceeded, s)
     | Some e \<Rightarrow>
         if e > pb_size b then (Err MemIndexOutOfBounds, s)
         else (Ok (bytes_at (pm_bytes s) (pb_base b + unat offset) (unat n)), s))"

definition pb_write :: "pointer_backend \<Rightarrow> u64 \<Rightarrow> u8 list \<Rightarrow> (process_memory, memory_error, unit) comp" where
  "pb_write b offset bytes s =
    (case checked_add offset (of_nat (length bytes)) of
       None \<Rightarrow> (Err MemCapacityExceeded, s)
     | Some e \<Rightarrow>
         if e > pb_size b then (Err MemIndexOutOfBounds, s)
         else (Ok (), s\<lparr>pm_bytes := upd_bytes (pm_bytes s) (pb_base b + unat offset) bytes\<rparr>))"

definition pb_load :: "pointer_backend \<Rightarrow> u64 \<Rightarrow> (process_memory, memory_error, u64) comp" where
  "pb_load b offset s =
    (if offset + 8 > pb_size b then (Err MemIndexOutOfBounds, s)
     else (Ok (u64_at (pm_bytes s) (pb_base b + unat offset)), s))"

definition pb_store :: "pointer_backend \<Rightarrow> u64 \<Rightarrow> u64 \<Rightarrow> (process_memory, memory_error, unit) comp" where
  "pb_store b offset value s =
    (if offset + 8 > pb_size b then (Err MemIndexOutOfBounds, s)
     else (Ok (), s\<lparr>pm_bytes := upd_bytes (pm_bytes s) (pb_base b + unat offset) (to_le 8 value)\<rparr>))"

definition pb_fetch_add :: "pointer_backend \<Rightarrow> u64 \<Rightarrow> u64 \<Rightarrow> (process_memory, memory_error, u64) comp" where
  "pb_fetch_add b offset value s =
    (if offset + 8 > pb_size b then (Err MemIndexOutOfBounds, s)
     else
       let prev = u64_at (pm_bytes s) (pb_base b + unat offset)
       in (Ok prev, s\<lparr>pm_bytes := upd_bytes (pm_bytes s) (pb_base b + unat offset)
             (to_le 8 (prev + value))\<rparr>))"

definition pb_cas :: "pointer_backend \<Rightarrow> u64 \<Rightarrow> u64 \<Rightarrow> u64 \<Rightarrow> (process_memory, memory_error, u64) comp" where
  "pb_cas b offset current new s =
    (if offset + 8 > pb_size b then (Err MemIndexOutOfBounds, s)
     else
       let prev = u64_at (pm_bytes s) (pb_base b + unat offset)
       in if prev = current
          then (case pm_weak s of
                  True # r \<Rightarrow> (Ok prev, s\<lparr>pm_weak := r\<rparr>)
                | _ \<Rightarrow> (Ok prev, s\<lparr>pm_weak := tl (pm_weak s), pm_bytes :=
                      upd_bytes (pm_bytes s) (pb_base b + unat offset) (to_le 8 new)\<rparr>))
          else (Ok prev, s))"

definition pb_notify :: "pointer_backend \<Rightarrow> u64 \<Rightarrow> u32 \<Rightarrow> (process_memory, memory_error, u32) comp" where
  "pb_notify b offset count =
    bindR (lift_result (pb_checked_offset b offset 4))
      (\<lambda>addr s. let (n, s') = waiters_notify addr count s in (Ok n, s'))"

definition pb_wait32 :: "pointer_backend \<Rightarrow> u64 \<Rightarrow> u32 \<Rightarrow> u64 \<Rightarrow> (process_memory, memory_error, unit) comp" where
  "pb_wait32 b offset expected timeout_ms =
    bindR (lift_result (pb_checked_offset b offset 4))
      (\<lambda>addr s. if from_le (bytes_at (pm_bytes s) addr 4) \<noteq> expected then (Ok (), s)
         else waiters_wait addr timeout_ms s)"

definition pb_sub_region :: "pointer_backend \<Rightarrow> u64 \<Rightarrow> u64 \<Rightarrow> (memory_error, pointer_backend) result" where
  "pb_sub_region b offset n =
    (case checked_add offset n of
       None \<Rightarrow> Err MemCapacityExceeded
     | Some e \<Rightarrow> if e > pb_size b then Err MemIndexOutOfBounds
         else Ok \<lparr>pb_base = pb_base b + unat offset, pb_size = n\<rparr>)"

definition pointer_ops :: "pointer_backend \<Rightarrow> process_memory mapping_backend" where
  "pointer_ops b =
    \<lparr>mb_size = pb_size b, mb_read = pb_read b, mb_write = pb_write b, mb_load = pb_load b,
     mb_store = pb_store b, mb_fetch_add = pb_fetch_add b, mb_cas = pb_cas b,
     mb_notify = pb_notify b, mb_wait32 = pb_wait32 b\<rparr>"

section \<open>Typed accesses of a mapping\<close>

definition read_u64 :: "'s mapping_backend \<Rightarrow> u64 \<Rightarrow> ('s, memory_error, u64) comp" where
  "read_u64 B offset = bindR (mb_read B offset 8)
     (\<lambda>bytes. if length bytes = 8 then ret (from_le bytes) else fail MemInvalidLayout)"

definition write_u64 :: "'s mapping_backend \<Rightarrow> u64 \<Rightarrow> u64 \<Rightarrow> ('s, memory_error, unit) comp" where
  "write_u64 B offset value = mb_write B offset (to_le 8 value)"

definition read_u8 :: "'s mapping_backend \<Rightarrow> u64 \<Rightarrow> ('s, memory_error, u8) comp" where
  "read_u8 B offset = bindR (mb_read B offset 1)
     (\<lambda>bytes. case bytes of [] \<Rightarrow> fail MemInvalidLayout | x # _ \<Rightarrow> ret x)"

definition write_u8 :: "'s mapping_backend \<Rightarrow> u64 \<Rightarrow> u8 \<Rightarrow> ('s, memory_error, unit) comp" where
  "write_u8 B offset value = mb_write B offset [value]"

section \<open>The contract\<close>

locale mapping_access =
  fixes B :: "'s mapping_backend"
    and view :: "'s \<Rightarrow> bytemap"
    and put :: "nat \<Rightarrow> u8 list \<Rightarrow> 's \<Rightarrow> 's"
    and good :: "'s \<Rightarrow> bool"
    and extent :: nat
  assumes extent_bound: "extent < 2 ^ 64"
    and read_ok: "good s \<Longrightarrow> unat a + unat n \<le> extent \<Longrightarrow>
      mb_read B a n s = (Ok (bytes_at (view s) (unat a) (unat n)), s)"
    and write_ok: "good s \<Longrightarrow> unat a + length bs \<le> extent \<Longrightarrow>
      mb_write B a bs s = (Ok (), put (unat a) bs s)"
    and load_ok: "good s \<Longrightarrow> unat a + 8 \<le> extent \<Longrightarrow>
      mb_load B a s = (Ok (u64_at (view s) (unat a)), s)"
    and store_ok: "good s \<Longrightarrow> unat a + 8 \<le> extent \<Longrightarrow>
      mb_store B a v s = (Ok (), put (unat a) (to_le 8 v) s)"
    and fetch_add_ok: "good s \<Longrightarrow> unat a + 8 \<le> extent \<Longrightarrow>
      mb_fetch_add B a v s = (Ok (u64_at (view s) (unat a)),
        put (unat a) (to_le 8 (u64_at (view s) (unat a) + v)) s)"
    and view_put: "good s \<Longrightarrow> i + length bs \<le> extent \<Longrightarrow>
      view (put i bs s) = upd_bytes (view s) i bs"
    and good_put: "good s \<Longrightarrow> i + length bs \<le> extent \<Longrightarrow> good (put i bs s)"
begin

lemma read_u64_ok:
  "good s \<Longrightarrow> unat a + 8 \<le> extent \<Longrightarrow> read_u64 B a s = (Ok (u64_at (view s) (unat a)), s)"
  by (simp add: read_u64_def read_ok u64_at_def)

lemma read_u8_ok:
  "good s \<Longrightarrow> unat a + 1 \<le> extent \<Longrightarrow> read_u8 B a s = (Ok (view s (unat a)), s)"
  by (simp add: read_u8_def read_ok bytes_at_def)

lemma write_then_read:
  assumes "good s" "unat a + length bs \<le> extent"
  shows "\<exists>t. mb_write B a bs s = (Ok (), t) \<and> good t \<and>
    mb_read B a (of_nat (length bs)) t = (Ok bs, t)"
proof -
  have "length bs < 2 ^ 64" using assms(2) extent_bound by linarith
  then have "unat (of_nat (length bs) :: u64) = length bs"
    by (simp add: unat_of_nat take_bit_nat_eq_self)
  then show ?thesis
    using assms by (simp add: write_ok read_ok good_put view_put)
qed

end

locale mapping_laws = mapping_access +
  assumes cas_ok: "good s \<Longrightarrow> unat a + 8 \<le> extent \<Longrightarrow>
      mb_cas B a cur new s = (Ok (u64_at (view s) (unat a)),
        if u64_at (view s) (unat a) = cur then put (unat a) (to_le 8 new) s else s)"

section \<open>The pointer backend meets the contract\<close>

definition pb_view :: "pointer_backend \<Rightarrow> process_memory \<Rightarrow> bytemap" where
  "pb_view b s = (\<lambda>i. pm_bytes s (pb_base b + i))"

definition pb_put :: "pointer_backend \<Rightarrow> nat \<Rightarrow> u8 list \<Rightarrow> process_memory \<Rightarrow> process_memory" where
  "pb_put b i bs s = s\<lparr>pm_bytes := upd_bytes (pm_bytes s) (pb_base b + i) bs\<rparr>"

definition blank_memory :: process_memory where
  "blank_memory = \<lparr>pm_bytes = (\<lambda>_. 0), pm_weak = [], pm_notified = (\<lambda>_. False), pm_waits = []\<rparr>"

definition no_spurious :: "process_memory \<Rightarrow> bool" where
  "no_spurious s \<longleftrightarrow> pm_weak s = []"

lemma bytes_at_view [mem_simps]: "bytes_at (pb_view b s) i n = bytes_at (pm_bytes s) (pb_base b + i) n"
  by (rule nth_equalityI) (simp_all add: pb_view_def add.assoc)

lemma u64_at_view [mem_simps]: "u64_at (pb_view b s) i = u64_at (pm_bytes s) (pb_base b + i)"
  by (simp add: u64_at_def bytes_at_view)

lemma pb_view_put: "pb_view b (pb_put b i bs s) = upd_bytes (pb_view b s) i bs"
  by (rule ext) (auto simp: pb_view_def pb_put_def upd_bytes_def)

lemma atomic_in_bounds:
  fixes a n :: u64
  assumes "unat a + 8 \<le> unat n"
  shows "\<not> n < a + 8"
proof -
  have "unat (a + 8) = unat a + 8"
    using assms unat_u64_lt [of n] by (subst unat_add_lt) simp_all
  then show ?thesis using assms by (simp add: word_less_nat_alt)
qed

lemma checked_in_bounds:
  fixes a n sz :: u64
  assumes "unat a + unat n \<le> unat sz"
  shows "checked_add a n = Some (a + n)" "\<not> sz < a + n"
proof -
  have lt: "unat a + unat n < 2 ^ 64"
    using assms unat_u64_lt [of sz] by simp
  then show "checked_add a n = Some (a + n)" by (simp add: checked_add_def)
  show "\<not> sz < a + n" using assms lt by (simp add: word_less_nat_alt)
qed

lemma unat_of_nat_length:
  "length bs \<le> unat (sz :: u64) \<Longrightarrow> unat (of_nat (length bs) :: u64) = length bs"
  using unat_u64_lt [of sz] by (simp add: unat_of_nat_u64)

interpretation raw: mapping_access "pointer_ops b" "pb_view b" "pb_put b" "\<lambda>_. True" "unat (pb_size b)"
  for b
proof (unfold_locales, goal_cases)
  case 1
  show ?case by (rule unat_u64_lt)
next
  case (2 s a n)
  then show ?case by (simp add: pointer_ops_def pb_read_def checked_in_bounds mem_simps)
next
  case (3 s a bs)
  then have "unat (of_nat (length bs) :: u64) = length bs"
    by (intro unat_of_nat_length [of _ "pb_size b"]) simp
  with 3 show ?case
    by (simp add: pointer_ops_def pb_write_def pb_put_def checked_in_bounds)
next
  case (4 s a)
  then show ?case by (simp add: pointer_ops_def pb_load_def atomic_in_bounds mem_simps)
next
  case (5 s a v)
  then show ?case by (simp add: pointer_ops_def pb_store_def pb_put_def atomic_in_bounds)
next
  case (6 s a v)
  then show ?case
    by (simp add: pointer_ops_def pb_fetch_add_def pb_put_def Let_def atomic_in_bounds mem_simps)
next
  case (7 s i bs)
  then show ?case by (simp add: pb_view_put)
next
  case (8 s i bs)
  then show ?case by simp
qed

interpretation ptr: mapping_laws "pointer_ops b" "pb_view b" "pb_put b" no_spurious "unat (pb_size b)"
  for b
proof (unfold_locales, goal_cases)
  case 1
  show ?case by (rule unat_u64_lt)
next
  case (8 s i bs)
  then show ?case by (simp add: pb_put_def no_spurious_def)
next
  case (9 s a cur new)
  then show ?case
    by (simp add: pointer_ops_def pb_cas_def pb_put_def Let_def no_spurious_def atomic_in_bounds mem_simps)
qed (simp_all add: raw.read_ok raw.write_ok raw.load_ok raw.store_ok raw.fetch_add_ok raw.view_put)

section \<open>Outside the contract\<close>

lemma pb_read_out_of_bounds:
  "unat (pb_size b) < unat a + unat n \<Longrightarrow> \<exists>e. pb_read b a n s = (Err e, s)"
  by (auto simp: pb_read_def checked_add_def word_less_nat_alt)

lemma pb_write_out_of_bounds:
  assumes "unat (pb_size b) < unat a + length bs" "length bs < 2 ^ 64"
  shows "\<exists>e. pb_write b a bs s = (Err e, s)"
proof -
  have "unat (of_nat (length bs) :: u64) = length bs"
    using assms(2) by (simp add: unat_of_nat take_bit_nat_eq_self)
  then show ?thesis
    using assms(1) by (auto simp: pb_write_def checked_add_def word_less_nat_alt)
qed

lemma u64_at_zero [simp]: "u64_at (\<lambda>_. 0) a = 0"
  by (simp add: u64_at_def bytes_at_def numeral_eq_Suc)

lemma blank_memory_simps [simp]:
  "no_spurious blank_memory"
  "pb_view b blank_memory = (\<lambda>_. 0)"
  by (simp_all add: no_spurious_def blank_memory_def pb_view_def)

end
