(* ===== verification/Wire_Error.thy ===== *)
theory Wire_Error
  imports Mapping_Backend
begin

text \<open>
  The error type of the messaging crates (\<^verbatim>\<open>crates/wire/src/error.rs\<close>) with the conversion from
  memory errors, and the stable error codes of the host ABI it carries.
\<close>

datatype abi_error_code =
    InvalidHandle
  | DetachedResource
  | PermissionDenied
  | QuotaExceeded
  | MalformedPayload
  | NotFound
  | Timeout
  | Internal

datatype wire_error =
    InvalidLayout
  | BufferFull
  | BufferEmpty
  | ReaderBehind
  | InvalidFrame string
  | TornFrame u64
  | CapacityExceeded
  | CasConflict u64 "u64 option"
  | ChannelClosed
  | ConnectionLost
  | Terminated
  | SerializationFailed string
  | InvalidRegion
  | LayoutMismatch
  | Abi abi_error_code
  | Guest string
  | IndexOutOfBounds
  | Overwritten
  | BackpressureNotSupported
  | Transport string

fun wire_of_memory :: "memory_error \<Rightarrow> wire_error" where
  "wire_of_memory MemCapacityExceeded = CapacityExceeded"
| "wire_of_memory MemIndexOutOfBounds = IndexOutOfBounds"
| "wire_of_memory MemInvalidLayout = InvalidLayout"
| "wire_of_memory MemCorruptedHeader = InvalidFrame ''header checksum mismatch''"
| "wire_of_memory MemProviderNotSet = InvalidRegion"
| "wire_of_memory (MemRegionNotFound _) = InvalidRegion"
| "wire_of_memory (MemOther msg) = Guest msg"

definition show_u64 :: "u64 \<Rightarrow> string" where
  "show_u64 n = dec_digits (unat n)"

fun show_memory_error :: "memory_error \<Rightarrow> string" where
  "show_memory_error MemCapacityExceeded = ''capacity exceeded''"
| "show_memory_error MemIndexOutOfBounds = ''index out of bounds''"
| "show_memory_error MemInvalidLayout = ''invalid layout''"
| "show_memory_error MemCorruptedHeader = ''header checksum mismatch''"
| "show_memory_error MemProviderNotSet = ''region provider is not configured''"
| "show_memory_error (MemRegionNotFound n) = ''region not found: '' @ show_u64 n"
| "show_memory_error (MemOther msg) = ''region operation failed: '' @ msg"

end
