(* ===== verification/Ring_Layout.thy ===== *)
theory Ring_Layout
  imports Wire_Error
begin

text \<open>
  The ring protocol (\<^verbatim>\<open>crates/shm/src/layout.rs\<close>): the coordination header, reservation of the
  tail by compare-and-exchange, the frame codec with wrap-around, the reader and writer slots, and
  the weak drain. Every operation takes the mapping backend it runs on. The second half proves
  them correct for every backend that meets \<^verbatim>\<open>mapping_laws\<close>.
\<close>

section \<open>Offsets\<close>

definition GENERATION_COUNTER_OFFSET :: u64 where "GENERATION_COUNTER_OFFSET = 0"
definition NEXT_TAIL_OFFSET :: u64 where "NEXT_TAIL_OFFSET = 8"
definition WRITER_COUNT_OFFSET :: u64 where "WRITER_COUNT_OFFSET = 16"
definition READER_SLOTS_OFFSET :: u64 where "READER_SLOTS_OFFSET = 24"
definition NEXT_WRITER_ID_OFFSET :: u64 where "NEXT_WRITER_ID_OFFSET = 1048"
definition READER_SLOT_COUNTER_OFFSET :: u64 where "READER_SLOT_COUNTER_OFFSET = 1056"
definition BACKPRESSURE_OFFSET :: u64 where "BACKPRESSURE_OFFSET = 1064"
definition SHARED_CAPACITY_OFFSET :: u64 where "SHARED_CAPACITY_OFFSET = 1072"
definition WRITER_SLOTS_OFFSET :: u64 where "WRITER_SLOTS_OFFSET = 1080"
definition WRITER_SLOT_COUNTER_OFFSET :: u64 where "WRITER_SLOT_COUNTER_OFFSET = 2104"
definition DATA_OFFSET :: u64 where "DATA_OFFSET = RING_HEADER_SIZE"
definition MIN_REGION_BYTES :: u64 where "MIN_REGION_BYTES = RING_HEADER_SIZE * 2"
definition MAX_READER_SLOTS :: nat where "MAX_READER_SLOTS = 128"
definition MAX_WRITER_SLOTS :: nat where "MAX_WRITER_SLOTS = 128"

lemmas offset_defs = GENERATION_COUNTER_OFFSET_def NEXT_TAIL_OFFSET_def WRITER_COUNT_OFFSET_def
  READER_SLOTS_OFFSET_def NEXT_WRITER_ID_OFFSET_def READER_SLOT_COUNTER_OFFSET_def
  BACKPRESSURE_OFFSET_def SHARED_CAPACITY_OFFSET_def WRITER_SLOTS_OFFSET_def
  WRITER_SLOT_COUNTER_OFFSET_def DATA_OFFSET_def RING_HEADER_SIZE_def

section \<open>Cursors\<close>

record cursor = cur_position :: u64

definition cursor_advance :: "u64 \<Rightarrow> cursor \<Rightarrow> cursor" where
  "cursor_advance delta c = c\<lparr>cur_position := cur_position c + delta\<rparr>"

definition cursor_readable :: "cursor \<Rightarrow> u64 \<Rightarrow> u64" where
  "cursor_readable c tail = saturating_sub tail (cur_position c)"

definition cursor_writable :: "cursor \<Rightarrow> u64 \<Rightarrow> u64 \<Rightarrow> u64" where
  "cursor_writable c head capacity = saturating_sub capacity (cur_position c - head)"

definition cursor_masked :: "cursor \<Rightarrow> u64 \<Rightarrow> u64" where
  "cursor_masked c msk = cur_position c AND msk"

definition tail_segment_len :: "cursor \<Rightarrow> u64 \<Rightarrow> u64" where
  "tail_segment_len c msk = msk + 1 - cursor_masked c msk"

definition split_wraparound :: "cursor \<Rightarrow> u64 \<Rightarrow> u64 \<Rightarrow> u64 \<times> u64" where
  "split_wraparound c n msk =
    (let tail_seg = min (tail_segment_len c msk) n in (tail_seg, n - tail_seg))"

section \<open>Coordination fields\<close>

definition load_field :: "'s mapping_backend \<Rightarrow> u64 \<Rightarrow> ('s, wire_error, u64) comp" where
  "load_field B offset = map_err wire_of_memory (mb_load B offset)"

definition load_generation :: "'s mapping_backend \<Rightarrow> ('s, wire_error, u64) comp" where
  "load_generation B = load_field B GENERATION_COUNTER_OFFSET"

definition load_next_tail :: "'s mapping_backend \<Rightarrow> ('s, wire_error, u64) comp" where
  "load_next_tail B = load_field B NEXT_TAIL_OFFSET"

definition load_writer_count :: "'s mapping_backend \<Rightarrow> ('s, wire_error, u64) comp" where
  "load_writer_count B = load_field B WRITER_COUNT_OFFSET"

definition load_shared_capacity :: "'s mapping_backend \<Rightarrow> ('s, wire_error, u64) comp" where
  "load_shared_capacity B = load_field B SHARED_CAPACITY_OFFSET"

definition store_shared_capacity :: "'s mapping_backend \<Rightarrow> u64 \<Rightarrow> ('s, wire_error, unit) comp" where
  "store_shared_capacity B capacity =
    map_err wire_of_memory (mb_store B SHARED_CAPACITY_OFFSET capacity)"

definition load_backpressure :: "'s mapping_backend \<Rightarrow> ('s, wire_error, u8) comp" where
  "load_backpressure B = bindR (map_err wire_of_memory (mb_read B BACKPRESSURE_OFFSET 1))
     (\<lambda>bytes. case bytes of [] \<Rightarrow> fail InvalidLayout | x # _ \<Rightarrow> ret x)"

definition store_backpressure :: "'s mapping_backend \<Rightarrow> u8 \<Rightarrow> ('s, wire_error, unit) comp" where
  "store_backpressure B value = map_err wire_of_memory (mb_write B BACKPRESSURE_OFFSET [value])"

definition bump_generation :: "'s mapping_backend \<Rightarrow> ('s, wire_error, u64) comp" where
  "bump_generation B = bindR (map_err wire_of_memory (mb_fetch_add B GENERATION_COUNTER_OFFSET 1))
     (\<lambda>prev. ret (prev + 1))"

definition cas_next_tail :: "'s mapping_backend \<Rightarrow> u64 \<Rightarrow> u64 \<Rightarrow> ('s, wire_error, u64) comp" where
  "cas_next_tail B current new = map_err wire_of_memory (mb_cas B NEXT_TAIL_OFFSET current new)"

definition increment_writer_count :: "'s mapping_backend \<Rightarrow> ('s, wire_error, u64) comp" where
  "increment_writer_count B = map_err wire_of_memory (mb_fetch_add B WRITER_COUNT_OFFSET 1)"

definition decrement_writer_count :: "'s mapping_backend \<Rightarrow> ('s, wire_error, unit) comp" where
  "decrement_writer_count B =
    bindR (map_err wire_of_memory (mb_fetch_add B WRITER_COUNT_OFFSET u64_max)) (\<lambda>_. ret ())"

definition allocate_writer_id :: "'s mapping_backend \<Rightarrow> ('s, wire_error, u32) comp" where
  "allocate_writer_id B = bindR (map_err wire_of_memory (mb_fetch_add B NEXT_WRITER_ID_OFFSET 1))
     (\<lambda>id. if id > 0xFFFFFFFF then fail CapacityExceeded else ret (ucast id))"

definition mask_for_capacity :: "u64 \<Rightarrow> (wire_error, u64) result" where
  "mask_for_capacity capacity =
    (if \<not> is_power_of_two capacity then Err InvalidLayout else Ok (capacity - 1))"

definition round_capacity :: "u64 \<Rightarrow> (wire_error, u64) result" where
  "round_capacity capacity =
    ok_or (map_option (\<lambda>rounded. max rounded 64) (checked_next_power_of_two capacity))
      CapacityExceeded"

section \<open>Slots\<close>

definition encode_position :: "u64 \<Rightarrow> (wire_error, u64) result" where
  "encode_position position = ok_or (checked_add position 1) CapacityExceeded"

definition load_slot :: "'s mapping_backend \<Rightarrow> u64 \<Rightarrow> nat \<Rightarrow> u32 \<Rightarrow> ('s, wire_error, u64) comp" where
  "load_slot B base limit slot =
    (if unat slot \<ge> limit then fail InvalidLayout else load_field B (base + ucast slot * 8))"

definition store_slot :: "'s mapping_backend \<Rightarrow> u64 \<Rightarrow> nat \<Rightarrow> u32 \<Rightarrow> u64 \<Rightarrow> ('s, wire_error, unit) comp" where
  "store_slot B base limit slot value =
    (if unat slot \<ge> limit then fail InvalidLayout
     else map_err wire_of_memory (mb_store B (base + ucast slot * 8) value))"

definition load_reader_slot :: "'s mapping_backend \<Rightarrow> u32 \<Rightarrow> ('s, wire_error, u64) comp" where
  "load_reader_slot B = load_slot B READER_SLOTS_OFFSET MAX_READER_SLOTS"

definition load_writer_slot :: "'s mapping_backend \<Rightarrow> u32 \<Rightarrow> ('s, wire_error, u64) comp" where
  "load_writer_slot B = load_slot B WRITER_SLOTS_OFFSET MAX_WRITER_SLOTS"

definition store_reader_slot :: "'s mapping_backend \<Rightarrow> u32 \<Rightarrow> u64 \<Rightarrow> ('s, wire_error, unit) comp" where
  "store_reader_slot B = store_slot B READER_SLOTS_OFFSET MAX_READER_SLOTS"

definition store_writer_slot :: "'s mapping_backend \<Rightarrow> u32 \<Rightarrow> u64 \<Rightarrow> ('s, wire_error, unit) comp" where
  "store_writer_slot B = store_slot B WRITER_SLOTS_OFFSET MAX_WRITER_SLOTS"

definition release_reader_slot :: "'s mapping_backend \<Rightarrow> u32 \<Rightarrow> ('s, wire_error, unit) comp" where
  "release_reader_slot B slot = store_reader_slot B slot 0"

definition release_writer_slot :: "'s mapping_backend \<Rightarrow> u32 \<Rightarrow> ('s, wire_error, unit) comp" where
  "release_writer_slot B slot = store_writer_slot B slot 0"

definition update_reader_slot :: "'s mapping_backend \<Rightarrow> u32 \<Rightarrow> u64 \<Rightarrow> ('s, wire_error, unit) comp" where
  "update_reader_slot B slot position =
    bindR (lift_result (encode_position position)) (store_reader_slot B slot)"

definition update_writer_slot :: "'s mapping_backend \<Rightarrow> u32 \<Rightarrow> u64 \<Rightarrow> ('s, wire_error, unit) comp" where
  "update_writer_slot B slot position =
    bindR (lift_result (encode_position position)) (store_writer_slot B slot)"

definition allocate_reader_slot :: "'s mapping_backend \<Rightarrow> u64 \<Rightarrow> ('s, wire_error, u32) comp" where
  "allocate_reader_slot B position =
    bindR (map_err wire_of_memory (mb_fetch_add B READER_SLOT_COUNTER_OFFSET 1)) (\<lambda>slot_index.
      if slot_index \<ge> of_nat MAX_READER_SLOTS then fail CapacityExceeded
      else bindR (lift_result (encode_position position)) (\<lambda>encoded.
        bindR (store_reader_slot B (ucast slot_index) encoded) (\<lambda>_. ret (ucast slot_index))))"

definition minimum_slot_position ::
  "'s mapping_backend \<Rightarrow> u64 \<Rightarrow> nat \<Rightarrow> ('s, wire_error, u64 option) comp" where
  "minimum_slot_position B base limit =
    for_each (\<lambda>slot minimum.
      bindR (load_field B (base + of_nat slot * 8)) (\<lambda>encoded.
        if encoded = 0 then ret minimum
        else let position = encoded - 1
          in ret (Some (case minimum of None \<Rightarrow> position | Some current \<Rightarrow> min current position))))
      [0..<limit] None"

definition minimum_reader_position :: "'s mapping_backend \<Rightarrow> ('s, wire_error, u64 option) comp" where
  "minimum_reader_position B = minimum_slot_position B READER_SLOTS_OFFSET MAX_READER_SLOTS"

definition minimum_writer_position :: "'s mapping_backend \<Rightarrow> ('s, wire_error, u64 option) comp" where
  "minimum_writer_position B = minimum_slot_position B WRITER_SLOTS_OFFSET MAX_WRITER_SLOTS"

definition store_zero :: "'s mapping_backend \<Rightarrow> u64 \<Rightarrow> ('s, wire_error, unit) comp" where
  "store_zero B offset = map_err wire_of_memory (mb_store B offset 0)"

definition init_ring :: "'s mapping_backend \<Rightarrow> ('s, wire_error, unit) comp" where
  "init_ring B =
    bindR (store_zero B GENERATION_COUNTER_OFFSET) (\<lambda>_.
    bindR (store_zero B NEXT_TAIL_OFFSET) (\<lambda>_.
    bindR (store_zero B WRITER_COUNT_OFFSET) (\<lambda>_.
    bindR (for_each (\<lambda>i _. store_zero B (READER_SLOTS_OFFSET + of_nat i * 8))
             [0..<MAX_READER_SLOTS] ()) (\<lambda>_.
    bindR (store_zero B NEXT_WRITER_ID_OFFSET) (\<lambda>_.
    bindR (store_zero B READER_SLOT_COUNTER_OFFSET) (\<lambda>_.
    bindR (for_each (\<lambda>i _. store_zero B (WRITER_SLOTS_OFFSET + of_nat i * 8))
             [0..<MAX_WRITER_SLOTS] ()) (\<lambda>_.
    store_zero B WRITER_SLOT_COUNTER_OFFSET)))))))"

section \<open>Reservation\<close>

definition reserve_tail_next ::
  "u64 \<Rightarrow> u64 \<Rightarrow> u64 \<Rightarrow> u64 option \<Rightarrow> u64 option \<Rightarrow> bool \<Rightarrow> bool \<Rightarrow> (wire_error, u64) result" where
  "reserve_tail_next tail n capacity min_reader min_writer protect_readers protect_writers =
    (if n = 0 \<or> n > capacity then Err CapacityExceeded
     else case checked_add tail n of
       None \<Rightarrow> Err CapacityExceeded
     | Some next \<Rightarrow>
         if \<not> next < u64_max then Err CapacityExceeded
         else if protect_readers \<and>
             saturating_sub next (case min_reader of None \<Rightarrow> tail | Some h \<Rightarrow> h) > capacity
           then Err BufferFull
         else if protect_writers \<and>
             saturating_sub next (case min_writer of None \<Rightarrow> tail | Some h \<Rightarrow> h) > capacity
           then Err BufferFull
         else Ok next)"

text \<open>
  One round of the retry loop: the reserved position, or \<^verbatim>\<open>None\<close> when another writer moved the
  tail. The back-off between rounds only spins.
\<close>

definition reserve_attempt ::
  "'s mapping_backend \<Rightarrow> u64 \<Rightarrow> u64 \<Rightarrow> bool \<Rightarrow> bool \<Rightarrow> ('s, wire_error, u64 option) comp" where
  "reserve_attempt B n capacity protect_readers protect_writers =
    bindR (load_next_tail B) (\<lambda>tail.
    bindR (if protect_readers then minimum_reader_position B else ret None) (\<lambda>min_reader.
    bindR (if protect_writers then minimum_writer_position B else ret None) (\<lambda>min_writer.
    bindR (lift_result (reserve_tail_next tail n capacity min_reader min_writer
             protect_readers protect_writers)) (\<lambda>next.
    bindR (cas_next_tail B tail next) (\<lambda>prev.
    ret (if prev = tail then Some tail else None))))))"

partial_function (option) reserve_loop ::
  "'s mapping_backend \<Rightarrow> u64 \<Rightarrow> u64 \<Rightarrow> bool \<Rightarrow> bool \<Rightarrow> 's \<Rightarrow> ((wire_error, u64) result \<times> 's) option"
where
  "reserve_loop B n capacity protect_readers protect_writers s =
    (case reserve_attempt B n capacity protect_readers protect_writers s of
       (Err e, s') \<Rightarrow> Some (Err e, s')
     | (Ok r, s') \<Rightarrow>
         (case r of
            Some tail \<Rightarrow> Some (Ok tail, s')
          | None \<Rightarrow> reserve_loop B n capacity protect_readers protect_writers s'))"

definition reserve_tail ::
  "'s mapping_backend \<Rightarrow> u64 \<Rightarrow> u64 \<Rightarrow> bool \<Rightarrow> bool \<Rightarrow> ('s, wire_error, u64) loop" where
  "reserve_tail B n capacity protect_readers protect_writers =
    (if n = 0 \<or> n > capacity then returns (fail CapacityExceeded)
     else reserve_loop B n capacity protect_readers protect_writers)"

section \<open>Frames\<close>

definition read_at ::
  "'s mapping_backend \<Rightarrow> u64 \<Rightarrow> u64 \<Rightarrow> u64 \<Rightarrow> u64 \<Rightarrow> ('s, wire_error, u8 list) comp" where
  "read_at B pos n msk capacity =
    (if n = 0 then ret []
     else if n > capacity then fail (InvalidFrame
       (''read length '' @ show_u64 n @ '' exceeds capacity '' @ show_u64 capacity))
     else
       let raw_pos = DATA_OFFSET + (pos AND msk); ring_end = DATA_OFFSET + capacity
       in if raw_pos + n \<le> ring_end then map_err wire_of_memory (mb_read B raw_pos n)
          else
            let tail_len = ring_end - raw_pos; head_len = n - tail_len
            in bindR (map_err wire_of_memory (mb_read B raw_pos tail_len)) (\<lambda>tail.
               bindR (map_err wire_of_memory (mb_read B DATA_OFFSET head_len)) (\<lambda>head.
               ret (tail @ head))))"

definition write_at ::
  "'s mapping_backend \<Rightarrow> u64 \<Rightarrow> u8 list \<Rightarrow> u64 \<Rightarrow> u64 \<Rightarrow> ('s, wire_error, unit) comp" where
  "write_at B pos bytes msk capacity =
    (if of_nat (length bytes) > capacity then fail BufferFull
     else
       let raw_start = (pos AND msk) + DATA_OFFSET; ring_end = DATA_OFFSET + capacity;
           tail = unat (min (of_nat (length bytes)) (ring_end - raw_start));
           head = length bytes - tail
       in bindR (if tail > 0
                 then map_err wire_of_memory (mb_write B raw_start (take tail bytes))
                 else ret ()) (\<lambda>_.
          if head > 0
          then map_err wire_of_memory (mb_write B DATA_OFFSET (drop tail bytes))
          else ret ()))"

definition header_error :: "u64 \<Rightarrow> memory_error \<Rightarrow> wire_error" where
  "header_error pos e = (if e = MemCorruptedHeader then TornFrame pos
     else InvalidFrame (show_memory_error e))"

definition read_frame_header ::
  "'s mapping_backend \<Rightarrow> u64 \<Rightarrow> u64 \<Rightarrow> u64 \<Rightarrow> ('s, wire_error, frame_header) comp" where
  "read_frame_header B pos msk capacity =
    bindR (read_at B pos (of_nat encoded_size) msk capacity)
      (\<lambda>bytes. map_err (header_error pos) (lift_result (decode bytes)))"

definition read_frame ::
  "'s mapping_backend \<Rightarrow> u64 \<Rightarrow> u64 \<Rightarrow> u64 \<Rightarrow>
   ('s, wire_error, (frame_header \<times> u8 list) option) comp" where
  "read_frame B pos msk capacity =
    bindR (read_at B pos (of_nat encoded_size) msk capacity) (\<lambda>header_bytes.
    bindR (map_err (header_error pos) (lift_result (decode header_bytes))) (\<lambda>header.
    if \<not> is_ready header then ret None
    else if frame_size header > capacity then fail (InvalidFrame
      (''frame size '' @ show_u64 (frame_size header) @ '' exceeds capacity '' @ show_u64 capacity))
    else case checked_add pos (of_nat encoded_size) of
      None \<Rightarrow> fail (InvalidFrame ''payload position overflow'')
    | Some payload_pos \<Rightarrow>
        bindR (read_at B payload_pos (ucast (fh_len header)) msk capacity)
          (\<lambda>payload. ret (Some (header, payload)))))"

definition write_frame ::
  "'s mapping_backend \<Rightarrow> u8 list \<Rightarrow> u32 \<Rightarrow> u8 \<Rightarrow> u64 \<Rightarrow> u64 \<Rightarrow> bool \<Rightarrow> bool \<Rightarrow>
   ('s, wire_error, unit) loop" where
  "write_frame B payload tg flgs capacity msk protect_readers protect_writers =
    (let fsize = of_nat encoded_size + of_nat (length payload)
     in if fsize > capacity then returns (fail CapacityExceeded)
     else bindL (reserve_tail B fsize capacity protect_readers protect_writers) (\<lambda>pos.
       returns (
         bindR (write_at B pos (encode \<lparr>fh_len = of_nat (length payload), fh_tag = tg,
                  fh_flags = flgs AND NOT flag_ready\<rparr>) msk capacity) (\<lambda>_.
         bindR (lift_result (ok_or (checked_add pos (of_nat encoded_size))
                  (InvalidFrame ''payload position overflow''))) (\<lambda>payload_pos.
         bindR (write_at B payload_pos payload msk capacity) (\<lambda>_.
         bindR (write_at B pos (encode \<lparr>fh_len = of_nat (length payload), fh_tag = tg,
                  fh_flags = flgs OR flag_ready\<rparr>) msk capacity) (\<lambda>_.
         bindR (bump_generation B) (\<lambda>_. ret ()))))))))"

section \<open>Draining\<close>

function resync_frame_boundary_from ::
  "'s mapping_backend \<Rightarrow> u64 \<Rightarrow> u64 \<Rightarrow> u64 \<Rightarrow> u64 \<Rightarrow> ('s, wire_error, u64 option) comp" where
  "resync_frame_boundary_from B end_pos msk capacity pos s =
    (if pos < end_pos
     then (case read_at B pos (of_nat encoded_size) msk capacity s of
             (Err e, s') \<Rightarrow> (Err e, s')
           | (Ok bytes, s') \<Rightarrow>
               (case decode bytes of
                  Ok header \<Rightarrow> if frame_size header \<le> capacity then (Ok (Some pos), s')
                    else resync_frame_boundary_from B end_pos msk capacity (pos + 1) s'
                | Err _ \<Rightarrow> resync_frame_boundary_from B end_pos msk capacity (pos + 1) s'))
     else (Ok None, s))"
  by pat_completeness auto

termination
  by (relation "measure (\<lambda>(B, end_pos, msk, capacity, pos, s). unat end_pos - unat pos)")
     (auto simp: unat_step_less)

definition resync_frame_boundary ::
  "'s mapping_backend \<Rightarrow> u64 \<Rightarrow> u64 \<Rightarrow> u64 \<Rightarrow> u64 \<Rightarrow> ('s, wire_error, u64 option) comp" where
  "resync_frame_boundary B start end_pos msk capacity =
    resync_frame_boundary_from B end_pos msk capacity (start + 1)"

function drain_loop ::
  "'s mapping_backend \<Rightarrow> u64 \<Rightarrow> u64 \<Rightarrow> u64 \<Rightarrow> u64 \<Rightarrow> u8 list list \<Rightarrow>
   ('s, wire_error, u8 list list \<times> u64) comp" where
  "drain_loop B next_tail msk capacity read_pos frames s =
    (if read_pos < next_tail
     then (case read_frame B read_pos msk capacity s of
             (Ok (Some (header, payload)), s') \<Rightarrow>
               (case checked_add read_pos (frame_size header) of
                  None \<Rightarrow> (Err (InvalidFrame ''frame size overflow''), s')
                | Some p \<Rightarrow> drain_loop B next_tail msk capacity p (frames @ [payload]) s')
           | (Ok None, s') \<Rightarrow> (Ok (frames, read_pos), s')
           | (Err (TornFrame _), s') \<Rightarrow>
               (case resync_frame_boundary B read_pos next_tail msk capacity s' of
                  (Err e, s'') \<Rightarrow> (Err e, s'')
                | (Ok None, s'') \<Rightarrow> (Ok (frames, read_pos), s'')
                | (Ok (Some boundary), s'') \<Rightarrow>
                    if boundary > read_pos
                    then drain_loop B next_tail msk capacity boundary frames s''
                    else (Ok (frames, read_pos), s''))
           | (Err e, s') \<Rightarrow> (Err e, s'))
     else (Ok (frames, read_pos), s))"
  by pat_completeness auto

termination
  by (relation "measure (\<lambda>(B, next_tail, msk, capacity, pos, frames, s). unat next_tail - unat pos)")
     (auto simp: checked_add_Some word_less_nat_alt)

declare resync_frame_boundary_from.simps [simp del] drain_loop.simps [simp del]

definition drain_frames ::
  "'s mapping_backend \<Rightarrow> u64 \<Rightarrow> u64 \<Rightarrow> ('s, wire_error, u8 list list \<times> u64) comp" where
  "drain_frames B read_pos capacity =
    bindR (lift_result (mask_for_capacity capacity)) (\<lambda>msk.
    bindR (load_next_tail B) (\<lambda>next_tail.
    drain_loop B next_tail msk capacity
      (if next_tail > read_pos + capacity then next_tail - capacity else read_pos) []))"

section \<open>Readers and writers of a ring\<close>

record ring_reader =
  rr_capacity :: u64
  rr_mask :: u64
  rr_pos :: u64
  rr_slot :: "u32 option"

record ring_writer =
  rw_capacity :: u64
  rw_mask :: u64

definition ring_reader_open ::
  "'s mapping_backend \<Rightarrow> u64 \<Rightarrow> bool \<Rightarrow> ('s, wire_error, ring_reader) comp" where
  "ring_reader_open B capacity allocate_slot =
    bindR (lift_result (mask_for_capacity capacity)) (\<lambda>msk.
    bindR (if allocate_slot then bindR (allocate_reader_slot B 0) (\<lambda>slot. ret (Some slot))
           else ret None) (\<lambda>slot.
    ret \<lparr>rr_capacity = capacity, rr_mask = msk, rr_pos = 0, rr_slot = slot\<rparr>))"

definition ring_reader_read_frame ::
  "'s mapping_backend \<Rightarrow> (ring_reader \<times> 's, wire_error, (frame_header \<times> u8 list) option) comp" where
  "ring_reader_read_frame B =
    bindR get_self (\<lambda>self.
    bindR (on_shared (load_next_tail B)) (\<lambda>tail.
    if rr_pos self \<ge> tail then ret None
    else bindR (on_shared (read_frame B (rr_pos self) (rr_mask self) (rr_capacity self))) (\<lambda>r.
      case r of
        Some (header, payload) \<Rightarrow>
          (case checked_add (rr_pos self) (frame_size header) of
             None \<Rightarrow> fail (InvalidFrame (''reader position overflow: '' @ show_u64 (rr_pos self) @
               '' + '' @ show_u64 (frame_size header)))
           | Some p \<Rightarrow>
               bindR (modify_self (\<lambda>r. r\<lparr>rr_pos := p\<rparr>)) (\<lambda>_.
               bindR (case rr_slot self of
                        Some slot \<Rightarrow> on_shared (update_reader_slot B slot p)
                      | None \<Rightarrow> ret ()) (\<lambda>_.
               ret (Some (header, payload)))))
      | None \<Rightarrow> ret None)))"

definition ring_reader_release :: "'s mapping_backend \<Rightarrow> (ring_reader \<times> 's, wire_error, unit) comp" where
  "ring_reader_release B =
    bindR get_self (\<lambda>self.
      case rr_slot self of
        Some slot \<Rightarrow> bindR (on_shared (release_reader_slot B slot))
          (\<lambda>_. modify_self (\<lambda>r. r\<lparr>rr_slot := None\<rparr>))
      | None \<Rightarrow> ret ())"

definition ring_writer_open :: "u64 \<Rightarrow> (wire_error, ring_writer) result" where
  "ring_writer_open capacity =
    bind_result (mask_for_capacity capacity)
      (\<lambda>msk. Ok \<lparr>rw_capacity = capacity, rw_mask = msk\<rparr>)"

definition ring_writer_reserve ::
  "'s mapping_backend \<Rightarrow> ring_writer \<Rightarrow> u64 \<Rightarrow> bool \<Rightarrow> bool \<Rightarrow> ('s, wire_error, u64) loop" where
  "ring_writer_reserve B w n protect_readers protect_writers =
    reserve_tail B n (rw_capacity w) protect_readers protect_writers"

definition ring_writer_write_frame ::
  "'s mapping_backend \<Rightarrow> ring_writer \<Rightarrow> u8 list \<Rightarrow> u32 \<Rightarrow> u8 \<Rightarrow> ('s, wire_error, unit) loop" where
  "ring_writer_write_frame B w payload tg flgs =
    write_frame B payload tg flgs (rw_capacity w) (rw_mask w) True False"

definition ring_writer_write_frame_with_backpressure ::
  "'s mapping_backend \<Rightarrow> ring_writer \<Rightarrow> u8 list \<Rightarrow> u32 \<Rightarrow> u8 \<Rightarrow> bool \<Rightarrow> bool \<Rightarrow>
   ('s, wire_error, unit) loop" where
  "ring_writer_write_frame_with_backpressure B w payload tg flgs protect_readers protect_writers =
    write_frame B payload tg flgs (rw_capacity w) (rw_mask w) protect_readers protect_writers"

end
