(* ===== verification/Ring_Correct.thy ===== *)
theory Ring_Correct
  imports Ring_Layout
begin

text \<open>
  Correctness of the ring protocol over any mapping backend that meets its contract: bytes are
  read and written circularly, a reservation extends the tail once and within the protected
  window, a written frame is read back and disturbs no other live frame, and a drain returns the
  committed frames in order. The facts are proved once in the locale of the backend contract and
  reach the pointer backend through its interpretation.
\<close>

section \<open>The abstract ring\<close>

text \<open>
  A region holds a ring when the capacity is a power of two and the data area follows the
  coordination header inside the region. The bound of \<open>2 ^ 62\<close> keeps position arithmetic from
  wrapping; a region has at most \<open>2 ^ 32\<close> pages of 64 KiB.
\<close>

definition ring_fits :: "nat \<Rightarrow> u64 \<Rightarrow> bool" where
  "ring_fits extent cap \<longleftrightarrow>
     is_power_of_two cap \<and> cap \<le> 0x4000000000000000 \<and> 4096 + unat cap \<le> extent"

abbreviation ring_data :: "bytemap \<Rightarrow> u64 \<Rightarrow> nat \<Rightarrow> nat \<Rightarrow> u8 list" where
  "ring_data m cap p n \<equiv> ring_bytes 4096 m (unat cap) p n"

definition tail_of :: "bytemap \<Rightarrow> u64" where "tail_of m = u64_at m 8"
definition generation_of :: "bytemap \<Rightarrow> u64" where "generation_of m = u64_at m 0"
definition reader_slots_of :: "bytemap \<Rightarrow> u64 list" where
  "reader_slots_of m = map (\<lambda>i. u64_at m (24 + 8 * i)) [0..<MAX_READER_SLOTS]"
definition writer_slots_of :: "bytemap \<Rightarrow> u64 list" where
  "writer_slots_of m = map (\<lambda>i. u64_at m (1080 + 8 * i)) [0..<MAX_WRITER_SLOTS]"

text \<open>The minimum over the occupied slots; an occupied slot holds its position plus one.\<close>

definition min_step :: "u64 option \<Rightarrow> u64 \<Rightarrow> u64 option" where
  "min_step acc e = (if e = 0 then acc
     else Some (case acc of None \<Rightarrow> e - 1 | Some c \<Rightarrow> min c (e - 1)))"

definition min_active :: "u64 list \<Rightarrow> u64 option" where
  "min_active es = foldl min_step None es"

lemma min_step_simps [simp]:
  "min_step acc 0 = acc"
  "e \<noteq> 0 \<Longrightarrow> min_step None e = Some (e - 1)"
  "e \<noteq> 0 \<Longrightarrow> min_step (Some c) e = Some (min c (e - 1))"
  by (simp_all add: min_step_def)

lemma foldl_min_step_Some:
  "\<exists>m. foldl min_step (Some c) es = Some m \<and> m \<le> c \<and> (\<forall>e\<in>set es. e \<noteq> 0 \<longrightarrow> m \<le> e - 1) \<and>
     (m = c \<or> (\<exists>e\<in>set es. e \<noteq> 0 \<and> m = e - 1))"
proof (induction es arbitrary: c)
  case Nil
  then show ?case by simp
next
  case (Cons e es)
  show ?case
  proof (cases "e = 0")
    case True
    then show ?thesis using Cons [of c] by auto
  next
    case False
    from Cons [of "min c (e - 1)"] obtain m where m:
      "foldl min_step (Some (min c (e - 1))) es = Some m" "m \<le> min c (e - 1)"
      "\<forall>x\<in>set es. x \<noteq> 0 \<longrightarrow> m \<le> x - 1"
      "m = min c (e - 1) \<or> (\<exists>x\<in>set es. x \<noteq> 0 \<and> m = x - 1)" by blast
    moreover have "min c (e - 1) = c \<or> min c (e - 1) = e - 1" by (auto simp: min_def)
    ultimately show ?thesis using False by (intro exI [of _ m]) auto
  qed
qed

lemma min_active_cases:
  "(min_active es = None \<and> (\<forall>e\<in>set es. e = 0)) \<or>
   (\<exists>m. min_active es = Some m \<and> (\<exists>e\<in>set es. e \<noteq> 0 \<and> m = e - 1) \<and>
      (\<forall>e\<in>set es. e \<noteq> 0 \<longrightarrow> m \<le> e - 1))"
  unfolding min_active_def
proof (induction es)
  case Nil
  then show ?case by simp
next
  case (Cons e es)
  show ?case
  proof (cases "e = 0")
    case True
    then show ?thesis using Cons by auto
  next
    case False
    then show ?thesis using foldl_min_step_Some [of "e - 1" es] by fastforce
  qed
qed

lemma min_active_None: "min_active es = None \<Longrightarrow> e \<in> set es \<Longrightarrow> e = 0"
  using min_active_cases [of es] by auto

lemma min_active_Some:
  assumes "min_active es = Some m"
  shows "\<exists>e\<in>set es. e \<noteq> 0 \<and> m = e - 1" "e \<in> set es \<Longrightarrow> e \<noteq> 0 \<Longrightarrow> m \<le> e - 1"
  using min_active_cases [of es] assms by auto

section \<open>Cursors\<close>

lemma split_wraparound_spec:
  assumes "is_power_of_two cap" "split_wraparound c n (cap - 1) = (t, h)" "n \<le> cap"
  shows "unat t + unat h = unat n"
    "unat t = min (unat cap - unat (cur_position c) mod unat cap) (unat n)"
proof -
  let ?m = "cur_position c AND (cap - 1)"
  have m: "unat ?m = unat (cur_position c) mod unat cap"
    using assms(1) by (rule unat_and_capacity_mask)
  then have "unat ?m < unat cap" using is_power_of_two_pos [OF assms(1)] by simp
  then have seg: "unat (cap - ?m) = unat cap - unat (cur_position c) mod unat cap"
    using m by (simp add: unat_sub word_le_nat_alt)
  from assms(2) have t: "t = min (cap - ?m) n" and h: "h = n - t"
    by (auto simp: split_wraparound_def tail_segment_len_def cursor_masked_def Let_def)
  show "unat t = min (unat cap - unat (cur_position c) mod unat cap) (unat n)"
    using seg by (simp add: t min_def word_le_nat_alt)
  have "t \<le> n" by (simp add: t)
  then show "unat t + unat h = unat n"
    by (simp add: h unat_sub word_le_nat_alt)
qed

section \<open>Bytes and fields over a lawful backend\<close>

lemma ring_fits_bounds:
  assumes "ring_fits extent cap" "extent < 2 ^ 64"
  shows "0 < unat cap" "unat (DATA_OFFSET + cap) = 4096 + unat cap"
    "unat (DATA_OFFSET + (pos AND (cap - 1))) = 4096 + unat pos mod unat cap"
    "unat (DATA_OFFSET + cap - (DATA_OFFSET + (pos AND (cap - 1)))) = unat cap - unat pos mod unat cap"
proof -
  from assms have pow: "is_power_of_two cap" and fits: "4096 + unat cap < 2 ^ 64"
    by (auto simp: ring_fits_def)
  show pos: "0 < unat cap" using pow by (rule is_power_of_two_pos)
  have m: "unat (pos AND (cap - 1)) = unat pos mod unat cap"
    using pow by (rule unat_and_capacity_mask)
  have lt: "unat pos mod unat cap < unat cap" using pos by simp
  show a: "unat (DATA_OFFSET + cap) = 4096 + unat cap"
    using fits by (subst unat_add_lt) (simp_all add: offset_defs)
  show b: "unat (DATA_OFFSET + (pos AND (cap - 1))) = 4096 + unat pos mod unat cap"
    using fits lt m by (subst unat_add_lt) (simp_all add: offset_defs)
  show "unat (DATA_OFFSET + cap - (DATA_OFFSET + (pos AND (cap - 1)))) = unat cap - unat pos mod unat cap"
    using a b lt by (subst unat_sub) (simp_all add: word_le_nat_alt)
qed

lemma unat_slot_offset:
  assumes "i < 128" "unat base < 4096"
  shows "unat (base + of_nat i * 8 :: u64) = unat base + 8 * i"
proof -
  have "unat (of_nat i * 8 :: u64) = i * 8"
    using assms(1) unat_of_nat_u64 [of "i * 8"] by simp
  then show ?thesis using assms by (subst unat_add_lt) simp_all
qed

context mapping_access
begin

lemma load_field_ok:
  "good s \<Longrightarrow> unat a + 8 \<le> extent \<Longrightarrow> load_field B a s = (Ok (u64_at (view s) (unat a)), s)"
  by (simp add: load_field_def load_ok)

lemma read_at_ok:
  assumes "good s" "ring_fits extent cap" "n \<le> cap"
  shows "read_at B pos n (cap - 1) cap s = (Ok (ring_data (view s) cap (unat pos) (unat n)), s)"
proof -
  note bounds = ring_fits_bounds [OF assms(2) extent_bound]
  let ?raw = "DATA_OFFSET + (pos AND (cap - 1))" and ?c = "unat cap"
  have fits: "4096 + ?c \<le> extent" using assms(2) by (simp add: ring_fits_def)
  have n: "unat n \<le> ?c" using assms(3) by (simp add: word_le_nat_alt)
  have lt: "unat pos mod ?c < ?c" using bounds(1) by simp
  have raw: "unat ?raw = 4096 + unat pos mod ?c" by (rule bounds(3))
  have small: "?c \<le> 2 ^ 62" using assms(2) by (simp add: ring_fits_def word_le_nat_alt)
  have sum: "unat (?raw + n) = 4096 + unat pos mod ?c + unat n"
    using small n lt raw by (subst unat_add_lt) auto
  show ?thesis
  proof (cases "unat pos mod ?c + unat n \<le> ?c")
    case True
    then have "?raw + n \<le> DATA_OFFSET + cap" using sum bounds(2) by (simp add: word_le_nat_alt)
    moreover have "mb_read B ?raw n s = (Ok (bytes_at (view s) (unat ?raw) (unat n)), s)"
      using True assms(1) fits raw by (intro read_ok) simp_all
    ultimately show ?thesis
      using assms(3) True bounds(1) raw
      by (auto simp: read_at_def Let_def ring_bytes_contiguous not_less)
  next
    case False
    let ?t = "DATA_OFFSET + cap - ?raw"
    have t: "unat ?t = ?c - unat pos mod ?c" by (rule bounds(4))
    then have "?t \<le> n" using False lt by (simp add: word_le_nat_alt)
    then have h: "unat (n - ?t) = unat n - (?c - unat pos mod ?c)"
      using t by (simp add: unat_sub)
    have "mb_read B ?raw ?t s = (Ok (bytes_at (view s) (unat ?raw) (unat ?t)), s)"
      using assms(1) fits raw t lt by (intro read_ok) simp_all
    moreover have "mb_read B DATA_OFFSET (n - ?t) s = (Ok (bytes_at (view s) 4096 (unat (n - ?t))), s)"
      using assms(1) fits h n by (subst read_ok) (simp_all add: offset_defs)
    moreover have "\<not> ?raw + n \<le> DATA_OFFSET + cap"
      using False sum bounds(2) by (simp add: word_le_nat_alt)
    moreover have "n \<noteq> 0" using False lt by auto
    ultimately show ?thesis
      using assms(3) False n bounds(1) raw t h
      by (simp add: read_at_def Let_def ring_bytes_split not_less)
  qed
qed

lemma write_at_ok:
  assumes "good s" "ring_fits extent cap" "length bs \<le> unat cap"
  shows "\<exists>t. write_at B pos bs (cap - 1) cap s = (Ok (), t) \<and> good t \<and>
    view t = ring_upd 4096 (view s) (unat cap) (unat pos) bs"
proof -
  note bounds = ring_fits_bounds [OF assms(2) extent_bound]
  let ?c = "unat cap" and ?p = "unat pos mod unat cap"
  let ?raw = "(pos AND (cap - 1)) + DATA_OFFSET"
  have fits: "4096 + ?c \<le> extent" using assms(2) by (simp add: ring_fits_def)
  have lt: "?p < ?c" using bounds(1) by simp
  have comm: "?raw = DATA_OFFSET + (pos AND (cap - 1))" by (rule add.commute)
  have raw: "unat ?raw = 4096 + ?p" unfolding comm by (rule bounds(3))
  have end_raw: "unat (DATA_OFFSET + cap - ?raw) = ?c - ?p"
    unfolding comm by (rule bounds(4))
  have l: "unat (of_nat (length bs) :: u64) = length bs"
    using assms(3) unat_u64_lt [of cap] by (intro unat_of_nat_u64) linarith
  have le: "\<not> of_nat (length bs) > cap" using l assms(3) by (simp add: word_less_nat_alt)
  have tail: "unat (min (of_nat (length bs)) (DATA_OFFSET + cap - ?raw)) = min (length bs) (?c - ?p)"
    using l end_raw by (simp add: min_def word_le_nat_alt)
  let ?k = "min (length bs) (?c - ?p)"
  have run: "write_at B pos bs (cap - 1) cap s =
    bindR (if ?k > 0 then map_err wire_of_memory (mb_write B ?raw (take ?k bs)) else ret ())
      (\<lambda>_. if length bs - ?k > 0 then map_err wire_of_memory (mb_write B DATA_OFFSET (drop ?k bs))
            else ret ()) s"
    by (simp only: write_at_def Let_def le tail if_False)
  show ?thesis
  proof (cases "?p + length bs \<le> ?c")
    case True
    then have "min (length bs) (?c - ?p) = length bs" by simp
    moreover have "mb_write B ?raw bs s = (Ok (), put (4096 + ?p) bs s)"
      using True assms(1) fits raw by (subst write_ok) simp_all
    moreover have "4096 + ?p + length bs \<le> extent" using True fits by simp
    ultimately show ?thesis
      unfolding run using assms(1) True bounds(1)
      by (cases "bs = []") (simp_all add: good_put view_put ring_upd_contiguous)
  next
    case False
    let ?n = "?c - ?p"
    have n: "min (length bs) ?n = ?n" "0 < ?n" "?n < length bs" using False lt by auto
    have w1: "mb_write B ?raw (take ?n bs) s = (Ok (), put (4096 + ?p) (take ?n bs) s)"
      using assms(1) fits raw n lt by (subst write_ok) simp_all
    let ?u = "put (4096 + ?p) (take ?n bs) s"
    have in1: "4096 + ?p + length (take ?n bs) \<le> extent" using fits n lt by simp
    have u: "good ?u" "view ?u = upd_bytes (view s) (4096 + ?p) (take ?n bs)"
      using assms(1) in1 by (simp_all add: good_put view_put)
    have in2: "4096 + length (drop ?n bs) \<le> extent" using fits assms(3) by simp
    have w2: "mb_write B DATA_OFFSET (drop ?n bs) ?u = (Ok (), put 4096 (drop ?n bs) ?u)"
      using u(1) in2 by (subst write_ok) (simp_all add: offset_defs)
    show ?thesis
      using n w1 w2 u in2 assms(3) False bounds(1)
      by (simp add: run good_put view_put ring_upd_split)
  qed
qed

lemma update_field:
  "good s \<Longrightarrow> a + 8 \<le> extent \<Longrightarrow> good (put a (to_le 8 v) s) \<and>
    view (put a (to_le 8 v) s) = upd_bytes (view s) a (to_le 8 v)"
  by (simp add: good_put view_put)

lemma bump_generation_ok:
  assumes "good s" "8 \<le> extent"
  shows "\<exists>t. bump_generation B s = (Ok (generation_of (view s) + 1), t) \<and> good t \<and>
    view t = upd_bytes (view s) 0 (to_le 8 (generation_of (view s) + 1))"
  using assms
  by (simp add: bump_generation_def fetch_add_ok offset_defs generation_of_def good_put view_put)

lemma minimum_slot_loop:
  assumes "good s" "\<And>i. i \<in> set js \<Longrightarrow> unat (base + of_nat i * 8) = b + 8 * i \<and> b + 8 * i + 8 \<le> extent"
  shows "for_each (\<lambda>slot minimum. bindR (load_field B (base + of_nat slot * 8)) (\<lambda>encoded.
        if encoded = 0 then ret minimum
        else let position = encoded - 1
          in ret (Some (case minimum of None \<Rightarrow> position | Some current \<Rightarrow> min current position))))
      js acc s = (Ok (foldl min_step acc (map (\<lambda>i. u64_at (view s) (b + 8 * i)) js)), s)"
  using assms(2)
proof (induction js arbitrary: acc)
  case Nil
  then show ?case by simp
next
  case (Cons i js)
  then have "load_field B (base + of_nat i * 8) s = (Ok (u64_at (view s) (b + 8 * i)), s)"
    using assms(1) by (simp add: load_field_ok)
  with Cons show ?case by (simp add: min_step_def Let_def)
qed

lemma minimum_reader_position_ok:
  assumes "good s" "4096 \<le> extent"
  shows "minimum_reader_position B s = (Ok (min_active (reader_slots_of (view s))), s)"
  unfolding minimum_reader_position_def minimum_slot_position_def min_active_def reader_slots_of_def
proof (rule minimum_slot_loop [OF assms(1)])
  fix i assume "i \<in> set [0..<MAX_READER_SLOTS]"
  then have "i < 128" by (simp add: MAX_READER_SLOTS_def)
  then show "unat (READER_SLOTS_OFFSET + of_nat i * 8) = 24 + 8 * i \<and> 24 + 8 * i + 8 \<le> extent"
    using assms(2) unat_slot_offset [of i READER_SLOTS_OFFSET] by (simp add: offset_defs)
qed

lemma minimum_writer_position_ok:
  assumes "good s" "4096 \<le> extent"
  shows "minimum_writer_position B s = (Ok (min_active (writer_slots_of (view s))), s)"
  unfolding minimum_writer_position_def minimum_slot_position_def min_active_def writer_slots_of_def
proof (rule minimum_slot_loop [OF assms(1)])
  fix i assume "i \<in> set [0..<MAX_WRITER_SLOTS]"
  then have "i < 128" by (simp add: MAX_WRITER_SLOTS_def)
  then show "unat (WRITER_SLOTS_OFFSET + of_nat i * 8) = 1080 + 8 * i \<and> 1080 + 8 * i + 8 \<le> extent"
    using assms(2) unat_slot_offset [of i WRITER_SLOTS_OFFSET] by (simp add: offset_defs)
qed

end

section \<open>Reservation\<close>

lemma not_less_max_u64: "\<not> x < (u64_max :: u64) \<longleftrightarrow> unat x = 2 ^ 64 - 1"
  using unat_u64_lt [of x]
  by (auto simp: word_less_nat_alt unsigned_minus_1_eq_mask mask_eq_exp_minus_1)

lemma reserve_tail_next_Ok:
  "reserve_tail_next tail n cap mr mw pr pw = Ok next \<longleftrightarrow>
    n \<noteq> 0 \<and> n \<le> cap \<and> unat tail + unat n < 2 ^ 64 - 1 \<and> next = tail + n \<and>
    (pr \<longrightarrow> unat tail + unat n \<le> unat (case mr of None \<Rightarrow> tail | Some h \<Rightarrow> h) + unat cap) \<and>
    (pw \<longrightarrow> unat tail + unat n \<le> unat (case mw of None \<Rightarrow> tail | Some h \<Rightarrow> h) + unat cap)"
  (is "?L = ?R")
proof (cases "unat tail + unat n < 2 ^ 64")
  case False
  then show ?thesis by (auto simp: reserve_tail_next_def checked_add_def)
next
  case True
  then have nxt: "checked_add tail n = Some (tail + n)" "unat (tail + n) = unat tail + unat n"
    by (simp_all add: checked_add_def)
  have sat: "saturating_sub (tail + n) h > cap \<longleftrightarrow> \<not> unat tail + unat n \<le> unat h + unat cap" for h
    using nxt(2) by (auto simp: word_less_nat_alt unat_saturating_sub)
  have "tail + n < u64_max \<longleftrightarrow> unat tail + unat n < 2 ^ 64 - 1"
    using nxt(2) not_less_max_u64 [of "tail + n"] True by auto
  then show ?thesis
    by (auto simp: reserve_tail_next_def nxt(1) sat not_less)
qed

lemma reserve_tail_next_Err:
  "reserve_tail_next tail n cap mr mw pr pw = Err e \<Longrightarrow> e = CapacityExceeded \<or> e = BufferFull"
  by (auto simp: reserve_tail_next_def split: if_splits option.splits)

definition reserve_spec :: "bytemap \<Rightarrow> u64 \<Rightarrow> u64 \<Rightarrow> bool \<Rightarrow> bool \<Rightarrow> (wire_error, u64) result" where
  "reserve_spec m n cap pr pw = reserve_tail_next (tail_of m) n cap
     (if pr then min_active (reader_slots_of m) else None)
     (if pw then min_active (writer_slots_of m) else None) pr pw"

context mapping_laws
begin

lemma reserve_attempt_ok:
  assumes "good s" "4096 \<le> extent"
  shows "reserve_attempt B n cap pr pw s = (case reserve_spec (view s) n cap pr pw of
      Err e \<Rightarrow> (Err e, s)
    | Ok next \<Rightarrow> (Ok (Some (tail_of (view s))), put 8 (to_le 8 next) s))"
proof -
  have tail: "load_next_tail B s = (Ok (tail_of (view s)), s)"
    using assms by (simp add: load_next_tail_def load_field_ok offset_defs tail_of_def)
  have cas: "cas_next_tail B (tail_of (view s)) next s
      = (Ok (tail_of (view s)), put 8 (to_le 8 next) s)" for "next"
    using assms by (simp add: cas_next_tail_def cas_ok offset_defs tail_of_def)
  show ?thesis
    using assms
    by (cases pr; cases pw)
       (simp_all add: reserve_attempt_def reserve_spec_def bindR_def tail cas
          minimum_reader_position_ok minimum_writer_position_ok split: sum.splits)
qed

text \<open>The loop ends in its first round: nothing moves the tail between the load and the exchange.\<close>

lemma reserve_tail_ok:
  assumes "good s" "4096 \<le> extent"
  shows "reserve_tail B n cap pr pw s = Some (case reserve_spec (view s) n cap pr pw of
      Err e \<Rightarrow> (Err e, s)
    | Ok next \<Rightarrow> (Ok (tail_of (view s)), put 8 (to_le 8 next) s))"
proof (cases "n = 0 \<or> n > cap")
  case True
  then show ?thesis by (auto simp: reserve_tail_def reserve_spec_def reserve_tail_next_def)
next
  case False
  then show ?thesis
    using reserve_attempt_ok [OF assms, of n cap pr pw]
    by (auto simp: reserve_tail_def reserve_loop.simps [of B] split: sum.splits)
qed

end

section \<open>Frames\<close>

text \<open>A committed frame lies at a position: its encoded header followed by its payload.\<close>

definition frame_at :: "bytemap \<Rightarrow> u64 \<Rightarrow> nat \<Rightarrow> frame_header \<Rightarrow> u8 list \<Rightarrow> bool" where
  "frame_at m cap p h payload \<longleftrightarrow>
     is_ready h \<and> unat (fh_len h) = length payload \<and> 16 + length payload \<le> unat cap \<and>
     ring_data m cap p 16 = encode h \<and> ring_data m cap (p + 16) (length payload) = payload"

lemma frame_at_shift: "frame_at m cap (p + unat cap) h d \<longleftrightarrow> frame_at m cap p h d"
proof -
  have "p + unat cap + 16 = p + 16 + unat cap" by simp
  then show ?thesis by (simp only: frame_at_def ring_bytes_shift)
qed

text \<open>The effect of one frame write on the region.\<close>

definition written :: "bytemap \<Rightarrow> u64 \<Rightarrow> u64 \<Rightarrow> frame_header \<Rightarrow> frame_header \<Rightarrow> u8 list \<Rightarrow> bytemap" where
  "written m cap n h0 h1 payload =
    (let c = unat cap; p = unat (tail_of m);
         m1 = upd_bytes m 8 (to_le 8 (tail_of m + n));
         m2 = ring_upd 4096 m1 c p (encode h0);
         m3 = ring_upd 4096 m2 c (p + 16) payload;
         m4 = ring_upd 4096 m3 c p (encode h1)
     in upd_bytes m4 0 (to_le 8 (generation_of m + 1)))"

lemma ring_data_fields:
  "a + length bs \<le> 4096 \<Longrightarrow> ring_data (upd_bytes m a bs) cap p n = ring_data m cap p n"
  by (rule ring_bytes_upd_bytes)

lemma written_frame:
  assumes "is_ready h1" "unat (fh_len h1) = length payload" "16 + length payload \<le> unat cap"
  shows "frame_at (written m cap n h0 h1 payload) cap (unat (tail_of m)) h1 payload"
proof -
  have "ring_data (ring_upd 4096 m' (unat cap) p (encode h1)) cap p 16 = encode h1" for m' p
    using ring_bytes_upd_same [of "encode h1" "unat cap" 4096 m' p] assms(3) by simp
  moreover have "ring_data (ring_upd 4096 (ring_upd 4096 m' (unat cap) (p + 16) payload)
      (unat cap) p (encode h1)) cap (p + 16) (length payload) = payload" for m' p
    using assms(3) by (subst ring_bytes_upd_after) (simp_all add: ring_bytes_upd_same)
  ultimately show ?thesis
    using assms by (simp add: frame_at_def written_def Let_def ring_data_fields)
qed

lemma written_keeps:
  assumes "16 + length payload \<le> unat cap" "q + k \<le> unat (tail_of m)"
    "unat (tail_of m) + 16 + length payload \<le> q + unat cap"
  shows "ring_data (written m cap n h0 h1 payload) cap q k = ring_data m cap q k"
  using assms
  by (simp add: written_def Let_def ring_data_fields ring_bytes_upd_before)

lemma written_field:
  assumes "16 \<le> a" "a + 8 \<le> 4096"
  shows "u64_at (written m cap n h0 h1 payload) a = u64_at m a"
  using assms by (simp add: written_def Let_def u64_at_upd_disjoint u64_at_ring_upd)

lemma written_tail: "tail_of (written m cap n h0 h1 payload) = tail_of m + n"
  by (simp add: written_def Let_def tail_of_def u64_at_upd_disjoint u64_at_ring_upd)

lemma written_generation: "generation_of (written m cap n h0 h1 payload) = generation_of m + 1"
  by (simp add: written_def Let_def generation_of_def)

definition frame_bytes_spec ::
  "bytemap \<Rightarrow> u64 \<Rightarrow> u64 \<Rightarrow> (wire_error, (frame_header \<times> u8 list) option) result" where
  "frame_bytes_spec m cap pos =
    (case decode (ring_data m cap (unat pos) 16) of
       Err e \<Rightarrow> Err (header_error pos e)
     | Ok h \<Rightarrow>
         if \<not> is_ready h then Ok None
         else if frame_size h > cap then Err (InvalidFrame
           (''frame size '' @ show_u64 (frame_size h) @ '' exceeds capacity '' @ show_u64 cap))
         else if 2 ^ 64 \<le> unat pos + 16 then Err (InvalidFrame ''payload position overflow'')
         else Ok (Some (h, ring_data m cap (unat pos + 16) (unat (fh_len h)))))"

lemma frame_bytes_spec_frame:
  "frame_at m cap (unat pos) h payload \<Longrightarrow> unat pos + 16 < 2 ^ 64 \<Longrightarrow>
    frame_bytes_spec m cap pos = Ok (Some (h, payload))"
  by (auto simp: frame_at_def frame_bytes_spec_def word_less_nat_alt)

lemma encoded_size_u64 [simp]: "unat (of_nat encoded_size :: u64) = 16"
  by (simp add: encoded_size_def)

context mapping_access
begin

lemma read_header_bytes:
  "good s \<Longrightarrow> ring_fits extent cap \<Longrightarrow> 16 \<le> unat cap \<Longrightarrow>
    read_at B pos (of_nat encoded_size) (cap - 1) cap s
    = (Ok (ring_data (view s) cap (unat pos) 16), s)"
  by (subst read_at_ok) (simp_all add: word_le_nat_alt)

lemma read_frame_spec:
  assumes "good s" "ring_fits extent cap" "16 \<le> unat cap"
  shows "read_frame B pos (cap - 1) cap s = (frame_bytes_spec (view s) cap pos, s)"
proof (cases "decode (ring_data (view s) cap (unat pos) 16)")
  case (Inl e)
  then show ?thesis
    using assms by (simp add: read_frame_def read_header_bytes frame_bytes_spec_def)
next
  case (Inr h)
  have payload: "read_at B q (ucast (fh_len h)) (cap - 1) cap s
      = (Ok (ring_data (view s) cap (unat q) (unat (fh_len h))), s)"
    if "\<not> frame_size h > cap" for q
    using assms that by (subst read_at_ok) (simp_all add: word_le_nat_alt word_less_nat_alt)
  show ?thesis
    using assms Inr
    by (auto simp: read_frame_def read_header_bytes frame_bytes_spec_def checked_add_def payload)
qed

lemma read_frame_at:
  assumes "good s" "ring_fits extent cap" "frame_at (view s) cap (unat pos) h payload"
    "unat pos + 16 < 2 ^ 64"
  shows "read_frame B pos (cap - 1) cap s = (Ok (Some (h, payload)), s)"
  using assms read_frame_spec [of s cap pos] frame_bytes_spec_frame [OF assms(3,4)]
  by (simp add: frame_at_def)

end

context mapping_laws
begin

lemma write_frame_ok:
  assumes "good s" "ring_fits extent cap" "16 + length payload \<le> unat cap"
    and res: "reserve_spec (view s) (16 + of_nat (length payload)) cap pr pw = Ok nxt"
  shows "\<exists>t. write_frame B payload tg fl cap (cap - 1) pr pw s = Some (Ok (), t) \<and> good t \<and>
    view t = written (view s) cap (16 + of_nat (length payload))
      \<lparr>fh_len = of_nat (length payload), fh_tag = tg, fh_flags = fl AND NOT flag_ready\<rparr>
      \<lparr>fh_len = of_nat (length payload), fh_tag = tg, fh_flags = fl OR flag_ready\<rparr> payload"
proof -
  let ?n = "16 + of_nat (length payload) :: u64" and ?p = "tail_of (view s)"
  let ?h0 = "\<lparr>fh_len = of_nat (length payload), fh_tag = tg, fh_flags = fl AND NOT flag_ready\<rparr>"
  let ?h1 = "\<lparr>fh_len = of_nat (length payload), fh_tag = tg, fh_flags = fl OR flag_ready\<rparr>"
  have fits: "4096 + unat cap \<le> extent" using assms(2) by (simp add: ring_fits_def)
  have ln: "unat (of_nat (length payload) :: u64) = length payload"
    using assms(3) unat_u64_lt [of cap] by (intro unat_of_nat_u64) linarith
  have n: "unat ?n = 16 + length payload"
    using assms(3) ln unat_u64_lt [of cap] by (subst unat_add_lt) simp_all
  from res have nxt: "nxt = ?p + ?n" and room: "unat ?p + unat ?n < 2 ^ 64 - 1"
    by (auto simp: reserve_spec_def reserve_tail_next_Ok)
  have le: "\<not> ?n > cap" using n assms(3) by (simp add: word_less_nat_alt)
  define s1 where "s1 = put 8 (to_le 8 (?p + ?n)) s"
  have s1: "good s1" "view s1 = upd_bytes (view s) 8 (to_le 8 (?p + ?n))"
    using assms(1) fits by (simp_all add: s1_def good_put view_put)
  have r: "reserve_tail B ?n cap pr pw s = Some (Ok ?p, s1)"
    using assms(1) fits res by (simp add: reserve_tail_ok nxt s1_def)
  obtain s2 where s2: "write_at B ?p (encode ?h0) (cap - 1) cap s1 = (Ok (), s2)" "good s2"
      "view s2 = ring_upd 4096 (view s1) (unat cap) (unat ?p) (encode ?h0)"
    using write_at_ok [OF s1(1) assms(2), of "encode ?h0" ?p] assms(3) by auto
  have pp: "checked_add ?p (of_nat encoded_size) = Some (?p + 16)" "unat (?p + 16) = unat ?p + 16"
    using room n by (simp_all add: checked_add_def encoded_size_def)
  obtain s3 where s3: "write_at B (?p + 16) payload (cap - 1) cap s2 = (Ok (), s3)" "good s3"
      "view s3 = ring_upd 4096 (view s2) (unat cap) (unat ?p + 16) payload"
    using write_at_ok [OF s2(2) assms(2), of payload "?p + 16"] assms(3) pp(2) by auto
  obtain s4 where s4: "write_at B ?p (encode ?h1) (cap - 1) cap s3 = (Ok (), s4)" "good s4"
      "view s4 = ring_upd 4096 (view s3) (unat cap) (unat ?p) (encode ?h1)"
    using write_at_ok [OF s3(2) assms(2), of "encode ?h1" ?p] assms(3) by auto
  have gen: "generation_of (view s4) = generation_of (view s)"
    by (simp add: s4(3) s3(3) s2(3) s1(2) generation_of_def u64_at_ring_upd u64_at_upd_disjoint)
  obtain s5 where s5: "bump_generation B s4 = (Ok (generation_of (view s4) + 1), s5)" "good s5"
      "view s5 = upd_bytes (view s4) 0 (to_le 8 (generation_of (view s4) + 1))"
    using bump_generation_ok [OF s4(2)] fits by auto
  have v5: "view s5 = upd_bytes (view s4) 0 (to_le 8 (generation_of (view s) + 1))"
    using s5(3) by (simp only: gen)
  have "write_frame B payload tg fl cap (cap - 1) pr pw s = Some (Ok (), s5)"
    using le r s2(1) s3(1) s4(1) s5(1) pp(1)
    by (simp add: write_frame_def Let_def encoded_size_def)
  then show ?thesis
    using s5(2) by (simp add: written_def Let_def v5 s4(3) s3(3) s2(3) s1(2))
qed

end

section \<open>Sequences of frames\<close>

fun frames_at :: "bytemap \<Rightarrow> u64 \<Rightarrow> nat \<Rightarrow> (frame_header \<times> u8 list) list \<Rightarrow> bool" where
  "frames_at m cap p [] = True"
| "frames_at m cap p ((h, d) # fs) \<longleftrightarrow> frame_at m cap p h d \<and> frames_at m cap (p + (16 + length d)) fs"

fun span :: "(frame_header \<times> u8 list) list \<Rightarrow> nat" where
  "span [] = 0"
| "span ((h, d) # fs) = 16 + length d + span fs"

lemma frames_at_append:
  "frames_at m cap p (fs @ gs) \<longleftrightarrow> frames_at m cap p fs \<and> frames_at m cap (p + span fs) gs"
  by (induction m cap p fs rule: frames_at.induct) (simp_all add: add.assoc conj_assoc)

lemma span_append: "span (fs @ gs) = span fs + span gs"
  by (induction fs rule: span.induct) simp_all

lemma frame_at_cong:
  assumes "\<And>q k. p \<le> q \<Longrightarrow> q + k \<le> p + (16 + length d) \<Longrightarrow> ring_data m cap q k = ring_data m' cap q k"
  shows "frame_at m cap p h d \<longleftrightarrow> frame_at m' cap p h d"
  using assms [of p 16] assms [of "p + 16" "length d"] by (auto simp: frame_at_def)

lemma frames_at_cong:
  assumes "\<And>q k. p \<le> q \<Longrightarrow> q + k \<le> p + span fs \<Longrightarrow> ring_data m cap q k = ring_data m' cap q k"
  shows "frames_at m cap p fs \<longleftrightarrow> frames_at m' cap p fs"
  using assms
proof (induction fs arbitrary: p rule: span.induct)
  case 1
  then show ?case by simp
next
  case (2 h d fs)
  have "frame_at m cap p h d \<longleftrightarrow> frame_at m' cap p h d"
    using 2 by (intro frame_at_cong) simp
  moreover have "frames_at m cap (p + (16 + length d)) fs \<longleftrightarrow> frames_at m' cap (p + (16 + length d)) fs"
    using 2 by (intro 2(1)) simp
  ultimately show ?case by simp
qed

lemma frames_at_written:
  assumes "frames_at m cap p fs" "p + span fs = unat (tail_of m)"
    "unat (tail_of m) + (16 + length d) \<le> p + unat cap"
    "is_ready h1" "unat (fh_len h1) = length d"
  shows "frames_at (written m cap n h0 h1 d) cap p (fs @ [(h1, d)])"
proof -
  have small: "16 + length d \<le> unat cap" using assms(2,3) by linarith
  have "frames_at (written m cap n h0 h1 d) cap p fs \<longleftrightarrow> frames_at m cap p fs"
    using assms(2,3) small by (intro frames_at_cong written_keeps) simp_all
  then show ?thesis
    using assms small by (simp add: frames_at_append written_frame)
qed

text \<open>No occupied slot is behind a position, so none of them refuses a write within its window.\<close>

definition slots_from :: "nat \<Rightarrow> u64 list \<Rightarrow> bool" where
  "slots_from p es \<longleftrightarrow> (\<forall>e\<in>set es. e \<noteq> 0 \<longrightarrow> p \<le> unat (e - 1))"

lemma reserve_spec_room:
  assumes "slots_from p (reader_slots_of m)" "slots_from p (writer_slots_of m)"
    "n \<noteq> 0" "unat (tail_of m) + unat n \<le> p + unat cap" "p \<le> unat (tail_of m)"
    "unat (tail_of m) + unat n < 2 ^ 64 - 1"
  shows "reserve_spec m n cap pr pw = Ok (tail_of m + n)"
proof -
  have head: "p \<le> unat (case min_active es of None \<Rightarrow> tail_of m | Some h \<Rightarrow> h)"
    if "slots_from p es" for es
    using that assms(5) min_active_Some(1) [of es]
    by (fastforce simp: slots_from_def split: option.splits)
  have "n \<le> cap" using assms(4,5) by (simp add: word_le_nat_alt)
  moreover have "unat (tail_of m) + unat n \<le> unat (case (if b then min_active es else None) of
      None \<Rightarrow> tail_of m | Some h \<Rightarrow> h) + unat cap" if "b" "slots_from p es" for b es
    using head [OF that(2)] assms(4) that(1) by simp
  ultimately show ?thesis
    using assms unfolding reserve_spec_def reserve_tail_next_Ok by blast
qed

lemma written_slots:
  "reader_slots_of (written m cap n h0 h1 d) = reader_slots_of m"
  "writer_slots_of (written m cap n h0 h1 d) = writer_slots_of m"
  by (auto simp: reader_slots_of_def writer_slots_of_def written_field MAX_READER_SLOTS_def
      MAX_WRITER_SLOTS_def)

end
