(* ===== verification/Ring_Delivery.thy ===== *)
theory Ring_Delivery
  imports Ring_Correct
begin

text \<open>
  End-to-end behaviour of a ring: frames written one after the other are drained in order and
  exactly once, a reader follows them one by one, a reader's slot keeps writers out of what it has
  not read, and slots are handed out once each.
\<close>

section \<open>Writing and draining\<close>

fun write_all ::
  "'s mapping_backend \<Rightarrow> u64 \<Rightarrow> u32 \<Rightarrow> u8 \<Rightarrow> bool \<Rightarrow> bool \<Rightarrow> u8 list list \<Rightarrow> ('s, wire_error, unit) loop" where
  "write_all B cap tg fl pr pw [] = returns (ret ())"
| "write_all B cap tg fl pr pw (d # ds) =
    bindL (write_frame B d tg fl cap (cap - 1) pr pw) (\<lambda>_. write_all B cap tg fl pr pw ds)"

definition ready_header :: "u32 \<Rightarrow> u8 \<Rightarrow> u8 list \<Rightarrow> frame_header" where
  "ready_header tg fl d = \<lparr>fh_len = of_nat (length d), fh_tag = tg, fh_flags = fl OR flag_ready\<rparr>"

definition framed :: "u32 \<Rightarrow> u8 \<Rightarrow> u8 list \<Rightarrow> frame_header \<times> u8 list" where
  "framed tg fl d = (ready_header tg fl d, d)"

lemma ready_header_ready [simp]: "is_ready (ready_header tg fl d)"
  by (simp add: ready_header_def ready_or)

lemma ready_header_len [simp]: "length d < 2 ^ 32 \<Longrightarrow> unat (fh_len (ready_header tg fl d)) = length d"
  by (simp add: ready_header_def unat_of_nat_u32 del: unsigned_of_nat)

lemma span_framed1 [simp]: "span [framed tg fl d] = 16 + length d"
  by (simp add: framed_def)

lemma span_framed [simp]: "span (map (framed tg fl) ds) = (\<Sum>d\<leftarrow>ds. 16 + length d)"
  by (induction ds) (simp_all add: framed_def)

text \<open>
  A stretch of the ring: committed frames from a position up to the tail, within one lap, and no
  slot behind the position.
\<close>

definition stretch :: "bytemap \<Rightarrow> u64 \<Rightarrow> nat \<Rightarrow> (frame_header \<times> u8 list) list \<Rightarrow> bool" where
  "stretch m cap p fs \<longleftrightarrow> frames_at m cap p fs \<and> p + span fs = unat (tail_of m) \<and>
     slots_from p (reader_slots_of m) \<and> slots_from p (writer_slots_of m)"

context mapping_laws
begin

lemma write_frame_stretch:
  assumes "good s" "ring_fits extent cap" "stretch (view s) cap p fs"
    "span fs + (16 + length d) \<le> unat cap" "length d < 2 ^ 32"
    "p + span fs + (16 + length d) < 2 ^ 64 - 1"
  shows "\<exists>t. write_frame B d tg fl cap (cap - 1) pr pw s = Some (Ok (), t) \<and> good t \<and>
    stretch (view t) cap p (fs @ [framed tg fl d]) \<and>
    generation_of (view t) = generation_of (view s) + 1"
proof -
  let ?n = "16 + of_nat (length d) :: u64"
  have n: "unat ?n = 16 + length d"
    using assms(5) by (subst unat_add_lt) (simp_all add: unat_of_nat_u64)
  from assms(3) have st: "frames_at (view s) cap p fs" "p + span fs = unat (tail_of (view s))"
      "slots_from p (reader_slots_of (view s))" "slots_from p (writer_slots_of (view s))"
    by (auto simp: stretch_def)
  have "?n \<noteq> 0" using n by (metis add_is_0 unsigned_0 zero_neq_numeral)
  then have res: "reserve_spec (view s) ?n cap pr pw = Ok (tail_of (view s) + ?n)"
    using st n assms(4,6) by (intro reserve_spec_room [of p]) simp_all
  have "16 + length d \<le> unat cap" using assms(4) by linarith
  from write_frame_ok [OF assms(1,2) this res, of tg fl] obtain t where t: "write_frame B d tg fl cap (cap - 1) pr pw s = Some (Ok (), t)" "good t"
    "view t = written (view s) cap ?n
      \<lparr>fh_len = of_nat (length d), fh_tag = tg, fh_flags = fl AND NOT flag_ready\<rparr>
      (ready_header tg fl d) d"
    unfolding ready_header_def by blast
  have "frames_at (view t) cap p (fs @ [(ready_header tg fl d, d)])"
    unfolding t(3) using st assms(4,5) by (intro frames_at_written) simp_all
  moreover have "unat (tail_of (view t)) = unat (tail_of (view s)) + (16 + length d)"
    using n st(2) assms(6) by (simp add: t(3) written_tail)
  ultimately have "stretch (view t) cap p (fs @ [framed tg fl d])"
    using st by (simp add: stretch_def framed_def span_append t(3) written_slots)
  then show ?thesis using t by (auto simp: written_generation)
qed

lemma write_all_stretch:
  assumes "good s" "ring_fits extent cap" "stretch (view s) cap p fs"
    "span fs + (\<Sum>d\<leftarrow>ds. 16 + length d) \<le> unat cap" "\<forall>d\<in>set ds. length d < 2 ^ 32"
    "p + span fs + (\<Sum>d\<leftarrow>ds. 16 + length d) < 2 ^ 64 - 1"
  shows "\<exists>t. write_all B cap tg fl pr pw ds s = Some (Ok (), t) \<and> good t \<and>
    stretch (view t) cap p (fs @ map (framed tg fl) ds)"
  using assms
proof (induction ds arbitrary: s fs)
  case Nil
  then show ?case by simp
next
  case (Cons d ds)
  obtain t where t: "write_frame B d tg fl cap (cap - 1) pr pw s = Some (Ok (), t)" "good t"
      "stretch (view t) cap p (fs @ [framed tg fl d])"
    using write_frame_stretch [of s cap p fs d tg fl pr pw] Cons.prems by auto
  from Cons.IH [OF t(2) Cons.prems(2) t(3)] Cons.prems obtain u where
    "write_all B cap tg fl pr pw ds t = Some (Ok (), u)" "good u"
    "stretch (view u) cap p ((fs @ [framed tg fl d]) @ map (framed tg fl) ds)"
    by (auto simp: span_append)
  then show ?case using t by auto
qed

end

context mapping_access
begin

lemma drain_loop_frames:
  assumes "good s" "ring_fits extent cap" "frames_at (view s) cap (unat pos) fs"
    "unat pos + span fs = unat tail"
  shows "drain_loop B tail (cap - 1) cap pos acc s = (Ok (acc @ map snd fs, tail), s)"
  using assms(3,4)
proof (induction fs arbitrary: pos acc)
  case Nil
  then have "pos = tail" by (simp add: word_unat_eq_iff)
  then show ?case by (simp add: drain_loop.simps)
next
  case (Cons f fs)
  obtain h d where f: "f = (h, d)" by fastforce
  from Cons.prems have fr: "frame_at (view s) cap (unat pos) h d"
    and sum: "unat pos + (16 + length d) + span fs = unat tail" by (simp_all add: f)
  have hd: "unat (frame_size h) = 16 + length d" using fr by (simp add: frame_at_def)
  have "unat pos + 16 < 2 ^ 64" using sum unat_u64_lt [of tail] by linarith
  then have rd: "read_frame B pos (cap - 1) cap s = (Ok (Some (h, d)), s)"
    using read_frame_at [OF assms(1,2) fr] by simp
  have lt: "unat pos + unat (frame_size h) < 2 ^ 64" using hd sum unat_u64_lt [of tail] by linarith
  then have add: "checked_add pos (frame_size h) = Some (pos + frame_size h)"
    "unat (pos + frame_size h) = unat pos + (16 + length d)" using hd by (simp_all add: checked_add_def)
  have "drain_loop B tail (cap - 1) cap (pos + frame_size h) (acc @ [d]) s
      = (Ok ((acc @ [d]) @ map snd fs, tail), s)"
    using Cons.prems sum by (intro Cons.IH) (simp_all add: f add(2))
  moreover have "pos < tail" using sum by (simp add: word_less_nat_alt)
  ultimately show ?case by (subst drain_loop.simps) (simp add: rd add(1) f)
qed

lemma drain_frames_stretch:
  assumes "good s" "ring_fits extent cap" "stretch (view s) cap (unat pos) fs"
    "span fs \<le> unat cap" "unat pos + unat cap < 2 ^ 64"
  shows "drain_frames B pos cap s = (Ok (map snd fs, tail_of (view s)), s)"
proof -
  have pow: "mask_for_capacity cap = Ok (cap - 1)" and fits: "4096 \<le> extent"
    using assms(2) by (auto simp: ring_fits_def mask_for_capacity_def)
  have tail: "load_next_tail B s = (Ok (tail_of (view s)), s)"
    using assms(1) fits by (simp add: load_next_tail_def load_field_ok offset_defs tail_of_def)
  have "\<not> tail_of (view s) > pos + cap"
    using assms(3,4,5) by (simp add: word_less_nat_alt stretch_def)
  moreover have "drain_loop B (tail_of (view s)) (cap - 1) cap pos [] s
      = (Ok (map snd fs, tail_of (view s)), s)"
    using drain_loop_frames [OF assms(1,2), of pos fs "tail_of (view s)" "[]"] assms(3)
    by (simp add: stretch_def)
  ultimately show ?thesis using pow tail by (simp add: drain_frames_def)
qed

lemma drain_frames_at_tail:
  assumes "good s" "ring_fits extent cap" "unat (tail_of (view s)) + unat cap < 2 ^ 64"
  shows "drain_frames B (tail_of (view s)) cap s = (Ok ([], tail_of (view s)), s)"
proof -
  have pow: "mask_for_capacity cap = Ok (cap - 1)" and fits: "4096 \<le> extent"
    using assms(2) by (auto simp: ring_fits_def mask_for_capacity_def)
  have tail: "load_next_tail B s = (Ok (tail_of (view s)), s)"
    using assms(1) fits by (simp add: load_next_tail_def load_field_ok offset_defs tail_of_def)
  have "\<not> tail_of (view s) > tail_of (view s) + cap"
    using assms(3) by (simp add: word_less_nat_alt)
  then show ?thesis using pow tail by (simp add: drain_frames_def drain_loop.simps)
qed

end

section \<open>Initialisation\<close>

definition fields_zeroed :: "nat set \<Rightarrow> bytemap \<Rightarrow> bytemap \<Rightarrow> bool" where
  "fields_zeroed A m m' \<longleftrightarrow> (\<forall>a. 8 dvd a \<longrightarrow> u64_at m' a = (if a \<in> A then 0 else u64_at m a))"

lemma fields_zeroed_trans:
  "fields_zeroed A m m' \<Longrightarrow> fields_zeroed A' m' m'' \<Longrightarrow> fields_zeroed (A \<union> A') m m''"
  by (simp add: fields_zeroed_def)

lemma aligned_disjoint:
  fixes a b :: nat
  assumes "8 dvd a" "8 dvd b" "a \<noteq> b"
  shows "a + 8 \<le> b \<or> b + 8 \<le> a"
proof -
  obtain i j where "a = 8 * i" "b = 8 * j" using assms by (auto elim!: dvdE)
  then show ?thesis using assms(3) by (cases "i < j") auto
qed

lemma u64_at_upd_aligned:
  "8 dvd a \<Longrightarrow> 8 dvd b \<Longrightarrow>
    u64_at (upd_bytes m b (to_le 8 v)) a = (if a = b then v else u64_at m a)"
  using aligned_disjoint [of a b] by (auto simp: u64_at_upd_disjoint)

text \<open>A computation that zeroes a set of fields and keeps every other one.\<close>

definition zeroes :: "('s \<Rightarrow> bytemap) \<Rightarrow> ('s \<Rightarrow> bool) \<Rightarrow> ('s, 'e, unit) comp \<Rightarrow> nat set \<Rightarrow> bool" where
  "zeroes view good c A \<longleftrightarrow>
    (\<forall>s. good s \<longrightarrow> (\<exists>t. c s = (Ok (), t) \<and> good t \<and> fields_zeroed A (view s) (view t)))"

lemma zeroes_bind:
  assumes "zeroes view good c A" "zeroes view good d A'"
  shows "zeroes view good (bindR c (\<lambda>_. d)) (A \<union> A')"
  unfolding zeroes_def
proof (intro allI impI)
  fix s assume "good s"
  with assms(1) obtain t where t: "c s = (Ok (), t)" "good t" "fields_zeroed A (view s) (view t)"
    by (auto simp: zeroes_def)
  with assms(2) obtain u where "d t = (Ok (), u)" "good u" "fields_zeroed A' (view t) (view u)"
    by (auto simp: zeroes_def)
  with t show "\<exists>t. bindR c (\<lambda>_. d) s = (Ok (), t) \<and> good t \<and> fields_zeroed (A \<union> A') (view s) (view t)"
    by (auto dest: fields_zeroed_trans)
qed

lemma zeroes_for_each:
  assumes "\<And>i. i \<in> set js \<Longrightarrow> zeroes view good (c i) {f i}"
  shows "zeroes view good (for_each (\<lambda>i _. c i) js ()) (f ` set js)"
  using assms
proof (induction js)
  case Nil
  then show ?case by (simp add: zeroes_def fields_zeroed_def)
next
  case (Cons i js)
  then have "zeroes view good (bindR (c i) (\<lambda>_. for_each (\<lambda>i _. c i) js ())) ({f i} \<union> f ` set js)"
    by (intro zeroes_bind) simp_all
  then show ?case by simp
qed

definition header_fields :: "nat set" where
  "header_fields = {0} \<union> ({8} \<union> ({16} \<union> ((\<lambda>i. 24 + 8 * i) ` set [0..<MAX_READER_SLOTS] \<union> ({1048} \<union>
    ({1056} \<union> ((\<lambda>i. 1080 + 8 * i) ` set [0..<MAX_WRITER_SLOTS] \<union> {2104}))))))"

context mapping_access
begin

lemma store_zero_zeroes:
  assumes "8 dvd unat a" "unat a + 8 \<le> extent"
  shows "zeroes view good (store_zero B a) {unat a}"
  using assms
  by (simp add: zeroes_def store_zero_def store_ok good_put view_put fields_zeroed_def
      u64_at_upd_aligned)

lemma store_zero_slot:
  assumes "4096 \<le> extent" "i < 128" "8 dvd unat base" "unat base < 2000"
  shows "zeroes view good (store_zero B (base + of_nat i * 8)) {unat base + 8 * i}"
proof -
  have "unat (base + of_nat i * 8) = unat base + 8 * i"
    using assms by (intro unat_slot_offset) simp_all
  then show ?thesis
    using store_zero_zeroes [of "base + of_nat i * 8"] assms by simp
qed

lemma init_ring_zeroes:
  assumes "4096 \<le> extent"
  shows "zeroes view good (init_ring B) header_fields"
proof -
  have z: "zeroes view good (store_zero B a) {n}" if "unat a = n" "n \<in> {0, 8, 16, 1048, 1056, 2104}" for a n
    using store_zero_zeroes [of a] that assms by auto
  have r: "zeroes view good (for_each (\<lambda>i _. store_zero B (READER_SLOTS_OFFSET + of_nat i * 8))
      [0..<MAX_READER_SLOTS] ()) ((\<lambda>i. 24 + 8 * i) ` set [0..<MAX_READER_SLOTS])"
    using store_zero_slot [of _ READER_SLOTS_OFFSET] assms
    by (intro zeroes_for_each) (simp add: offset_defs MAX_READER_SLOTS_def)
  have w: "zeroes view good (for_each (\<lambda>i _. store_zero B (WRITER_SLOTS_OFFSET + of_nat i * 8))
      [0..<MAX_WRITER_SLOTS] ()) ((\<lambda>i. 1080 + 8 * i) ` set [0..<MAX_WRITER_SLOTS])"
    using store_zero_slot [of _ WRITER_SLOTS_OFFSET] assms
    by (intro zeroes_for_each) (simp add: offset_defs MAX_WRITER_SLOTS_def)
  show ?thesis
    unfolding init_ring_def header_fields_def
    by (intro zeroes_bind r w z) (simp_all add: offset_defs)
qed

end

lemma fields_zeroed_ring:
  assumes "fields_zeroed header_fields m m'"
  shows "tail_of m' = 0" "generation_of m' = 0"
    "reader_slots_of m' = replicate MAX_READER_SLOTS 0"
    "writer_slots_of m' = replicate MAX_WRITER_SLOTS 0"
    "u64_at m' 16 = 0" "u64_at m' 1056 = 0" "u64_at m' 2104 = 0"
proof -
  have zero: "u64_at m' a = 0" if "8 dvd a" "a \<in> header_fields" for a
    using assms that by (simp add: fields_zeroed_def)
  show "tail_of m' = 0" "generation_of m' = 0" "u64_at m' 16 = 0" "u64_at m' 1056 = 0" "u64_at m' 2104 = 0"
    by (simp_all add: tail_of_def generation_of_def zero header_fields_def)
  show "reader_slots_of m' = replicate MAX_READER_SLOTS 0"
    by (rule replicate_eqI) (auto simp: reader_slots_of_def zero header_fields_def)
  show "writer_slots_of m' = replicate MAX_WRITER_SLOTS 0"
    by (rule replicate_eqI) (auto simp: writer_slots_of_def zero header_fields_def)
qed

lemma fields_zeroed_stretch:
  "fields_zeroed header_fields m m' \<Longrightarrow> stretch m' cap 0 []"
  by (simp add: stretch_def slots_from_def fields_zeroed_ring)

section \<open>Slots\<close>

context mapping_access
begin

lemma store_reader_slot_ok:
  assumes "good s" "4096 \<le> extent" "unat slot < 128"
  shows "\<exists>t. store_reader_slot B slot v s = (Ok (), t) \<and> good t \<and>
    view t = upd_bytes (view s) (24 + 8 * unat slot) (to_le 8 v)"
proof -
  have "unat (READER_SLOTS_OFFSET + ucast slot * 8) = 24 + 8 * unat slot"
    using unat_slot_offset [of "unat slot" READER_SLOTS_OFFSET] assms(3)
    by (simp add: offset_defs)
  then show ?thesis
    using assms
    by (simp add: store_reader_slot_def store_slot_def MAX_READER_SLOTS_def store_ok good_put view_put)
qed

lemma allocate_reader_slot_ok:
  assumes "good s" "4096 \<le> extent" "u64_at (view s) 1056 < 128" "pos \<noteq> u64_max"
  shows "\<exists>t. allocate_reader_slot B pos s = (Ok (ucast (u64_at (view s) 1056)), t) \<and> good t \<and>
    u64_at (view t) 1056 = u64_at (view s) 1056 + 1 \<and>
    reader_slots_of (view t) = (reader_slots_of (view s))[unat (u64_at (view s) 1056) := pos + 1]"
proof -
  let ?k = "u64_at (view s) 1056"
  have k: "unat ?k < 128" using assms(3) by (simp add: word_less_nat_alt)
  then have slot: "unat (ucast ?k :: u32) = unat ?k"
    by (simp add: unsigned_ucast_eq take_bit_nat_eq_self)
  define s1 where "s1 = put 1056 (to_le 8 (?k + 1)) s"
  have s1: "good s1" "view s1 = upd_bytes (view s) 1056 (to_le 8 (?k + 1))"
    using assms(1,2) by (simp_all add: s1_def good_put view_put)
  obtain t where t: "store_reader_slot B (ucast ?k) (pos + 1) s1 = (Ok (), t)" "good t"
      "view t = upd_bytes (view s1) (24 + 8 * unat ?k) (to_le 8 (pos + 1))"
    using store_reader_slot_ok [OF s1(1) assms(2), of "ucast ?k" "pos + 1"] k slot by auto
  have "unat pos < 2 ^ 64 - 1" using assms(4) by (rule unat_lt_u64_max)
  then have enc: "encode_position pos = Ok (pos + 1)"
    by (simp add: encode_position_def checked_add_def)
  have fa: "mb_fetch_add B READER_SLOT_COUNTER_OFFSET 1 s = (Ok ?k, s1)"
    using assms(1,2) by (simp add: fetch_add_ok offset_defs s1_def)
  have run: "allocate_reader_slot B pos s = (Ok (ucast ?k), t)"
    using fa assms(3) enc t(1)
    by (simp add: allocate_reader_slot_def MAX_READER_SLOTS_def not_le [symmetric])
  have "reader_slots_of (view t) = (reader_slots_of (view s))[unat ?k := pos + 1]"
    using k
    by (intro nth_equalityI)
       (auto simp: reader_slots_of_def t(3) s1(2) nth_list_update u64_at_upd_aligned MAX_READER_SLOTS_def
         simp del: upt_rec_numeral)
  moreover have "u64_at (view t) 1056 = ?k + 1"
    using k by (simp add: t(3) s1(2) u64_at_upd_aligned)
  ultimately show ?thesis using run t(2) by blast
qed

lemma allocate_reader_slot_exhausted:
  assumes "good s" "4096 \<le> extent" "128 \<le> u64_at (view s) 1056"
  shows "\<exists>t. allocate_reader_slot B pos s = (Err CapacityExceeded, t) \<and> good t \<and>
    reader_slots_of (view t) = reader_slots_of (view s)"
  using assms
  by (auto simp: allocate_reader_slot_def fetch_add_ok offset_defs MAX_READER_SLOTS_def good_put
      view_put reader_slots_of_def u64_at_upd_aligned simp del: upt_rec_numeral)

end

section \<open>Protection of readers\<close>

lemma unat_frame_bytes:
  "length d < 2 ^ 63 \<Longrightarrow> unat (16 + of_nat (length d) :: u64) = 16 + length d"
  by (subst unat_add_lt) (simp_all add: unat_of_nat_u64)

context mapping_laws
begin

text \<open>A frame write either succeeds with the full effect or leaves the region alone.\<close>

lemma write_frame_cases:
  assumes "good s" "ring_fits extent cap" "length d < 2 ^ 63"
  shows "(\<exists>t nxt. write_frame B d tg fl cap (cap - 1) pr pw s = Some (Ok (), t) \<and> good t \<and>
      16 + length d \<le> unat cap \<and>
      reserve_spec (view s) (16 + of_nat (length d)) cap pr pw = Ok nxt \<and>
      view t = written (view s) cap (16 + of_nat (length d))
        \<lparr>fh_len = of_nat (length d), fh_tag = tg, fh_flags = fl AND NOT flag_ready\<rparr>
        (ready_header tg fl d) d) \<or>
    (\<exists>e. write_frame B d tg fl cap (cap - 1) pr pw s = Some (Err e, s) \<and>
      (e = CapacityExceeded \<or> e = BufferFull))"
proof (cases "16 + length d \<le> unat cap")
  case False
  then have "(16 + of_nat (length d) :: u64) > cap"
    using unat_frame_bytes [OF assms(3)] by (simp add: word_less_nat_alt)
  then show ?thesis by (simp add: write_frame_def Let_def encoded_size_def)
next
  case True
  then have le: "\<not> (16 + of_nat (length d) :: u64) > cap"
    using unat_frame_bytes [OF assms(3)] by (simp add: word_less_nat_alt)
  show ?thesis
  proof (cases "reserve_spec (view s) (16 + of_nat (length d)) cap pr pw")
    case (Inl e)
    then have "e = CapacityExceeded \<or> e = BufferFull"
      unfolding reserve_spec_def by (rule reserve_tail_next_Err)
    moreover have "4096 \<le> extent" using assms(2) by (simp add: ring_fits_def)
    then have "reserve_tail B (16 + of_nat (length d)) cap pr pw s = Some (Err e, s)"
      using assms(1) Inl by (simp add: reserve_tail_ok)
    ultimately show ?thesis using le by (simp add: write_frame_def Let_def encoded_size_def)
  next
    case (Inr nxt)
    from write_frame_ok [OF assms(1,2) True this, of tg fl] show ?thesis
      using True Inr unfolding ready_header_def by blast
  qed
qed

lemma write_frame_protects:
  assumes "good s" "ring_fits extent cap" "length d < 2 ^ 63"
    "write_frame B d tg fl cap (cap - 1) True pw s = Some (r, t)"
    "e \<in> set (reader_slots_of (view s))" "e \<noteq> 0"
    "unat (e - 1) \<le> q" "q + k \<le> unat (tail_of (view s))"
  shows "ring_data (view t) cap q k = ring_data (view s) cap q k"
proof -
  have keep: ?thesis if res: "reserve_spec (view s) (16 + of_nat (length d)) cap True pw = Ok nxt"
      and t: "view t = written (view s) cap (16 + of_nat (length d)) h0 (ready_header tg fl d) d"
      and small: "16 + length d \<le> unat cap" for nxt h0
  proof -
    obtain m where m: "min_active (reader_slots_of (view s)) = Some m" "m \<le> e - 1"
      using min_active_cases [of "reader_slots_of (view s)"] assms(5,6) by auto
    have "unat (tail_of (view s)) + (16 + length d) \<le> unat m + unat cap"
      using res unat_frame_bytes [OF assms(3)]
      by (simp add: reserve_spec_def reserve_tail_next_Ok m(1))
    moreover have "unat m \<le> q" using m(2) assms(7) by (simp add: word_le_nat_alt)
    ultimately show ?thesis
      unfolding t using small assms(8) by (intro written_keeps) simp_all
  qed
  show ?thesis
    using write_frame_cases [OF assms(1-3), of tg fl True pw] assms(4) keep by auto
qed

end

section \<open>Readers\<close>

context mapping_access
begin

lemma ring_reader_next:
  assumes "good s" "ring_fits extent cap" "frame_at (view s) cap (unat (rr_pos r)) h d"
    "unat (rr_pos r) + 16 + length d \<le> unat (tail_of (view s))"
    "rr_mask r = cap - 1" "rr_capacity r = cap" "rr_slot r = None"
  shows "ring_reader_read_frame B (r, s)
    = (Ok (Some (h, d)), (r\<lparr>rr_pos := rr_pos r + frame_size h\<rparr>, s))"
proof -
  have fits: "4096 \<le> extent" using assms(2) by (simp add: ring_fits_def)
  have tail: "load_next_tail B s = (Ok (tail_of (view s)), s)"
    using assms(1) fits by (simp add: load_next_tail_def load_field_ok offset_defs tail_of_def)
  have sz: "unat (frame_size h) = 16 + length d" using assms(3) by (simp add: frame_at_def)
  have lt: "unat (rr_pos r) + unat (frame_size h) < 2 ^ 64"
    using assms(4) sz unat_u64_lt [of "tail_of (view s)"] by linarith
  have rd: "read_frame B (rr_pos r) (cap - 1) cap s = (Ok (Some (h, d)), s)"
    using lt sz by (intro read_frame_at [OF assms(1-3)]) linarith
  have "\<not> rr_pos r \<ge> tail_of (view s)" using assms(4) by (simp add: word_le_nat_alt)
  moreover have "checked_add (rr_pos r) (frame_size h) = Some (rr_pos r + frame_size h)"
    using lt by (simp add: checked_add_def)
  ultimately show ?thesis
    using assms(5-7) tail rd by (simp add: ring_reader_read_frame_def)
qed

lemma ring_reader_next_slot:
  assumes "good s" "ring_fits extent cap" "frame_at (view s) cap (unat (rr_pos r)) h d"
    "unat (rr_pos r) + 16 + length d \<le> unat (tail_of (view s))"
    "rr_mask r = cap - 1" "rr_capacity r = cap" "rr_slot r = Some slot" "unat slot < 128"
    "tail_of (view s) \<noteq> u64_max"
  shows "\<exists>t. ring_reader_read_frame B (r, s)
      = (Ok (Some (h, d)), (r\<lparr>rr_pos := rr_pos r + frame_size h\<rparr>, t)) \<and> good t \<and>
    view t = upd_bytes (view s) (24 + 8 * unat slot) (to_le 8 (rr_pos r + frame_size h + 1))"
proof -
  have fits: "4096 \<le> extent" using assms(2) by (simp add: ring_fits_def)
  have tail: "load_next_tail B s = (Ok (tail_of (view s)), s)"
    using assms(1) fits by (simp add: load_next_tail_def load_field_ok offset_defs tail_of_def)
  have sz: "unat (frame_size h) = 16 + length d" using assms(3) by (simp add: frame_at_def)
  have lt: "unat (rr_pos r) + unat (frame_size h) < 2 ^ 64 - 1"
    using assms(4) sz unat_lt_u64_max [OF assms(9)] by linarith
  then have add: "checked_add (rr_pos r) (frame_size h) = Some (rr_pos r + frame_size h)"
    "unat (rr_pos r + frame_size h) = unat (rr_pos r) + unat (frame_size h)"
    by (simp_all add: checked_add_def)
  have rd: "read_frame B (rr_pos r) (cap - 1) cap s = (Ok (Some (h, d)), s)"
    using lt sz by (intro read_frame_at [OF assms(1-3)]) linarith
  obtain t where t: "store_reader_slot B slot (rr_pos r + frame_size h + 1) s = (Ok (), t)" "good t"
      "view t = upd_bytes (view s) (24 + 8 * unat slot) (to_le 8 (rr_pos r + frame_size h + 1))"
    using store_reader_slot_ok [OF assms(1) fits assms(8)] by blast
  have "encode_position (rr_pos r + frame_size h) = Ok (rr_pos r + frame_size h + 1)"
    using add(2) lt by (simp add: encode_position_def checked_add_def)
  then have "update_reader_slot B slot (rr_pos r + frame_size h) s = (Ok (), t)"
    using t(1) by (simp add: update_reader_slot_def)
  moreover have "\<not> rr_pos r \<ge> tail_of (view s)" using assms(4) by (simp add: word_le_nat_alt)
  ultimately show ?thesis
    using assms(5-7) tail rd add(1) t(2,3) by (simp add: ring_reader_read_frame_def)
qed

end

section \<open>A weak compare-and-exchange\<close>

lemma ring_data_of_blank: "stretch (\<lambda>_. 0) cap 0 []"
  by (simp add: stretch_def tail_of_def slots_from_def reader_slots_of_def writer_slots_of_def)

lemma reserve_spurious:
  assumes "pm_weak s = True # r" "4096 \<le> unat (pb_size b)"
    "reserve_spec (pb_view b s) n cap pr pw = Ok nxt"
  shows "reserve_tail (pointer_ops b) n cap pr pw s
    = Some (Ok (tail_of (pb_view b s)), s\<lparr>pm_weak := r\<rparr>)"
proof -
  let ?B = "pointer_ops b" and ?tail = "tail_of (pb_view b s)"
  have tail: "load_next_tail ?B s = (Ok ?tail, s)"
    using assms(2) raw.load_field_ok [of NEXT_TAIL_OFFSET b s]
    by (simp add: load_next_tail_def offset_defs tail_of_def)
  have cas: "cas_next_tail ?B ?tail nxt s = (Ok ?tail, s\<lparr>pm_weak := r\<rparr>)"
    using assms(1,2) atomic_in_bounds [of 8 "pb_size b"]
    by (simp add: cas_next_tail_def pointer_ops_def pb_cas_def Let_def offset_defs tail_of_def mem_simps)
  have mins: "minimum_reader_position ?B s = (Ok (min_active (reader_slots_of (pb_view b s))), s)"
    "minimum_writer_position ?B s = (Ok (min_active (writer_slots_of (pb_view b s))), s)"
    using assms(2) raw.minimum_reader_position_ok [of b s] raw.minimum_writer_position_ok [of b s]
    by simp_all
  have "reserve_attempt ?B n cap pr pw s = (Ok (Some ?tail), s\<lparr>pm_weak := r\<rparr>)"
    using assms(3)
    by (cases pr; cases pw)
       (simp_all add: reserve_attempt_def reserve_spec_def bindR_def tail cas mins)
  moreover have "\<not> (n = 0 \<or> n > cap)"
    using assms(3) by (auto simp: reserve_spec_def reserve_tail_next_Ok)
  ultimately show ?thesis
    by (simp add: reserve_tail_def reserve_loop.simps [of ?B])
qed

end
