(* ===== verification/Ring_Concurrency.thy ===== *)
theory Ring_Concurrency
  imports Ring_Correct
begin

text \<open>
  Writers racing on one ring. \<^verbatim>\<open>reserve_tail\<close> is not one atomic action: it loads the tail, scans
  the reader slots and compare-exchanges the tail, and other writers and readers act in between.
  The step relation below has one rule per atomic action of the loop; any number of writers
  interleave freely and the minimum reader position moves forward at any time. The scan of the slots
  overlaps with such moves, so it may see any earlier minimum. A strong exchange
  is taken here; what a weak one does is shown on the pointer backend.
\<close>

datatype writer_pc =
    Idle
  | Wants u64
  | Loaded u64 u64
  | Scanned u64 u64 "u64 option"

record race =
  rc_tail :: u64
  rc_min :: "u64 option"
  rc_pc :: "nat \<Rightarrow> writer_pc"
  rc_granted :: "(u64 \<times> u64) list"

definition set_pc :: "nat \<Rightarrow> writer_pc \<Rightarrow> race \<Rightarrow> race" where
  "set_pc w pc c = c\<lparr>rc_pc := (rc_pc c)(w := pc)\<rparr>"

definition reader_moves :: "u64 option \<Rightarrow> u64 option \<Rightarrow> bool" where
  "reader_moves m m' \<longleftrightarrow> (case (m, m') of (Some a, Some b) \<Rightarrow> a \<le> b | (_, None) \<Rightarrow> True | _ \<Rightarrow> False)"

inductive race_step :: "u64 \<Rightarrow> race \<Rightarrow> race \<Rightarrow> bool" for cap where
  enter: "rc_pc c w = Idle \<Longrightarrow> race_step cap c (set_pc w (Wants n) c)"
| load: "rc_pc c w = Wants n \<Longrightarrow> race_step cap c (set_pc w (Loaded n (rc_tail c)) c)"
| scan: "rc_pc c w = Loaded n t \<Longrightarrow> reader_moves m (rc_min c) \<Longrightarrow>
    race_step cap c (set_pc w (Scanned n t m) c)"
| refuse: "rc_pc c w = Scanned n t m \<Longrightarrow> reserve_tail_next t n cap m None True False = Err e \<Longrightarrow>
    race_step cap c (set_pc w Idle c)"
| win: "rc_pc c w = Scanned n t m \<Longrightarrow> reserve_tail_next t n cap m None True False = Ok nxt \<Longrightarrow>
    rc_tail c = t \<Longrightarrow>
    race_step cap c (set_pc w Idle (c\<lparr>rc_tail := nxt, rc_granted := (t, n) # rc_granted c\<rparr>))"
| lose: "rc_pc c w = Scanned n t m \<Longrightarrow> reserve_tail_next t n cap m None True False = Ok nxt \<Longrightarrow>
    rc_tail c \<noteq> t \<Longrightarrow> race_step cap c (set_pc w (Wants n) c)"
| reader: "reader_moves (rc_min c) m \<Longrightarrow> race_step cap c (c\<lparr>rc_min := m\<rparr>)"

inductive raced :: "u64 \<Rightarrow> race \<Rightarrow> race \<Rightarrow> bool" for cap c0 where
  raced_refl: "raced cap c0 c0"
| raced_step: "raced cap c0 c \<Longrightarrow> race_step cap c d \<Longrightarrow> raced cap c0 d"

inductive_cases race_stepE: "race_step cap c d"

definition race_start :: "u64 \<Rightarrow> u64 option \<Rightarrow> race" where
  "race_start tail m = \<lparr>rc_tail = tail, rc_min = m, rc_pc = (\<lambda>_. Idle), rc_granted = []\<rparr>"

section \<open>Invariant\<close>

fun granted_below :: "nat \<Rightarrow> nat \<Rightarrow> (u64 \<times> u64) list \<Rightarrow> bool" where
  "granted_below lo hi [] \<longleftrightarrow> lo \<le> hi"
| "granted_below lo hi ((p, n) # rs) \<longleftrightarrow> unat p + unat n = hi \<and> n \<noteq> 0 \<and> granted_below lo (unat p) rs"

definition pc_sound :: "race \<Rightarrow> nat \<Rightarrow> bool" where
  "pc_sound c w \<longleftrightarrow> (case rc_pc c w of
     Scanned n t m \<Rightarrow> reader_moves m (rc_min c) \<and> t \<le> rc_tail c
   | Loaded n t \<Rightarrow> t \<le> rc_tail c | _ \<Rightarrow> True)"

definition race_inv :: "u64 \<Rightarrow> nat \<Rightarrow> race \<Rightarrow> bool" where
  "race_inv cap lo c \<longleftrightarrow> granted_below lo (unat (rc_tail c)) (rc_granted c) \<and> (\<forall>w. pc_sound c w) \<and>
     (\<forall>m. rc_min c = Some m \<longrightarrow> unat (rc_tail c) \<le> unat m + unat cap)"

lemma reader_moves_refl [simp]: "reader_moves m m"
  by (cases m) (simp_all add: reader_moves_def)

lemma reader_moves_trans: "reader_moves a b \<Longrightarrow> reader_moves b c \<Longrightarrow> reader_moves a c"
  by (auto simp: reader_moves_def split: option.splits)

lemma reader_moves_SomeD: "reader_moves m (Some b) \<Longrightarrow> \<exists>a. m = Some a \<and> a \<le> b"
  by (auto simp: reader_moves_def split: option.splits)

lemma pc_sound_mono:
  "pc_sound c w \<Longrightarrow> rc_tail c \<le> rc_tail d \<Longrightarrow> reader_moves (rc_min c) (rc_min d) \<Longrightarrow>
    rc_pc d w = rc_pc c w \<or> rc_pc d w = Idle \<Longrightarrow> pc_sound d w"
  by (auto simp: pc_sound_def split: writer_pc.splits intro: order_trans reader_moves_trans)

lemma race_inv_step:
  assumes "race_step cap c d" "race_inv cap lo c"
  shows "race_inv cap lo d"
  using assms(1)
proof cases
  case (win w n t m nxt)
  from win have ok: "nxt = t + n" "n \<noteq> 0" "unat t + unat n < 2 ^ 64 - 1"
      "unat t + unat n \<le> unat (case m of None \<Rightarrow> t | Some h \<Rightarrow> h) + unat cap"
    by (auto simp: reserve_tail_next_Ok)
  have nxt: "unat nxt = unat t + unat n" using ok by simp
  have mv: "reader_moves m (rc_min c)"
    using assms(2) win by (fastforce simp: race_inv_def pc_sound_def split: writer_pc.splits)
  have "unat nxt \<le> unat b + unat cap" if "rc_min c = Some b" for b
    using reader_moves_SomeD [of m b] mv that ok(4) nxt by (auto simp: word_le_nat_alt)
  moreover have "t \<le> nxt" using nxt by (simp add: word_le_nat_alt)
  then have "pc_sound d v" for v
    using assms(2) win by (intro pc_sound_mono [of c v d]) (auto simp: race_inv_def set_pc_def)
  ultimately show ?thesis
    using assms(2) win ok(2) nxt by (auto simp: race_inv_def set_pc_def)
next
  case (reader m)
  have "unat (rc_tail c) \<le> unat b + unat cap" if "m = Some b" for b
    using assms(2) reader that reader_moves_SomeD [of "rc_min c" b]
    by (fastforce simp: race_inv_def word_le_nat_alt)
  moreover have "pc_sound d v" for v
    using assms(2) reader by (intro pc_sound_mono [of c v d]) (auto simp: race_inv_def)
  ultimately show ?thesis using assms(2) reader by (auto simp: race_inv_def)
qed (use assms(2) in \<open>auto simp: race_inv_def pc_sound_def set_pc_def split: writer_pc.splits\<close>)

lemma race_inv_raced: "raced cap c0 c \<Longrightarrow> race_inv cap lo c0 \<Longrightarrow> race_inv cap lo c"
  by (induction rule: raced.induct) (auto intro: race_inv_step)

lemma race_inv_start:
  "(\<And>b. m = Some b \<Longrightarrow> unat tail \<le> unat b + unat cap) \<Longrightarrow> race_inv cap (unat tail) (race_start tail m)"
  by (simp add: race_inv_def race_start_def pc_sound_def)

lemma granted_below_le: "granted_below lo hi rs \<Longrightarrow> lo \<le> hi"
  by (induction lo hi rs rule: granted_below.induct) auto

lemma granted_below_mem:
  "granted_below lo hi rs \<Longrightarrow> (p, n) \<in> set rs \<Longrightarrow> lo \<le> unat p \<and> unat p + unat n \<le> hi"
  by (induction lo hi rs rule: granted_below.induct) (auto dest: granted_below_le)

lemma granted_below_disjoint:
  assumes "granted_below lo hi rs" "i < j" "j < length rs" "rs ! i = (p, n)" "rs ! j = (q, k)"
  shows "unat q + unat k \<le> unat p"
  using assms
proof (induction rs arbitrary: hi i j)
  case (Cons r rs)
  obtain a l where r: "r = (a, l)" by fastforce
  with Cons.prems(1) have below: "granted_below lo (unat a) rs" by simp
  obtain j' where j: "j = Suc j'" using Cons.prems(2) by (cases j) auto
  with Cons.prems have mem: "(q, k) \<in> set rs" by (auto simp: in_set_conv_nth)
  show ?case
  proof (cases i)
    case 0
    then show ?thesis using granted_below_mem [OF below mem] Cons.prems(4) r by simp
  next
    case (Suc i')
    then show ?thesis using Cons.IH [OF below, of i' j'] Cons.prems j by simp
  qed
qed simp

section \<open>Properties\<close>


lemma race_example:
  "raced 64 (race_start 0 (Some 0))
    \<lparr>rc_tail = 32, rc_min = Some 0, rc_pc = (\<lambda>_. Idle), rc_granted = [(0, 32)]\<rparr>"
proof -
  let ?pc = "\<lambda>pc. \<lparr>rc_tail = 0, rc_min = Some (0 :: u64), rc_pc = (\<lambda>_. Idle)(0 := pc), rc_granted = []\<rparr>"
  have "raced 64 (race_start 0 (Some 0)) (?pc (Wants 32))"
    using raced_step [OF raced_refl enter [of "race_start 0 (Some 0)" 0 64 32]]
    by (simp add: race_start_def set_pc_def)
  then have "raced 64 (race_start 0 (Some 0)) (?pc (Loaded 32 0))"
    using raced_step [OF _ load [of "?pc (Wants 32)" 0 32 64]] by (simp add: set_pc_def)
  then have "raced 64 (race_start 0 (Some 0)) (?pc (Scanned 32 0 (Some 0)))"
    using raced_step [OF _ scan [of "?pc (Loaded 32 0)" 0 32 0 "Some 0" 64]] by (simp add: set_pc_def)
  then show ?thesis
    using raced_step [OF _ win [of "?pc (Scanned 32 0 (Some 0))" 0 32 0 "Some 0" 64 32]]
    by (simp add: set_pc_def reserve_tail_next_def checked_add_def saturating_sub_def fun_upd_idem)
qed


end
