(* ===== verification/Ring_Properties.thy ===== *)
theory Ring_Properties
  imports Ring_Delivery Ring_Concurrency
begin

text \<open>
  The ring protocol over the pointer backend: the facts of the backend contract, instantiated by
  its interpretation, as statements about the operations of the source.
\<close>

definition sample_backend :: pointer_backend where
  "sample_backend = \<lparr>pb_base = 65536, pb_size = 65536\<rparr>"

lemma sample_backend_simps [simp]: "pb_size sample_backend = 65536" "pb_base sample_backend = 65536"
  by (simp_all add: sample_backend_def)

lemma ring_fits_sample [simp]: "ring_fits 65536 64"
proof -
  have "is_power_of_two 64"
    unfolding is_power_of_two_def list_ex_iff by (intro bexI [of _ 6]) simp_all
  then show ?thesis by (simp add: ring_fits_def)
qed

lemma sample_fits: "ring_fits (unat (pb_size sample_backend)) 64"
  by simp

lemma init_ring_stretch:
  assumes "no_spurious s" "ring_fits (unat (pb_size b)) cap"
  obtains t where "init_ring (pointer_ops b) s = (Ok (), t)" "no_spurious t"
    "stretch (pb_view b t) cap 0 []"
proof -
  have "zeroes (pb_view b) no_spurious (init_ring (pointer_ops b)) header_fields"
    using assms(2) by (intro ptr.init_ring_zeroes) (simp add: ring_fits_def)
  then show thesis using that assms(1) fields_zeroed_stretch by (auto simp: zeroes_def)
qed

text \<open>C1. On a freshly initialised ring, messages that fit the capacity together are all accepted,
  a drain returns them in the order they were written, and a second drain from the returned
  position returns nothing: delivery is in order and exactly once, with any backpressure setting.\<close>

theorem ring_delivers_in_order_once:
  assumes "no_spurious s" "ring_fits (unat (pb_size b)) cap"
    "(\<Sum>d\<leftarrow>ds. 16 + length d) \<le> unat cap" "\<forall>d\<in>set ds. length d < 2 ^ 32"
  shows "\<exists>s' t tail. init_ring (pointer_ops b) s = (Ok (), s') \<and>
    write_all (pointer_ops b) cap tg fl pr pw ds s' = Some (Ok (), t) \<and>
    drain_frames (pointer_ops b) 0 cap t = (Ok (ds, tail), t) \<and>
    drain_frames (pointer_ops b) tail cap t = (Ok ([], tail), t) \<and>
    unat tail = (\<Sum>d\<leftarrow>ds. 16 + length d)"
proof -
  obtain s' where s': "init_ring (pointer_ops b) s = (Ok (), s')" "no_spurious s'"
      "stretch (pb_view b s') cap 0 []"
    using init_ring_stretch [OF assms(1,2)] by blast
  have cap: "unat cap \<le> 2 ^ 62" using assms(2) by (simp add: ring_fits_def word_le_nat_alt)
  obtain t where t: "write_all (pointer_ops b) cap tg fl pr pw ds s' = Some (Ok (), t)" "no_spurious t"
      "stretch (pb_view b t) cap 0 (map (framed tg fl) ds)"
    using ptr.write_all_stretch [OF s'(2) assms(2) s'(3), of ds tg fl pr pw] assms(3,4) cap by auto
  let ?tail = "tail_of (pb_view b t)"
  have tail: "unat ?tail = (\<Sum>d\<leftarrow>ds. 16 + length d)" using t(3) by (simp add: stretch_def)
  have "drain_frames (pointer_ops b) 0 cap t = (Ok (map snd (map (framed tg fl) ds), ?tail), t)"
    using t(2,3) assms(2,3) cap by (intro ptr.drain_frames_stretch) simp_all
  moreover have "map snd (map (framed tg fl) ds) = ds" by (simp add: comp_def framed_def)
  moreover have "drain_frames (pointer_ops b) ?tail cap t = (Ok ([], ?tail), t)"
    using t(2) assms(2,3) cap tail by (intro ptr.drain_frames_at_tail) simp_all
  ultimately show ?thesis using s'(1) t(1) tail by auto
qed

theorem ring_delivers_in_order_once_witness:
  "\<exists>s' t tail. init_ring (pointer_ops sample_backend) blank_memory = (Ok (), s') \<and>
    write_all (pointer_ops sample_backend) 64 7 0 True False [[1, 2], [3]] s' = Some (Ok (), t) \<and>
    drain_frames (pointer_ops sample_backend) 0 64 t = (Ok ([[1, 2], [3]], tail), t)"
  using ring_delivers_in_order_once [of blank_memory sample_backend 64 "[[1, 2], [3]]" 7 0 True False]
  by auto

text \<open>C2. A frame write with reader protection, whether it succeeds or fails, changes no byte
  between the position of any registered reader and the tail: unread data is never overwritten.\<close>

theorem write_keeps_unread_data:
  assumes "no_spurious s" "ring_fits (unat (pb_size b)) cap" "length d < 2 ^ 63"
    "write_frame (pointer_ops b) d tg fl cap (cap - 1) True pw s = Some (r, t)"
    "e \<in> set (reader_slots_of (pb_view b s))" "e \<noteq> 0"
    "unat (e - 1) \<le> q" "q + k \<le> unat (tail_of (pb_view b s))"
  shows "ring_data (pb_view b t) cap q k = ring_data (pb_view b s) cap q k"
  using assms by (rule ptr.write_frame_protects)

definition sample_memory :: process_memory where
  "sample_memory = blank_memory\<lparr>pm_bytes := (\<lambda>_. 0)(65544 := 32, 65560 := 1)\<rparr>"

lemma sample_memory_simps:
  "no_spurious sample_memory"
  "tail_of (pb_view sample_backend sample_memory) = 32"
  "1 \<in> set (reader_slots_of (pb_view sample_backend sample_memory))"
proof -
  have v: "pb_view sample_backend sample_memory = (\<lambda>_. 0)(8 := 32, 24 := 1)"
    by (rule ext) (simp add: pb_view_def sample_backend_def sample_memory_def)
  show "no_spurious sample_memory"
    by (simp add: sample_memory_def no_spurious_def blank_memory_def)
  show "tail_of (pb_view sample_backend sample_memory) = 32"
    unfolding v by (simp add: tail_of_def u64_at_def bytes_at_def)
  have "u64_at (pb_view sample_backend sample_memory) (24 + 8 * 0) = 1"
    unfolding v by (simp add: u64_at_def bytes_at_def)
  then show "1 \<in> set (reader_slots_of (pb_view sample_backend sample_memory))"
    unfolding reader_slots_of_def set_map
    by (metis (no_types, lifting) MAX_READER_SLOTS_def atLeastLessThan_iff imageI set_upt
        zero_le zero_less_numeral)
qed

theorem write_keeps_unread_data_witness:
  "\<exists>r t. write_frame (pointer_ops sample_backend) [9] 0 0 64 (64 - 1) True False sample_memory = Some (r, t) \<and>
     ring_data (pb_view sample_backend t) 64 0 32 = ring_data (pb_view sample_backend sample_memory) 64 0 32"
proof -
  have "\<exists>r t. write_frame (pointer_ops sample_backend) [9] 0 0 64 (64 - 1) True False sample_memory = Some (r, t)"
    using ptr.write_frame_cases [OF sample_memory_simps(1) sample_fits, of "[9]" 0 0 True False] by auto
  then obtain r t where
    "write_frame (pointer_ops sample_backend) [9] 0 0 64 (64 - 1) True False sample_memory = Some (r, t)"
    by blast
  with write_keeps_unread_data [OF sample_memory_simps(1) sample_fits _ this sample_memory_simps(3), of 0 32]
  show ?thesis by (auto simp: sample_memory_simps(2))
qed

text \<open>C3. A frame write is all or nothing: it returns, and either the frame is readable at the old
  tail, the tail moved by exactly its size and the generation by one, or the error is
  \<^verbatim>\<open>CapacityExceeded\<close> or \<^verbatim>\<open>BufferFull\<close> and the region is unchanged.\<close>

theorem frame_write_is_all_or_nothing:
  assumes "no_spurious s" "ring_fits (unat (pb_size b)) cap" "length d < 2 ^ 32"
  shows "(\<exists>t. write_frame (pointer_ops b) d tg fl cap (cap - 1) pr pw s = Some (Ok (), t) \<and>
      read_frame (pointer_ops b) (tail_of (pb_view b s)) (cap - 1) cap t
        = (Ok (Some (ready_header tg fl d, d)), t) \<and>
      unat (tail_of (pb_view b t)) = unat (tail_of (pb_view b s)) + 16 + length d \<and>
      generation_of (pb_view b t) = generation_of (pb_view b s) + 1) \<or>
    (\<exists>e. write_frame (pointer_ops b) d tg fl cap (cap - 1) pr pw s = Some (Err e, s) \<and>
      (e = CapacityExceeded \<or> e = BufferFull))"
proof -
  have small: "length d < 2 ^ 63" using assms(3) by simp
  have full: "read_frame (pointer_ops b) (tail_of (pb_view b s)) (cap - 1) cap t
        = (Ok (Some (ready_header tg fl d, d)), t) \<and>
      unat (tail_of (pb_view b t)) = unat (tail_of (pb_view b s)) + 16 + length d \<and>
      generation_of (pb_view b t) = generation_of (pb_view b s) + 1"
    if t: "no_spurious t" "pb_view b t = written (pb_view b s) cap (16 + of_nat (length d)) h0
        (ready_header tg fl d) d"
      and res: "16 + length d \<le> unat cap"
        "reserve_spec (pb_view b s) (16 + of_nat (length d)) cap pr pw = Ok nxt" for t h0 nxt
  proof -
    have n: "unat (16 + of_nat (length d) :: u64) = 16 + length d"
      using small by (rule unat_frame_bytes)
    from res(2) have room: "unat (tail_of (pb_view b s)) + unat (16 + of_nat (length d) :: u64) < 2 ^ 64 - 1"
      unfolding reserve_spec_def reserve_tail_next_Ok by blast
    have "frame_at (pb_view b t) cap (unat (tail_of (pb_view b s))) (ready_header tg fl d) d"
      unfolding t(2) using res(1) assms(3) by (intro written_frame) simp_all
    then have "read_frame (pointer_ops b) (tail_of (pb_view b s)) (cap - 1) cap t
        = (Ok (Some (ready_header tg fl d, d)), t)"
      using t(1) assms(2) room n by (intro ptr.read_frame_at) simp_all
    then show ?thesis
      using room n by (simp add: t(2) written_tail written_generation)
  qed
  show ?thesis
    using ptr.write_frame_cases [OF assms(1,2) small, of tg fl pr pw] full by blast
qed

theorem frame_write_is_all_or_nothing_witness:
  "(\<exists>t. write_frame (pointer_ops sample_backend) [9] 0 0 64 63 True True blank_memory = Some (Ok (), t)) \<or>
   (\<exists>e. write_frame (pointer_ops sample_backend) [9] 0 0 64 63 True True blank_memory
      = Some (Err e, blank_memory))"
  using frame_write_is_all_or_nothing [of blank_memory sample_backend 64 "[9]" 0 0 True True] by auto

lemma sample_two_frames:
  obtains t where "no_spurious t" "stretch (pb_view sample_backend t) 64 0
    [framed 0 0 (replicate 16 1), framed 0 0 (replicate 16 2)]"
proof -
  have "stretch (pb_view sample_backend blank_memory) 64 0 []" by (simp add: ring_data_of_blank)
  from ptr.write_all_stretch [OF _ sample_fits this, of "[replicate 16 1, replicate 16 2]" 0 0 False False]
  show thesis using that by auto
qed

text \<open>A reader with a slot consumes the next committed frame, and its slot then protects
  exactly the position after that frame.\<close>

theorem reader_consumes_next_frame:
  assumes "ring_fits (unat (pb_size b)) cap" "frame_at (pb_view b s) cap (unat (rr_pos r)) h d"
    "unat (rr_pos r) + 16 + length d \<le> unat (tail_of (pb_view b s))"
    "rr_mask r = cap - 1" "rr_capacity r = cap" "rr_slot r = Some slot" "unat slot < 128"
    "tail_of (pb_view b s) \<noteq> u64_max"
  shows "\<exists>t. ring_reader_read_frame (pointer_ops b) (r, s)
      = (Ok (Some (h, d)), (r\<lparr>rr_pos := rr_pos r + frame_size h\<rparr>, t)) \<and>
    u64_at (pb_view b t) (24 + 8 * unat slot) = rr_pos r + frame_size h + 1"
  using raw.ring_reader_next_slot [OF _ assms] by auto

theorem reader_consumes_next_frame_witness:
  "\<exists>r s t h. ring_reader_read_frame (pointer_ops sample_backend) (r, s)
      = (Ok (Some (h, replicate 16 1)), (r\<lparr>rr_pos := 32\<rparr>, t)) \<and>
    u64_at (pb_view sample_backend t) 24 = 33"
proof -
  obtain s where s: "stretch (pb_view sample_backend s) 64 0
    [framed 0 0 (replicate 16 1), framed 0 0 (replicate 16 2)]" by (rule sample_two_frames)
  let ?h = "ready_header 0 0 (replicate 16 1)"
  let ?r = "\<lparr>rr_capacity = 64, rr_mask = 64 - 1, rr_pos = 0, rr_slot = Some 0\<rparr>"
  have fr: "frame_at (pb_view sample_backend s) 64 (unat (rr_pos ?r)) ?h (replicate 16 1)"
    using s by (simp add: stretch_def framed_def)
  have tail: "unat (tail_of (pb_view sample_backend s)) = 64"
    using s by (simp add: stretch_def framed_def)
  have max: "tail_of (pb_view sample_backend s) \<noteq> u64_max"
    using tail unat_u64_max by auto
  have le: "unat (rr_pos ?r) + 16 + length (replicate 16 (1 :: u8)) \<le> unat (tail_of (pb_view sample_backend s))"
    using tail by simp
  have sz: "frame_size ?h = 32" by (simp add: frame_size_def ready_header_def encoded_size_def)
  obtain t where "ring_reader_read_frame (pointer_ops sample_backend) (?r, s)
      = (Ok (Some (?h, replicate 16 1)), (?r\<lparr>rr_pos := rr_pos ?r + frame_size ?h\<rparr>, t))"
    "u64_at (pb_view sample_backend t) (24 + 8 * unat (0 :: u32)) = rr_pos ?r + frame_size ?h + 1"
    using reader_consumes_next_frame [OF sample_fits fr le, of 0] max by auto
  then show ?thesis by (intro exI [of _ ?r] exI [of _ s] exI [of _ t] exI [of _ ?h]) (simp add: sz)
qed

text \<open>Reader slots are handed out once each: an allocation takes the counter's slot, registers
  the position in it alone and moves the counter on, and when all 128 were handed out every further
  allocation fails with \<^verbatim>\<open>CapacityExceeded\<close>, whether or not earlier slots were released.\<close>

theorem reader_slots_are_handed_out_once:
  assumes "4096 \<le> unat (pb_size b)" "pos \<noteq> u64_max"
  shows "(u64_at (pb_view b s) 1056 < 128 \<longrightarrow>
      (\<exists>t. allocate_reader_slot (pointer_ops b) pos s = (Ok (ucast (u64_at (pb_view b s) 1056)), t) \<and>
        u64_at (pb_view b t) 1056 = u64_at (pb_view b s) 1056 + 1 \<and>
        reader_slots_of (pb_view b t)
          = (reader_slots_of (pb_view b s))[unat (u64_at (pb_view b s) 1056) := pos + 1])) \<and>
    (128 \<le> u64_at (pb_view b s) 1056 \<longrightarrow>
      (\<exists>t. allocate_reader_slot (pointer_ops b) pos s = (Err CapacityExceeded, t) \<and>
        reader_slots_of (pb_view b t) = reader_slots_of (pb_view b s)))"
  using raw.allocate_reader_slot_ok [OF _ assms(1) _ assms(2), of s]
    raw.allocate_reader_slot_exhausted [OF _ assms(1), of s pos] by auto

theorem reader_slots_are_handed_out_once_witness:
  "\<exists>t. allocate_reader_slot (pointer_ops sample_backend) 5 blank_memory = (Ok 0, t) \<and>
     u64_at (pb_view sample_backend t) 1056 = 1"
  using reader_slots_are_handed_out_once [of sample_backend 5 blank_memory]
  by auto

text \<open>C30. When the weak compare-and-exchange of the pointer backend fails spuriously, a reservation
  still reports success: it returns the tail but does not move it, so the next reservation returns
  the same position and two writers own overlapping spans.\<close>

theorem spurious_exchange_reserves_twice:
  assumes "pm_weak s = [True]" "4096 \<le> unat (pb_size b)"
    "reserve_spec (pb_view b s) n cap pr pw = Ok nxt"
  shows "\<exists>t u. reserve_tail (pointer_ops b) n cap pr pw s = Some (Ok (tail_of (pb_view b s)), t) \<and>
    reserve_tail (pointer_ops b) n cap pr pw t = Some (Ok (tail_of (pb_view b s)), u)"
proof -
  let ?t = "s\<lparr>pm_weak := []\<rparr>"
  have v: "pb_view b ?t = pb_view b s" by (simp add: pb_view_def)
  have "no_spurious ?t" by (simp add: no_spurious_def)
  then have "reserve_tail (pointer_ops b) n cap pr pw ?t = Some (Ok (tail_of (pb_view b s)),
      pb_put b 8 (to_le 8 nxt) ?t)"
    using ptr.reserve_tail_ok [of ?t b n cap pr pw] assms(2,3) by (simp add: v)
  then show ?thesis using reserve_spurious [OF assms] by blast
qed

theorem spurious_exchange_reserves_twice_witness:
  "\<exists>t u. reserve_tail (pointer_ops sample_backend) 32 64 False False (blank_memory\<lparr>pm_weak := [True]\<rparr>)
      = Some (Ok 0, t) \<and>
    reserve_tail (pointer_ops sample_backend) 32 64 False False t = Some (Ok 0, u)"
proof -
  have v: "pb_view sample_backend (blank_memory\<lparr>pm_weak := [True]\<rparr>) = (\<lambda>_. 0)"
    by (simp add: pb_view_def blank_memory_def)
  have "reserve_spec (\<lambda>_. 0) 32 64 False False = Ok 32"
    by (simp add: reserve_spec_def reserve_tail_next_Ok tail_of_def)
  then show ?thesis
    using spurious_exchange_reserves_twice [of "blank_memory\<lparr>pm_weak := [True]\<rparr>" sample_backend 32 64 False False 32]
    by (simp add: v tail_of_def)
qed

text \<open>C31. A reservation makes the previous lap visible: between the exchange of the tail and the
  write of the placeholder header, a reader that waits at the tail finds the header of the frame one
  capacity earlier there, still marked ready, and returns that old frame as the next one.\<close>

theorem reservation_exposes_previous_lap:
  assumes "no_spurious s" "ring_fits (unat (pb_size b)) cap" "frame_at (pb_view b s) cap p h d"
    "unat (tail_of (pb_view b s)) = p + unat cap" "unat (tail_of (pb_view b s)) + 16 < 2 ^ 64"
    "reserve_tail (pointer_ops b) n cap pr pw s = Some (Ok pos, t)"
  shows "pos = tail_of (pb_view b s) \<and> pos < tail_of (pb_view b t) \<and>
    read_frame (pointer_ops b) pos (cap - 1) cap t = (Ok (Some (h, d)), t)"
proof -
  let ?m = "pb_view b s"
  have fits: "4096 \<le> unat (pb_size b)" using assms(2) by (simp add: ring_fits_def)
  obtain nxt where nxt: "reserve_spec ?m n cap pr pw = Ok nxt" "pos = tail_of ?m"
      "t = pb_put b 8 (to_le 8 nxt) s"
    using ptr.reserve_tail_ok [OF assms(1) fits, of n cap pr pw] assms(6)
    by (cases "reserve_spec ?m n cap pr pw") auto
  have v: "pb_view b t = upd_bytes ?m 8 (to_le 8 nxt)" "no_spurious t"
    using assms(1) by (simp add: nxt(3) pb_view_put) (use assms(1) nxt(3) in \<open>simp add: pb_put_def no_spurious_def\<close>)
  have "frame_at (pb_view b t) cap p h d"
    using assms(3) by (simp add: frame_at_def v(1) ring_bytes_upd_bytes)
  then have "frame_at (pb_view b t) cap (p + unat cap) h d"
    by (simp only: frame_at_shift)
  then have rd: "read_frame (pointer_ops b) pos (cap - 1) cap t = (Ok (Some (h, d)), t)"
    using v(2) assms(2,4,5) nxt(2) by (intro ptr.read_frame_at) simp_all
  have "unat (tail_of ?m) + unat n < 2 ^ 64 - 1" "n \<noteq> 0" "nxt = tail_of ?m + n"
    using nxt(1) unfolding reserve_spec_def reserve_tail_next_Ok by blast+
  then have "tail_of ?m < nxt" by (simp add: word_less_nat_alt unat_gt_0)
  then show ?thesis using rd nxt(2) by (simp add: v(1) tail_of_def)
qed

theorem reservation_exposes_previous_lap_witness:
  "\<exists>s t h. reserve_tail (pointer_ops sample_backend) 32 64 False False s = Some (Ok 64, t) \<and>
    read_frame (pointer_ops sample_backend) 64 63 64 t = (Ok (Some (h, replicate 16 1)), t)"
proof -
  obtain s where s: "no_spurious s" "stretch (pb_view sample_backend s) 64 0
    [framed 0 0 (replicate 16 1), framed 0 0 (replicate 16 2)]" by (rule sample_two_frames)
  have fr: "frame_at (pb_view sample_backend s) 64 0 (ready_header 0 0 (replicate 16 1)) (replicate 16 1)"
    using s(2) by (simp add: stretch_def framed_def)
  have tail: "tail_of (pb_view sample_backend s) = 64"
    using s(2) by (simp add: stretch_def framed_def word_unat_eq_iff)
  have "reserve_spec (pb_view sample_backend s) 32 64 False False = Ok 96"
    by (simp add: reserve_spec_def reserve_tail_next_Ok tail)
  then obtain t where t: "reserve_tail (pointer_ops sample_backend) 32 64 False False s = Some (Ok 64, t)"
    using ptr.reserve_tail_ok [OF s(1), of sample_backend 32 64 False False] tail
    by simp
  from reservation_exposes_previous_lap [OF s(1) sample_fits fr _ _ t] show ?thesis
    using t tail by auto
qed

end
