(* ===== verification/Strings.thy ===== *)
theory Strings
  imports Prelude
begin

text \<open>
  The operations of Rust's \<^verbatim>\<open>str\<close> the sources use, on byte strings: splitting, trimming, prefixes
  and suffixes, joining, case and decimal numbers. Case mapping is the ASCII one.
\<close>

named_theorems str_simps \<open>string operations\<close>

definition starts_with :: "string \<Rightarrow> string \<Rightarrow> bool" where
  "starts_with s p = prefix p s"

definition ends_with :: "string \<Rightarrow> string \<Rightarrow> bool" where
  "ends_with s p = suffix p s"

definition strip_prefix :: "string \<Rightarrow> string \<Rightarrow> string option" where
  "strip_prefix s p = (if prefix p s then Some (drop (length p) s) else None)"

definition strip_suffix :: "string \<Rightarrow> string \<Rightarrow> string option" where
  "strip_suffix s p = (if suffix p s then Some (take (length s - length p) s) else None)"

definition split_once :: "char \<Rightarrow> string \<Rightarrow> (string \<times> string) option" where
  "split_once c s = (case dropWhile (\<lambda>x. x \<noteq> c) s of
     [] \<Rightarrow> None | _ # r \<Rightarrow> Some (takeWhile (\<lambda>x. x \<noteq> c) s, r))"

definition rsplit_once :: "char \<Rightarrow> string \<Rightarrow> (string \<times> string) option" where
  "rsplit_once c s = map_option (\<lambda>(a, b). (rev b, rev a)) (split_once c (rev s))"

fun split_once_str :: "string \<Rightarrow> string \<Rightarrow> (string \<times> string) option" where
  "split_once_str pat s = (if prefix pat s then Some ([], drop (length pat) s)
     else case s of [] \<Rightarrow> None
       | x # xs \<Rightarrow> map_option (\<lambda>(a, b). (x # a, b)) (split_once_str pat xs))"

declare split_once_str.simps [simp del]

fun split_on :: "char \<Rightarrow> string \<Rightarrow> string list" where
  "split_on c [] = [[]]"
| "split_on c (x # xs) = (if x = c then [] # split_on c xs
     else case split_on c xs of [] \<Rightarrow> [[x]] | w # ws \<Rightarrow> (x # w) # ws)"

fun join :: "string \<Rightarrow> string list \<Rightarrow> string" where
  "join sep [] = []"
| "join sep [w] = w"
| "join sep (w # v # ws) = w @ sep @ join sep (v # ws)"

definition trim_start_matches :: "char \<Rightarrow> string \<Rightarrow> string" where
  "trim_start_matches c s = dropWhile (\<lambda>x. x = c) s"

definition trim_end_matches :: "char \<Rightarrow> string \<Rightarrow> string" where
  "trim_end_matches c s = rev (dropWhile (\<lambda>x. x = c) (rev s))"

definition trim_matches :: "char \<Rightarrow> string \<Rightarrow> string" where
  "trim_matches c s = trim_end_matches c (trim_start_matches c s)"

definition is_space :: "char \<Rightarrow> bool" where
  "is_space c \<longleftrightarrow> of_char c = (32 :: nat) \<or> (9 \<le> (of_char c :: nat) \<and> (of_char c :: nat) \<le> 13)"

definition trim :: "string \<Rightarrow> string" where
  "trim s = rev (dropWhile is_space (rev (dropWhile is_space s)))"

definition is_digit :: "char \<Rightarrow> bool" where
  "is_digit c \<longleftrightarrow> 48 \<le> (of_char c :: nat) \<and> (of_char c :: nat) \<le> 57"

definition is_lower :: "char \<Rightarrow> bool" where
  "is_lower c \<longleftrightarrow> 97 \<le> (of_char c :: nat) \<and> (of_char c :: nat) \<le> 122"

definition lower_char :: "char \<Rightarrow> char" where
  "lower_char c = (if 65 \<le> (of_char c :: nat) \<and> (of_char c :: nat) \<le> 90
     then char_of (of_char c + 32 :: nat) else c)"

definition to_lowercase :: "string \<Rightarrow> string" where
  "to_lowercase s = map lower_char s"

definition digits_value :: "string \<Rightarrow> nat" where
  "digits_value s = foldl (\<lambda>n c. 10 * n + (of_char c - 48)) 0 s"

definition parse_u64 :: "string \<Rightarrow> u64 option" where
  "parse_u64 s = (let ds = (case s of CHR ''+'' # r \<Rightarrow> r | _ \<Rightarrow> s) in
     if ds \<noteq> [] \<and> list_all is_digit ds \<and> digits_value ds < 2 ^ 64
     then Some (of_nat (digits_value ds)) else None)"

section \<open>Splitting and joining\<close>

lemma split_once_append [str_simps]:
  "c \<notin> set a \<Longrightarrow> split_once c (a @ c # b) = Some (a, b)"
proof -
  assume "c \<notin> set a"
  then have "\<And>x. x \<in> set a \<Longrightarrow> x \<noteq> c" by auto
  then show ?thesis by (simp add: split_once_def takeWhile_append2 dropWhile_append2)
qed

lemma split_once_Some_iff: "split_once c s = Some (a, b) \<longleftrightarrow> c \<notin> set a \<and> s = a @ c # b"
proof
  assume "split_once c s = Some (a, b)"
  then obtain x where a: "a = takeWhile (\<lambda>x. x \<noteq> c) s" and d: "dropWhile (\<lambda>x. x \<noteq> c) s = x # b"
    by (auto simp: split_once_def split: list.splits)
  have "x = c" using hd_dropWhile [of "\<lambda>x. x \<noteq> c" s] d by auto
  then show "c \<notin> set a \<and> s = a @ c # b"
    using takeWhile_dropWhile_id [of "\<lambda>x. x \<noteq> c" s] a d by (auto dest: set_takeWhileD)
qed (auto simp: split_once_append)

lemma split_once_None_iff: "split_once c s = None \<longleftrightarrow> c \<notin> set s"
proof -
  have "split_once c s = None \<longleftrightarrow> dropWhile (\<lambda>x. x \<noteq> c) s = []"
    unfolding split_once_def
    by (cases "dropWhile (\<lambda>x. x \<noteq> c) s") (simp_all del: dropWhile_eq_Nil_conv)
  also have "\<dots> \<longleftrightarrow> c \<notin> set s" unfolding dropWhile_eq_Nil_conv by auto
  finally show ?thesis .
qed

lemma rsplit_once_Some_iff: "rsplit_once c s = Some (a, b) \<longleftrightarrow> c \<notin> set b \<and> s = a @ c # b"
proof -
  have "rsplit_once c s = Some (a, b) \<longleftrightarrow> split_once c (rev s) = Some (rev b, rev a)"
    by (auto simp: rsplit_once_def)
  also have "\<dots> \<longleftrightarrow> c \<notin> set b \<and> rev s = rev b @ c # rev a"
    by (simp add: split_once_Some_iff)
  also have "\<dots> \<longleftrightarrow> c \<notin> set b \<and> s = a @ c # b"
    by (metis append.assoc append_Cons append_Nil rev.simps(2) rev_append rev_rev_ident)
  finally show ?thesis .
qed

lemma split_on_not_Nil [simp]: "split_on c s \<noteq> []"
  by (induction s) (auto split: list.splits)

lemma split_on_clean: "c \<notin> set s \<Longrightarrow> split_on c s = [s]"
  by (induction s) auto

lemma split_on_append [str_simps]:
  "c \<notin> set a \<Longrightarrow> split_on c (a @ c # b) = a # split_on c b"
  by (induction a) auto

lemma split_on_join:
  "ws \<noteq> [] \<Longrightarrow> \<forall>w\<in>set ws. c \<notin> set w \<Longrightarrow> split_on c (join [c] ws) = ws"
  by (induction "[c]" ws rule: join.induct) (auto simp: split_on_clean split_on_append)

lemma join_split_on [simp]: "join [c] (split_on c s) = s"
proof (induction s)
  case (Cons x xs)
  obtain w ws where "split_on c xs = w # ws" by (cases "split_on c xs") auto
  with Cons show ?case by (cases ws) auto
qed simp

lemma split_on_segments: "w \<in> set (split_on c s) \<Longrightarrow> c \<notin> set w"
  by (induction s arbitrary: w) (auto split: if_splits list.splits)

lemma set_split_on: "w \<in> set (split_on c s) \<Longrightarrow> set w \<subseteq> set s"
  by (induction s arbitrary: w) (fastforce split: if_splits list.splits)+

section \<open>Decimal numbers\<close>

lemma digits_value_snoc: "digits_value (s @ [c]) = 10 * digits_value s + (of_char c - 48)"
  by (simp add: digits_value_def)

lemma of_char_digit: "d < 10 \<Longrightarrow> (of_char (char_of (48 + d) :: char) :: nat) = 48 + d"
  by (simp add: of_char_of)

lemma dec_digits_correct: "digits_value (dec_digits n) = n \<and> list_all is_digit (dec_digits n) \<and> dec_digits n \<noteq> []"
proof (induction n rule: dec_digits.induct)
  case (1 n)
  show ?case
  proof (cases "n < 10")
    case True
    then show ?thesis
      by (subst (1 2 3) dec_digits.simps) (simp add: digits_value_def is_digit_def of_char_digit)
  next
    case False
    then have "digits_value (dec_digits (n div 10)) = n div 10" "list_all is_digit (dec_digits (n div 10))"
      using 1 by auto
    then show ?thesis
      using False by (subst (1 2 3) dec_digits.simps)
        (simp add: digits_value_snoc is_digit_def of_char_digit)
  qed
qed

lemma parse_u64_digits:
  assumes "list_all is_digit s" "s \<noteq> []" "digits_value s < 2 ^ 64"
  shows "parse_u64 s = Some (of_nat (digits_value s))"
proof -
  obtain x r where s: "s = x # r" using assms(2) by (cases s) auto
  then have "x \<noteq> CHR ''+''" using assms(1) by (auto simp: is_digit_def)
  then have "(case s of CHR ''+'' # r \<Rightarrow> r | _ \<Rightarrow> s) = s" using s by (auto split: char.splits bool.splits)
  then show ?thesis using assms by (simp add: parse_u64_def)
qed

lemma parse_show_u64 [str_simps]: "parse_u64 (dec_digits (unat (n :: u64))) = Some n"
  using parse_u64_digits [of "dec_digits (unat n)"] dec_digits_correct [of "unat n"] unat_u64_lt [of n]
  by simp

lemma dec_digits_no_slash: "CHR ''/'' \<notin> set (dec_digits n)"
  using dec_digits_correct [of n] by (auto simp: list_all_iff is_digit_def)

end
