(* ===== verification/Abi_Scope.thy ===== *)
theory Abi_Scope
  imports Wire_Error Strings
begin

text \<open>
  The capability vocabulary of the host ABI (\<^verbatim>\<open>crates/abi/src/lib.rs\<close>): capabilities, resource
  classes, scope contexts, selectors and grants with their matching rules, network endpoints, and
  the byte framing and packed status of hostcalls.
\<close>

section \<open>Vocabulary\<close>

datatype capability =
    ProcessLifecycle | SharedMemory | Signal | Network | Storage | SessionLifecycle
  | ActivityRead | MeteringRead | GuestLogRead | GuestLogWrite | HostQueue | DelegateGrants
  | SystemRegistration | MintCertificate | QuotaWrite

datatype resource_identity = LocalId u64 | SharedId u64

datatype locality_scope = AnyLocality | Cluster | Host string

datatype resource_class =
    SharedRegion | SharedMapping | SignalClass | TcpListener | TcpStream | UdpSocket | DurableLog
  | BlobStore | ProcessClass | ActivityLog | MeteringStream | GuestLog | HostQueueClass | Cpu

datatype ns = Root | TenantNs string

datatype resource_selector =
    TenantSel string
  | NamespaceSel ns
  | UriPrefix string
  | LocalitySel locality_scope
  | ClassSel resource_class
  | ExplicitResource resource_identity
  | Children

record scope_context =
  sc_tenant :: "string option"
  sc_uri :: "string option"
  sc_locality :: locality_scope
  sc_class :: "resource_class option"
  sc_resource :: "resource_identity option"

record capability_grant =
  cg_capability :: capability
  cg_selectors :: "resource_selector list"

record abi_error =
  ae_code :: abi_error_code
  ae_message :: string

definition default_context :: scope_context where
  "default_context = \<lparr>sc_tenant = None, sc_uri = None, sc_locality = AnyLocality, sc_class = None,
     sc_resource = None\<rparr>"

fun uri_segment :: "resource_class \<Rightarrow> string" where
  "uri_segment SharedRegion = ''region''"
| "uri_segment SharedMapping = ''mapping''"
| "uri_segment SignalClass = ''signal''"
| "uri_segment TcpListener = ''listener''"
| "uri_segment TcpStream = ''stream''"
| "uri_segment UdpSocket = ''socket''"
| "uri_segment DurableLog = ''log''"
| "uri_segment BlobStore = ''blob''"
| "uri_segment ProcessClass = ''proc''"
| "uri_segment ActivityLog = ''activity''"
| "uri_segment MeteringStream = ''metering''"
| "uri_segment GuestLog = ''guest-log''"
| "uri_segment HostQueueClass = ''queue''"
| "uri_segment Cpu = ''cpu''"

definition from_uri_segment :: "string \<Rightarrow> resource_class option" where
  "from_uri_segment seg =
    (if seg = ''region'' then Some SharedRegion
     else if seg = ''mapping'' then Some SharedMapping
     else if seg = ''signal'' then Some SignalClass
     else if seg = ''listener'' then Some TcpListener
     else if seg = ''stream'' then Some TcpStream
     else if seg = ''socket'' then Some UdpSocket
     else if seg = ''log'' then Some DurableLog
     else if seg = ''blob'' then Some BlobStore
     else if seg = ''proc'' then Some ProcessClass
     else if seg = ''activity'' then Some ActivityLog
     else if seg = ''metering'' then Some MeteringStream
     else if seg = ''guest-log'' then Some GuestLog
     else if seg = ''queue'' then Some HostQueueClass
     else if seg = ''cpu'' then Some Cpu
     else None)"

section \<open>Network endpoints\<close>

record network_endpoint =
  ne_scheme :: string
  ne_host :: string
  ne_port :: string

definition endpoint_parse :: "string \<Rightarrow> network_endpoint option" where
  "endpoint_parse uri =
    (case split_once_str ''://'' uri of
       None \<Rightarrow> None
     | Some (scheme, rest) \<Rightarrow>
         if scheme \<noteq> ''tcp'' \<and> scheme \<noteq> ''udp'' then None
         else (case rsplit_once CHR '':'' rest of
           None \<Rightarrow> None
         | Some (host_part, port) \<Rightarrow>
             if port = [] then None
             else if port \<noteq> ''*'' \<and>
               \<not> list_all (\<lambda>c. is_digit c \<or> c = CHR '','' \<or> c = CHR '' '') port then None
             else
               let lowered = to_lowercase host_part;
                   host = (case strip_suffix lowered ''.'' of None \<Rightarrow> lowered | Some h \<Rightarrow> h)
               in if host = [] then None
                  else Some \<lparr>ne_scheme = scheme, ne_host = host, ne_port = port\<rparr>))"

definition host_matches :: "string \<Rightarrow> string \<Rightarrow> bool" where
  "host_matches grant_host context_host =
    (if grant_host = context_host then True
     else case strip_prefix grant_host ''*.'' of
       None \<Rightarrow> False
     | Some suf \<Rightarrow>
         if ends_with context_host suf \<and> length context_host > length suf
         then context_host ! (length context_host - length suf - 1) = CHR ''.''
         else False)"

definition port_matches :: "string \<Rightarrow> string \<Rightarrow> bool" where
  "port_matches grant_port context_port =
    (if grant_port = ''*'' then True
     else list_ex (\<lambda>p. trim p = context_port) (split_on CHR '','' grant_port))"

definition prefix_matches :: "network_endpoint \<Rightarrow> network_endpoint \<Rightarrow> bool" where
  "prefix_matches grant context =
    (if ne_scheme grant \<noteq> ne_scheme context then False
     else if \<not> host_matches (ne_host grant) (ne_host context) then False
     else port_matches (ne_port grant) (ne_port context))"

section \<open>Matching\<close>

fun locality_matches :: "locality_scope \<Rightarrow> locality_scope \<Rightarrow> bool" where
  "locality_matches AnyLocality actual = True"
| "locality_matches Cluster actual = (case actual of Cluster \<Rightarrow> True | Host _ \<Rightarrow> True | _ \<Rightarrow> False)"
| "locality_matches (Host expected) actual = (actual = Host expected)"

fun matches_tenant :: "ns \<Rightarrow> string option \<Rightarrow> bool" where
  "matches_tenant Root tenant = (tenant = None)"
| "matches_tenant (TenantNs expected) tenant = (tenant = Some expected)"

fun is_evaluatable :: "resource_selector \<Rightarrow> resource_selector list \<Rightarrow> bool" where
  "is_evaluatable (UriPrefix _) grant_selectors =
    list_ex (\<lambda>s. s = ClassSel TcpListener \<or> s = ClassSel TcpStream \<or> s = ClassSel UdpSocket)
      grant_selectors"
| "is_evaluatable _ grant_selectors = True"

definition uri_prefix_matches :: "string \<Rightarrow> string \<Rightarrow> bool" where
  "uri_prefix_matches pfx ctx_uri =
    (case (endpoint_parse pfx, endpoint_parse ctx_uri) of
       (Some grant_ep, Some ctx_ep) \<Rightarrow> prefix_matches grant_ep ctx_ep
     | _ \<Rightarrow> starts_with ctx_uri pfx)"

fun selector_matches :: "resource_selector \<Rightarrow> scope_context \<Rightarrow> bool" where
  "selector_matches (TenantSel expected) c = (sc_tenant c = Some expected)"
| "selector_matches (NamespaceSel n) c = matches_tenant n (sc_tenant c)"
| "selector_matches (UriPrefix pfx) c = (case sc_uri c of
     Some ctx_uri \<Rightarrow> uri_prefix_matches pfx ctx_uri | None \<Rightarrow> False)"
| "selector_matches (LocalitySel expected) c = locality_matches expected (sc_locality c)"
| "selector_matches (ClassSel expected) c = (sc_class c = Some expected)"
| "selector_matches (ExplicitResource expected) c = (sc_resource c = Some expected)"
| "selector_matches Children c = False"

definition grant_allows :: "capability_grant \<Rightarrow> scope_context \<Rightarrow> bool" where
  "grant_allows g c = list_all (\<lambda>s. selector_matches s c) (cg_selectors g)"

section \<open>Framing and packed status\<close>

definition malformed :: "string \<Rightarrow> abi_error" where
  "malformed msg = \<lparr>ae_code = MalformedPayload, ae_message = msg\<rparr>"

definition deframe_bytes :: "u8 list \<Rightarrow> (abi_error, u8 list) result" where
  "deframe_bytes payload =
    (if length payload < 4 then Err (malformed ''missing frame length prefix'')
     else let n = unat (from_le (take 4 payload) :: u32)
       in if length payload < 4 + n then Err (malformed ''frame length exceeds buffer'')
       else if length payload \<noteq> n + 4 then Err (malformed ''frame contains trailing bytes'')
       else Ok (take n (drop 4 payload)))"

definition frame_bytes :: "u8 list \<Rightarrow> (abi_error, u8 list) result" where
  "frame_bytes payload =
    (if length payload \<ge> 2 ^ 32 then Err (malformed ''frame payload length exceeds u32'')
     else Ok (to_le 4 (of_nat (length payload) :: u32) @ payload))"

definition pack_hostcall_status :: "u32 \<Rightarrow> u32 \<Rightarrow> u64" where
  "pack_hostcall_status status value = push_bit 32 (ucast status) OR ucast value"

definition unpack_hostcall_status :: "u64 \<Rightarrow> u32 \<times> u32" where
  "unpack_hostcall_status encoded = (ucast (drop_bit 32 encoded), ucast encoded)"

section \<open>Facts\<close>

lemma from_uri_segment_iff: "from_uri_segment seg = Some c \<longleftrightarrow> seg = uri_segment c"
  by (cases c) (auto simp: from_uri_segment_def)

lemma uri_segment_inject: "uri_segment c = uri_segment d \<longleftrightarrow> c = d"
  by (metis from_uri_segment_iff option.inject)

lemma uri_segment_no_slash: "CHR ''/'' \<notin> set (uri_segment c)"
  by (cases c) simp_all

lemma unpack_pack [simp]: "unpack_hostcall_status (pack_hostcall_status st v) = (st, v)"
proof -
  have "ucast (drop_bit 32 (push_bit 32 (ucast st) OR ucast v :: u64)) = st"
    by (rule bit_word_eqI) (auto simp: bit_ucast_iff bit_drop_bit_eq bit_or_iff bit_push_bit_iff
        dest: bit_imp_le_length)
  moreover have "ucast (push_bit 32 (ucast st) OR ucast v :: u64) = v"
    by (rule bit_word_eqI) (auto simp: bit_ucast_iff bit_or_iff bit_push_bit_iff)
  ultimately show ?thesis by (simp add: unpack_hostcall_status_def pack_hostcall_status_def)
qed

lemma pack_unpack: "pack_hostcall_status (fst (unpack_hostcall_status e)) (snd (unpack_hostcall_status e)) = e"
  unfolding unpack_hostcall_status_def pack_hostcall_status_def
  by (rule bit_word_eqI) (auto simp: bit_ucast_iff bit_or_iff bit_push_bit_iff bit_drop_bit_eq not_less)

text \<open>A host pattern admits a host exactly when they are equal or the pattern is \<^verbatim>\<open>*.\<close>
  followed by a suffix that the host ends with after a dot: a wildcard never matches inside a label.\<close>

theorem host_wildcard_is_label_boundary:
  "host_matches g h \<longleftrightarrow> g = h \<or> (\<exists>suf pre. g = ''*.'' @ suf \<and> h = pre @ ''.'' @ suf)"
proof -
  have "(suffix suf h \<and> length suf < length h \<and> h ! (length h - length suf - 1) = CHR ''.'')
      \<longleftrightarrow> (\<exists>pre. h = pre @ ''.'' @ suf)" for suf
  proof (intro iffI; elim conjE exE)
    assume "suffix suf h" and len: "length suf < length h"
      and dot: "h ! (length h - length suf - 1) = CHR ''.''"
    then obtain r where r: "h = r @ suf" by (auto elim: suffixE)
    then obtain pre x where p: "r = pre @ [x]" using len by (cases r rule: rev_cases) auto
    then have "x = CHR ''.''" using dot r by (simp add: nth_append)
    then show "\<exists>pre. h = pre @ ''.'' @ suf" using r p by auto
  next
    fix pre assume "h = pre @ ''.'' @ suf"
    then show "suffix suf h \<and> length suf < length h \<and> h ! (length h - length suf - 1) = CHR ''.''"
      by (auto simp: suffix_def nth_append)
  qed
  moreover have "strip_prefix g ''*.'' = Some suf \<longleftrightarrow> g = ''*.'' @ suf" for suf
    by (auto simp: strip_prefix_def prefix_def)
  moreover have "strip_prefix g ''*.'' = None \<longleftrightarrow> (\<nexists>suf. g = ''*.'' @ suf)"
    by (auto simp: strip_prefix_def prefix_def)
  ultimately show ?thesis
    by (auto simp: host_matches_def ends_with_def split: option.splits)
qed

text \<open>Removing the length prefix succeeds exactly on what framing produces: a payload below
  4 GiB preceded by its own length, with no byte missing and none trailing.\<close>

theorem deframe_accepts_exactly_frames:
  "deframe_bytes bytes = Ok payload \<longleftrightarrow> frame_bytes payload = Ok bytes"
proof
  assume "deframe_bytes bytes = Ok payload"
  then have len: "4 \<le> length bytes" "length bytes = unat (from_le (take 4 bytes) :: u32) + 4"
    and p: "payload = drop 4 bytes"
    by (auto simp: deframe_bytes_def Let_def split: if_splits)
  have "length payload = unat (from_le (take 4 bytes) :: u32)" using len p by simp
  then have "of_nat (length payload) = (from_le (take 4 bytes) :: u32)" "length payload < 2 ^ 32"
    using unat_u32_lt [of "from_le (take 4 bytes)"] by simp_all
  moreover have "to_le 4 (from_le (take 4 bytes) :: u32) = take 4 bytes"
    using to_le_from_le [where 'w = 32, of "take 4 bytes"] len(1) by simp
  ultimately show "frame_bytes payload = Ok bytes"
    using p by (simp add: frame_bytes_def)
next
  assume "frame_bytes payload = Ok bytes"
  then have "length payload < 2 ^ 32" "bytes = to_le 4 (of_nat (length payload) :: u32) @ payload"
    by (auto simp: frame_bytes_def split: if_splits)
  then show "deframe_bytes bytes = Ok payload"
    by (simp add: deframe_bytes_def Let_def unat_of_nat_u32 del: unsigned_of_nat)
qed

end
