(* ===== verification/Kernel_Ids.thy ===== *)
theory Kernel_Ids
  imports Abi_Scope
begin

text \<open>
  Kernel errors and the generator of kernel identifiers
  (\<^verbatim>\<open>crates/kernel/src/error.rs\<close>, \<^verbatim>\<open>kernel.rs\<close> \<^verbatim>\<open>hashed_id\<close>, and the identical loops
  \<^verbatim>\<open>next_local_id\<close>, \<^verbatim>\<open>next_shared_id\<close>, \<^verbatim>\<open>next_process_id\<close>).  The mixing function is a bijection of the
  64-bit words, so the loops take at most two turns and hand out pairwise different identifiers
  until the counter has gone round once.
\<close>

unbundle bit_operations_syntax

section \<open>Definitions\<close>

datatype kernel_error =
    NotFoundE string
  | TimeoutE
  | AlreadyCompletedE
  | ProcessStoppedE u64
  | QuotaExceededE string resource_class
  | WasmE string

definition hashed_id :: "u64 \<Rightarrow> u64 \<Rightarrow> u64" where
  "hashed_id seed counter =
    (let z = seed + counter;
         z = (z XOR drop_bit 30 z) * 0xBF58476D1CE4E5B9;
         z = (z XOR drop_bit 27 z) * 0x94D049BB133111EB
     in z XOR drop_bit 31 z)"

section \<open>The mixing function is a bijection\<close>

lemma drop_bit_fixpoint:
  fixes w :: u64
  assumes "w = drop_bit k w" and "0 < k"
  shows "w = 0"
proof -
  have iter: "w = drop_bit (k * n) w" for n
  proof (induction n)
    case (Suc n)
    have "w = drop_bit k (drop_bit (k * n) w)" using Suc assms(1) by metis
    then show ?case by (simp add: drop_bit_drop_bit add.commute)
  qed simp
  have "drop_bit (k * 64) w = 0"
  proof (rule bit_word_eqI)
    fix n
    have "64 \<le> k * 64 + n" using assms(2) by (cases k) simp_all
    then have "\<not> bit w (k * 64 + n)" using bit_imp_le_length [of w "k * 64 + n"] by auto
    then show "bit (drop_bit (k * 64) w) n = bit (0::u64) n" by (simp add: bit_drop_bit_eq)
  qed
  then show ?thesis using iter [of 64] by metis
qed

lemma xorshift_inj:
  fixes v w :: u64
  assumes "v XOR drop_bit k v = w XOR drop_bit k w" and "0 < k"
  shows "v = w"
proof -
  have "v XOR w = (v XOR drop_bit k v) XOR drop_bit k v XOR w"
    by (simp add: xor.assoc)
  also have "\<dots> = (w XOR drop_bit k w) XOR drop_bit k v XOR w" using assms(1) by simp
  also have "\<dots> = drop_bit k w XOR drop_bit k v"
    by (simp add: xor.assoc xor.left_commute xor.commute)
  also have "\<dots> = drop_bit k (v XOR w)" by (simp add: xor.commute)
  finally have "v XOR w = drop_bit k (v XOR w)" .
  then have zero: "v XOR w = 0" using drop_bit_fixpoint assms(2) by blast
  have "v = (v XOR w) XOR w" by (simp add: xor.assoc)
  then show ?thesis using zero by simp
qed

lemma mult_inj:
  fixes v w c d :: u64
  assumes "v * c = w * c" and "c * d = 1"
  shows "v = w"
proof -
  have "v = v * (c * d)" using assms(2) by simp
  also have "\<dots> = w * c * d" using assms(1) by (simp add: mult.assoc [symmetric])
  finally show ?thesis using assms(2) by (simp add: mult.assoc)
qed

lemma hashed_id_inj: "hashed_id seed c = hashed_id seed d \<Longrightarrow> c = d"
proof -
  assume eq: "hashed_id seed c = hashed_id seed d"
  define f where "f z = (z XOR drop_bit 30 z) * 0xBF58476D1CE4E5B9" for z :: u64
  define g where "g z = (z XOR drop_bit 27 z) * 0x94D049BB133111EB" for z :: u64
  have "g (f (seed + c)) = g (f (seed + d))"
    by (rule xorshift_inj [of _ 31]) (use eq in \<open>simp_all add: hashed_id_def f_def g_def Let_def\<close>)
  then have "f (seed + c) XOR drop_bit 27 (f (seed + c)) = f (seed + d) XOR drop_bit 27 (f (seed + d))"
    unfolding g_def by (rule mult_inj [where d = 3573116690164977347]) simp
  then have "f (seed + c) = f (seed + d)" by (rule xorshift_inj) simp
  then have "(seed + c) XOR drop_bit 30 (seed + c) = (seed + d) XOR drop_bit 30 (seed + d)"
    unfolding f_def by (rule mult_inj [where d = 10871156337175269513]) simp
  then have "seed + c = seed + d" by (rule xorshift_inj) simp
  then show "c = d" by simp
qed

section \<open>The identifier loops\<close>

text \<open>
  One turn takes the next counter value; a turn whose identifier is zero is repeated.  The counter
  is an atomic fetch-and-add, so it wraps.
\<close>

lemma hashed_id_zero_step: "hashed_id seed c = 0 \<Longrightarrow> hashed_id seed (c + 1) \<noteq> 0"
  using hashed_id_inj [of seed c "c + 1"] by auto

function next_id :: "u64 \<Rightarrow> u64 \<Rightarrow> u64 \<times> u64" where
  "next_id seed counter =
    (let ident = hashed_id seed counter; counter' = counter + 1
     in if ident \<noteq> 0 then (ident, counter') else next_id seed counter')"
  by pat_completeness auto

termination
  by (relation "measure (\<lambda>(seed, c). if hashed_id seed c = 0 then 1 else 0)")
     (simp_all add: hashed_id_zero_step)

declare next_id.simps [simp del]

lemma next_id_nonzero: "hashed_id seed c \<noteq> 0 \<Longrightarrow> next_id seed c = (hashed_id seed c, c + 1)"
  by (simp add: next_id.simps [of seed c])

lemma next_id_zero: "hashed_id seed c = 0 \<Longrightarrow> next_id seed c = (hashed_id seed (c + 1), c + 2)"
  using hashed_id_zero_step [of seed c]
  by (simp add: next_id.simps [of seed c] next_id_nonzero add.assoc)

fun take_ids :: "u64 \<Rightarrow> u64 \<Rightarrow> nat \<Rightarrow> u64 list \<times> u64" where
  "take_ids seed c 0 = ([], c)"
| "take_ids seed c (Suc n) =
    (let (ids, c') = take_ids seed c n; (ident, c'') = next_id seed c' in (ids @ [ident], c''))"

definition id_stream :: "u64 \<Rightarrow> u64 \<Rightarrow> nat \<Rightarrow> u64 list" where
  "id_stream seed c m = map (\<lambda>i. hashed_id seed (c + of_nat i)) [0..<m]"

lemma id_stream_Suc: "id_stream seed c (Suc m) = id_stream seed c m @ [hashed_id seed (c + of_nat m)]"
  by (simp add: id_stream_def)

lemma id_stream_distinct:
  assumes "m \<le> 2 ^ 64"
  shows "distinct (id_stream seed c m)"
proof -
  have "inj_on (\<lambda>i. hashed_id seed (c + of_nat i)) {0..<m}"
  proof (rule inj_onI)
    fix i j
    assume ij: "i \<in> {0..<m}" "j \<in> {0..<m}"
      and "hashed_id seed (c + of_nat i) = hashed_id seed (c + of_nat j)"
    then have "(of_nat i :: u64) = of_nat j" using hashed_id_inj by fastforce
    then have "unat (of_nat i :: u64) = unat (of_nat j :: u64)" by simp
    then show "i = j" using ij assms by (simp add: unat_of_nat_u64)
  qed
  then show ?thesis by (simp add: id_stream_def distinct_map)
qed

lemma id_stream_zeros:
  assumes "m \<le> 2 ^ 64"
  shows "length (filter (\<lambda>x. x = 0) (id_stream seed c m)) \<le> 1"
proof -
  let ?z = "filter (\<lambda>x. x = 0) (id_stream seed c m)"
  have "distinct ?z" using id_stream_distinct [OF assms] by simp
  then have "length ?z = card (set ?z)" by (rule distinct_card [symmetric])
  also have "\<dots> \<le> card {0 :: u64}" by (rule card_mono) auto
  finally show ?thesis by simp
qed

lemma take_ids_stream:
  assumes "n < 2 ^ 64"
  shows "\<exists>m. m \<le> n + 1 \<and> take_ids seed c n = (filter (\<lambda>x. x \<noteq> 0) (id_stream seed c m), c + of_nat m)
           \<and> length (filter (\<lambda>x. x \<noteq> 0) (id_stream seed c m)) = n"
  using assms
proof (induction n)
  case 0
  show ?case by (rule exI [of _ 0]) (simp add: id_stream_def)
next
  case (Suc n)
  then obtain m where m: "m \<le> n + 1"
      "take_ids seed c n = (filter (\<lambda>x. x \<noteq> 0) (id_stream seed c m), c + of_nat m)"
      "length (filter (\<lambda>x. x \<noteq> 0) (id_stream seed c m)) = n"
    by (metis Suc_lessD)
  let ?k = "c + of_nat m :: u64"
  have split: "length (id_stream seed c l) =
      length (filter (\<lambda>x. x \<noteq> 0) (id_stream seed c l)) + length (filter (\<lambda>x. x = 0) (id_stream seed c l))"
    for l using sum_length_filter_compl [of "\<lambda>x. x \<noteq> 0" "id_stream seed c l"] by simp
  have len: "length (id_stream seed c l) = l" for l by (simp add: id_stream_def)
  show ?case
  proof (cases "hashed_id seed ?k = 0")
    case False
    then show ?thesis using m
      by (intro exI [of _ "Suc m"]) (simp add: next_id_nonzero id_stream_Suc add.assoc add.commute)
  next
    case True
    have step: "hashed_id seed (c + of_nat (Suc m)) \<noteq> 0"
      using hashed_id_zero_step [OF True] by (simp add: ac_simps)
    have le: "Suc m \<le> 2 ^ 64" using m(1) Suc.prems by simp
    have "length (filter (\<lambda>x. x = 0) (id_stream seed c (Suc m))) \<le> 1" by (rule id_stream_zeros [OF le])
    then have "filter (\<lambda>x. x = 0) (id_stream seed c m) = []" using True by (simp add: id_stream_Suc)
    then have "m = n" using split [of m] len [of m] m(3) by simp
    then show ?thesis using m True step
      by (intro exI [of _ "Suc (Suc m)"])
         (simp add: next_id_zero id_stream_Suc add.assoc add.commute add.left_commute)
  qed
qed

lemma take_ids_fresh:
  assumes "n + 1 < 2 ^ 64" and "next_id seed (snd (take_ids seed c n)) = (ident, c')"
  shows "ident \<notin> set (fst (take_ids seed c n))" and "take_ids seed c (Suc n) = (fst (take_ids seed c n) @ [ident], c')"
proof -
  obtain ids k where ids: "take_ids seed c n = (ids, k)" by (cases "take_ids seed c n")
  show suc: "take_ids seed c (Suc n) = (fst (take_ids seed c n) @ [ident], c')"
    using assms(2) ids by simp
  obtain m where m: "m \<le> Suc n + 1"
      "take_ids seed c (Suc n) = (filter (\<lambda>x. x \<noteq> 0) (id_stream seed c m), c + of_nat m)"
    using take_ids_stream [of "Suc n" seed c] assms(1) by auto
  have "m \<le> 2 ^ 64" using m(1) assms(1) by simp
  then have "distinct (fst (take_ids seed c (Suc n)))" using m(2) id_stream_distinct by simp
  then show "ident \<notin> set (fst (take_ids seed c n))" using suc by simp
qed

lemma next_id_neq:
  assumes "next_id seed c = (i, c')" and "next_id seed c' = (j, c'')"
  shows "i \<noteq> j"
  using take_ids_fresh(1) [of 1 seed c j c''] assms by auto

text \<open>
   Kernel identifiers never collide: for every seed and starting counter, the first
  \<^term>\<open>n\<close> identifiers handed out by \<^verbatim>\<open>next_local_id\<close>, \<^verbatim>\<open>next_shared_id\<close> or
  \<^verbatim>\<open>next_process_id\<close> are pairwise different and none of them is zero, up to the last of the
  \<open>2 ^ 64 - 1\<close> identifiers that exist.
\<close>

theorem kernel_ids_are_unique:
  assumes "n < 2 ^ 64"
  shows "distinct (fst (take_ids seed c n)) \<and> 0 \<notin> set (fst (take_ids seed c n)) \<and>
         length (fst (take_ids seed c n)) = n"
proof -
  obtain m where m: "m \<le> n + 1"
      "take_ids seed c n = (filter (\<lambda>x. x \<noteq> 0) (id_stream seed c m), c + of_nat m)"
      "length (filter (\<lambda>x. x \<noteq> 0) (id_stream seed c m)) = n"
    using take_ids_stream [OF assms] by blast
  have "m \<le> 2 ^ 64" using m(1) assms by simp
  then show ?thesis using m id_stream_distinct by simp
qed

theorem kernel_ids_are_unique_witness:
  "distinct (fst (take_ids 42 0 3)) \<and> 0 \<notin> set (fst (take_ids 42 0 3)) \<and>
   length (fst (take_ids 42 0 3)) = 3"
  by (rule kernel_ids_are_unique) simp

end
