(* ===== verification/Authority.thy ===== *)
theory Authority
  imports Kernel_Ids "HOL-Library.AList"
begin

text \<open>
  The authority of processes: grants, the parent chain, delegation and the rules for conferring grants
  on a child (\<^verbatim>\<open>crates/runtime/src/process.rs\<close>, \<^verbatim>\<open>crates/runtime/src/hostcall.rs\<close>).  The table of
  authorities is an association list, since the code asks for its length.  Errors of hostcalls are
  their codes; message texts are not modelled.
\<close>

section \<open>Errors of the runtime\<close>

datatype runtime_error =
    DescriptorNotFound string
  | UnknownProcessAuthority u64
  | UnknownDependency string
  | DependencyCycle
  | InvalidGrant capability
  | UnevaluatableSelector capability resource_selector
  | DuplicateDescriptor string
  | ModuleConflict string
  | UnknownModule string
  | InvalidEntrypointArgument
  | ReadinessUnsatisfied string
  | EntrypointFailed string
  | KernelFailed kernel_error
  | WasmFailed string
  | HostFailed string

section \<open>Authorities\<close>

record process_authority =
  pa_grants :: "capability_grant list"
  pa_tenant :: "string option"
  pa_parent :: "u64 option"
  pa_queues :: "u64 set"
  pa_regions :: "u64 set"

type_synonym authorities = "(u64 \<times> process_authority) list"

definition persist_process_authority ::
    "u64 \<Rightarrow> capability_grant list \<Rightarrow> string option \<Rightarrow> u64 option \<Rightarrow> authorities \<Rightarrow> authorities" where
  "persist_process_authority pid grants tenant parent auths = AList.update pid
     \<lparr>pa_grants = grants, pa_tenant = tenant, pa_parent = parent, pa_queues = {}, pa_regions = {}\<rparr> auths"

definition process_tenant :: "authorities \<Rightarrow> u64 \<Rightarrow> string option" where
  "process_tenant auths pid = (case map_of auths pid of None \<Rightarrow> None | Some a \<Rightarrow> pa_tenant a)"

text \<open>The walk up the parent chain makes one turn more than there are processes.\<close>

fun walk_parents :: "nat \<Rightarrow> authorities \<Rightarrow> u64 \<Rightarrow> u64 \<Rightarrow> bool" where
  "walk_parents 0 auths current ancestor = False"
| "walk_parents (Suc n) auths current ancestor =
    (case map_of auths current of
       None \<Rightarrow> False
     | Some a \<Rightarrow>
         if pa_parent a = Some ancestor then True
         else (case pa_parent a of None \<Rightarrow> False | Some p \<Rightarrow> walk_parents n auths p ancestor))"

definition is_descendant_of :: "authorities \<Rightarrow> u64 \<Rightarrow> u64 \<Rightarrow> bool" where
  "is_descendant_of auths target ancestor = walk_parents (length auths + 1) auths target ancestor"

definition selector_matches_children ::
    "authorities \<Rightarrow> u64 \<Rightarrow> resource_identity option \<Rightarrow> bool" where
  "selector_matches_children auths grantee target =
    (case target of Some (LocalId t) \<Rightarrow> is_descendant_of auths t grantee | _ \<Rightarrow> False)"

definition selector_admits :: "authorities \<Rightarrow> u64 \<Rightarrow> scope_context \<Rightarrow> resource_selector \<Rightarrow> bool" where
  "selector_admits auths pid c s =
    (case s of Children \<Rightarrow> selector_matches_children auths pid (sc_resource c)
     | _ \<Rightarrow> selector_matches s c)"

definition authorises :: "authorities \<Rightarrow> u64 \<Rightarrow> capability \<Rightarrow> scope_context \<Rightarrow> bool" where
  "authorises auths pid cap c =
    (case map_of auths pid of
       None \<Rightarrow> False
     | Some a \<Rightarrow> list_ex (\<lambda>g. cg_capability g = cap \<and>
         list_all (selector_admits auths pid c) (cg_selectors g)) (pa_grants a))"

definition require ::
    "authorities \<Rightarrow> u64 \<Rightarrow> capability \<Rightarrow> resource_class \<Rightarrow> resource_identity option \<Rightarrow>
     (abi_error_code, unit) result" where
  "require auths pid cap class rid =
    (if authorises auths pid cap \<lparr>sc_tenant = process_tenant auths pid, sc_uri = None,
          sc_locality = Cluster, sc_class = Some class, sc_resource = rid\<rparr>
     then Ok () else Err PermissionDenied)"

definition require_capability :: "authorities \<Rightarrow> u64 \<Rightarrow> capability \<Rightarrow> (abi_error_code, unit) result" where
  "require_capability auths pid cap =
    (if authorises auths pid cap (default_context\<lparr>sc_tenant := process_tenant auths pid\<rparr>)
     then Ok () else Err PermissionDenied)"

definition require_with_uri ::
    "authorities \<Rightarrow> u64 \<Rightarrow> capability \<Rightarrow> resource_class \<Rightarrow> resource_identity option \<Rightarrow> string \<Rightarrow>
     (abi_error_code, unit) result" where
  "require_with_uri auths pid cap class rid uri =
    (if authorises auths pid cap \<lparr>sc_tenant = process_tenant auths pid, sc_uri = Some uri,
          sc_locality = Cluster, sc_class = Some class, sc_resource = rid\<rparr>
     then Ok () else Err PermissionDenied)"

section \<open>Grants of a child\<close>

fun tenant_scoped :: "resource_selector \<Rightarrow> bool" where
  "tenant_scoped (TenantSel _) = True"
| "tenant_scoped (NamespaceSel _) = True"
| "tenant_scoped _ = False"

fun first_unevaluatable ::
    "capability \<Rightarrow> resource_selector list \<Rightarrow> resource_selector list \<Rightarrow> (runtime_error, unit) result" where
  "first_unevaluatable cap all [] = Ok ()"
| "first_unevaluatable cap all (s # ss) =
    (if \<not> is_evaluatable s all then Err (UnevaluatableSelector cap s)
     else first_unevaluatable cap all ss)"

fun validate_grants :: "capability_grant list \<Rightarrow> (runtime_error, unit) result" where
  "validate_grants [] = Ok ()"
| "validate_grants (g # gs) =
    (if cg_capability g = DelegateGrants \<and> \<not> list_ex tenant_scoped (cg_selectors g)
     then Err (InvalidGrant (cg_capability g))
     else case first_unevaluatable (cg_capability g) (cg_selectors g) (cg_selectors g) of
       Err e \<Rightarrow> Err e
     | Ok _ \<Rightarrow> validate_grants gs)"

datatype deleg_scope = RootScope | TenantsScope "string set"

fun admits_tenant :: "deleg_scope \<Rightarrow> string \<Rightarrow> bool" where
  "admits_tenant RootScope tenant = True"
| "admits_tenant (TenantsScope tenants) tenant = (tenant \<in> tenants)"

fun note_selector :: "string set \<times> bool \<Rightarrow> resource_selector \<Rightarrow> string set \<times> bool" where
  "note_selector (tenants, root) (TenantSel t) = (insert t tenants, root)"
| "note_selector (tenants, root) (NamespaceSel (TenantNs t)) = (insert t tenants, root)"
| "note_selector (tenants, root) (NamespaceSel Root) = (tenants, True)"
| "note_selector acc _ = acc"

definition delegation_scope :: "capability_grant list \<Rightarrow> deleg_scope option" where
  "delegation_scope grants =
    (case foldl (\<lambda>acc g. foldl note_selector acc (cg_selectors g)) ({}, False)
            (filter (\<lambda>g. cg_capability g = DelegateGrants) grants) of
       (tenants, root) \<Rightarrow>
         if root then Some RootScope
         else if tenants = {} then None
         else Some (TenantsScope tenants))"

fun namespace_covers :: "ns \<Rightarrow> ns \<Rightarrow> bool" where
  "namespace_covers Root child = True"
| "namespace_covers (TenantNs parent_tenant) child = (child = TenantNs parent_tenant)"

fun selector_covers :: "resource_selector \<Rightarrow> resource_selector \<Rightarrow> bool" where
  "selector_covers (TenantSel t) s = (s = TenantSel t)"
| "selector_covers (NamespaceSel n) s =
    (case s of NamespaceSel m \<Rightarrow> namespace_covers n m
     | TenantSel t \<Rightarrow> namespace_covers n (TenantNs t)
     | _ \<Rightarrow> False)"
| "selector_covers (UriPrefix p) s = (case s of UriPrefix q \<Rightarrow> starts_with q p | _ \<Rightarrow> False)"
| "selector_covers (LocalitySel l) s = (case s of LocalitySel m \<Rightarrow> locality_matches l m | _ \<Rightarrow> False)"
| "selector_covers (ClassSel c) s = (s = ClassSel c)"
| "selector_covers (ExplicitResource r) s = (s = ExplicitResource r)"
| "selector_covers Children s = (s = Children)"

definition parent_grant_covers_child :: "capability_grant \<Rightarrow> capability_grant \<Rightarrow> bool" where
  "parent_grant_covers_child parent child =
    (if cg_capability parent \<noteq> cg_capability child then False
     else list_all (\<lambda>p. list_ex (selector_covers p) (cg_selectors child)) (cg_selectors parent))"

text \<open>The selector that fences a grant into a tenant of the delegation scope.\<close>

fun fences :: "deleg_scope \<Rightarrow> resource_selector \<Rightarrow> bool" where
  "fences RootScope (TenantSel t) = True"
| "fences RootScope (NamespaceSel (TenantNs t)) = True"
| "fences (TenantsScope tenants) (TenantSel t) = (t \<in> tenants)"
| "fences (TenantsScope tenants) (NamespaceSel (TenantNs t)) = (t \<in> tenants)"
| "fences _ _ = False"

definition reserved_capabilities :: "capability set" where
  "reserved_capabilities = {DelegateGrants, MintCertificate, QuotaWrite}"

definition confers :: "capability \<Rightarrow> capability_grant list \<Rightarrow> bool" where
  "confers cap grants = list_ex (\<lambda>g. cg_capability g = cap) grants"

definition validate_child_grants ::
    "authorities \<Rightarrow> u64 \<Rightarrow> capability_grant list \<Rightarrow> (abi_error_code, unit) result" where
  "validate_child_grants auths pid grants =
    (case validate_grants grants of
       Err _ \<Rightarrow> Err MalformedPayload
     | Ok _ \<Rightarrow>
         (case map_of auths pid of
            None \<Rightarrow> Err InvalidHandle
          | Some a \<Rightarrow>
              if confers DelegateGrants grants then Err PermissionDenied
              else if confers MintCertificate grants then Err PermissionDenied
              else if confers QuotaWrite grants then Err PermissionDenied
              else if (case delegation_scope (pa_grants a) of
                   None \<Rightarrow> False
                 | Some sc \<Rightarrow> list_all (\<lambda>g. list_ex (fences sc) (cg_selectors g)) grants)
              then Ok ()
              else if list_all (\<lambda>g. list_ex (\<lambda>p. parent_grant_covers_child p g) (pa_grants a)) grants
              then Ok () else Err PermissionDenied))"

definition resolve_spawn_tenant ::
    "authorities \<Rightarrow> u64 \<Rightarrow> string option \<Rightarrow> (abi_error_code, string option) result" where
  "resolve_spawn_tenant auths pid requested =
    (case requested of
       None \<Rightarrow> Ok (process_tenant auths pid)
     | Some t \<Rightarrow>
         if process_tenant auths pid = Some t then Ok (Some t)
         else (case map_of auths pid of
           None \<Rightarrow> Err InvalidHandle
         | Some a \<Rightarrow>
             (case delegation_scope (pa_grants a) of
                Some sc \<Rightarrow> if admits_tenant sc t then Ok (Some t) else Err PermissionDenied
              | None \<Rightarrow> Err PermissionDenied)))"

definition authorize_serving_tenant ::
    "authorities \<Rightarrow> u64 \<Rightarrow> string option \<Rightarrow> (abi_error_code, string) result" where
  "authorize_serving_tenant auths pid serving =
    (case serving of
       None \<Rightarrow> Ok (case process_tenant auths pid of None \<Rightarrow> [] | Some t \<Rightarrow> t)
     | Some requested \<Rightarrow>
         if process_tenant auths pid = Some requested \<or> process_tenant auths pid = None
         then Ok requested
         else if authorises auths pid DelegateGrants (default_context\<lparr>sc_tenant := Some requested\<rparr>)
         then Ok requested
         else Err PermissionDenied)"

section \<open>The parent chain\<close>

definition parent_rel :: "authorities \<Rightarrow> (u64 \<times> u64) set" where
  "parent_rel auths = {(c, p). \<exists>a. map_of auths c = Some a \<and> pa_parent a = Some p}"

lemma parent_rel_iff: "(c, p) \<in> parent_rel auths \<longleftrightarrow> (\<exists>a. map_of auths c = Some a \<and> pa_parent a = Some p)"
  by (simp add: parent_rel_def)

lemma walk_parents_relpow:
  "walk_parents n auths t anc \<longleftrightarrow> (\<exists>k\<in>{1..n}. (t, anc) \<in> parent_rel auths ^^ k)"
proof (induction n arbitrary: t)
  case (Suc n)
  have split: "(\<exists>k\<in>{1..Suc n}. (t, anc) \<in> parent_rel auths ^^ k) \<longleftrightarrow>
      (t, anc) \<in> parent_rel auths \<or>
      (\<exists>p. (t, p) \<in> parent_rel auths \<and> (\<exists>k\<in>{1..n}. (p, anc) \<in> parent_rel auths ^^ k))"
    (is "?l \<longleftrightarrow> ?r")
  proof
    assume ?l
    then obtain k where k: "1 \<le> k" "k \<le> Suc n" "(t, anc) \<in> parent_rel auths ^^ k" by auto
    then obtain j where j: "k = Suc j" by (cases k) auto
    then obtain p where p: "(t, p) \<in> parent_rel auths" "(p, anc) \<in> parent_rel auths ^^ j"
      using k(3) relpow_Suc_D2 by metis
    show ?r using p k j by (cases "j = 0") auto
  next
    assume ?r
    then consider "(t, anc) \<in> parent_rel auths"
      | p k where "(t, p) \<in> parent_rel auths" "1 \<le> k" "k \<le> n" "(p, anc) \<in> parent_rel auths ^^ k"
      by auto
    then show ?l
    proof cases
      case 1
      then show ?thesis by (intro bexI [of _ 1]) auto
    next
      case (2 p k)
      then have "(t, anc) \<in> parent_rel auths ^^ Suc k" by (metis relpow_Suc_I2)
      then show ?thesis using 2 by (intro bexI [of _ "Suc k"]) auto
    qed
  qed
  show ?case
    unfolding split by (auto simp: Suc.IH parent_rel_iff split: option.splits)
qed simp

lemma card_parent_rel: "finite (parent_rel auths)" "card (parent_rel auths) \<le> length auths"
proof -
  let ?f = "\<lambda>(c, a). (c, the (pa_parent a))"
  have sub: "parent_rel auths \<subseteq> ?f ` set auths"
  proof
    fix e assume "e \<in> parent_rel auths"
    then obtain c p a where e: "e = (c, p)" "map_of auths c = Some a" "pa_parent a = Some p"
      by (auto simp: parent_rel_def)
    then have "(c, a) \<in> set auths" by (simp add: map_of_SomeD)
    then have "?f (c, a) \<in> ?f ` set auths" by (rule imageI)
    then show "e \<in> ?f ` set auths" using e by simp
  qed
  then show fin: "finite (parent_rel auths)" by (rule finite_subset) simp
  have "card (parent_rel auths) \<le> card (?f ` set auths)"
    using sub by (intro card_mono) simp_all
  also have "\<dots> \<le> card (set auths)" by (rule card_image_le) simp
  also have "\<dots> \<le> length auths" by (rule card_length)
  finally show "card (parent_rel auths) \<le> length auths" .
qed

lemma is_descendant_trancl: "is_descendant_of auths t anc \<longleftrightarrow> (t, anc) \<in> (parent_rel auths)\<^sup>+"
proof
  assume "is_descendant_of auths t anc"
  then obtain k where "1 \<le> k" "(t, anc) \<in> parent_rel auths ^^ k"
    unfolding is_descendant_of_def walk_parents_relpow by auto
  then show "(t, anc) \<in> (parent_rel auths)\<^sup>+"
    by (metis trancl_power less_eq_Suc_le One_nat_def)
next
  assume "(t, anc) \<in> (parent_rel auths)\<^sup>+"
  then obtain k where k: "0 < k" "k \<le> card (parent_rel auths)" "(t, anc) \<in> parent_rel auths ^^ k"
    using trancl_finite_eq_relpow [OF card_parent_rel(1) [of auths]] by auto
  then have "k \<in> {1..length auths + 1}" using card_parent_rel(2) [of auths] by simp
  then show "is_descendant_of auths t anc"
    unfolding is_descendant_of_def walk_parents_relpow using k(3) by (rule bexI [rotated])
qed

section \<open>Delegation\<close>

lemma foldl_note_selector:
  "foldl note_selector (T, r) ss =
    (T \<union> {t. TenantSel t \<in> set ss \<or> NamespaceSel (TenantNs t) \<in> set ss}, r \<or> NamespaceSel Root \<in> set ss)"
proof (induction ss arbitrary: T r)
  case (Cons s ss)
  show ?case
  proof (cases s)
    case (NamespaceSel n)
    then show ?thesis by (cases n) (auto simp: Cons.IH)
  qed (auto simp: Cons.IH)
qed simp

definition delegation_selectors :: "capability_grant list \<Rightarrow> resource_selector set" where
  "delegation_selectors grants = (\<Union>g\<in>{g \<in> set grants. cg_capability g = DelegateGrants}. set (cg_selectors g))"

lemma foldl_grants:
  "foldl (\<lambda>acc g. foldl note_selector acc (cg_selectors g)) (T, r) gs =
    (T \<union> {t. \<exists>g\<in>set gs. TenantSel t \<in> set (cg_selectors g) \<or> NamespaceSel (TenantNs t) \<in> set (cg_selectors g)},
     r \<or> (\<exists>g\<in>set gs. NamespaceSel Root \<in> set (cg_selectors g)))"
  by (induction gs arbitrary: T r) (auto simp: foldl_note_selector)

lemma delegation_scope_admits:
  "(\<exists>sc. delegation_scope grants = Some sc \<and> admits_tenant sc t) \<longleftrightarrow>
    NamespaceSel Root \<in> delegation_selectors grants \<or> TenantSel t \<in> delegation_selectors grants \<or>
    NamespaceSel (TenantNs t) \<in> delegation_selectors grants"
  unfolding delegation_scope_def foldl_grants delegation_selectors_def
  by auto

lemma fences_match:
  assumes "fences sc s" "selector_matches s c"
  shows "\<exists>t. sc_tenant c = Some t \<and> admits_tenant sc t"
  using assms by (cases "(sc, s)" rule: fences.cases) auto

lemma locality_matches_trans: "locality_matches l m \<Longrightarrow> locality_matches m a \<Longrightarrow> locality_matches l a"
  by (cases l; cases m; cases a) auto

lemma selector_covers_admits:
  assumes cov: "selector_covers p s" and adm: "selector_admits auths child c s"
    and link: "(child, parent) \<in> parent_rel auths" and uri: "sc_uri c = None"
    and root: "p \<noteq> NamespaceSel Root"
  shows "selector_admits auths parent c p"
proof (cases p)
  case (NamespaceSel n)
  then obtain t where t: "n = TenantNs t" using root by (cases n) auto
  then have "s = NamespaceSel (TenantNs t) \<or> s = TenantSel t"
    using cov NamespaceSel by (cases s) auto
  then show ?thesis using adm NamespaceSel t by (auto simp: selector_admits_def)
next
  case (UriPrefix q)
  then obtain r where "s = UriPrefix r" using cov by (cases s) auto
  then show ?thesis using adm uri by (simp add: selector_admits_def)
next
  case (LocalitySel l)
  then obtain m where "s = LocalitySel m" "locality_matches l m" using cov by (cases s) auto
  then show ?thesis using adm LocalitySel locality_matches_trans by (auto simp: selector_admits_def)
next
  case Children
  then have "selector_matches_children auths child (sc_resource c)"
    using cov adm by (simp add: selector_admits_def)
  then obtain t where t: "sc_resource c = Some (LocalId t)" "(t, child) \<in> (parent_rel auths)\<^sup>+"
    by (auto simp: selector_matches_children_def is_descendant_trancl split: option.splits resource_identity.splits)
  then have "(t, parent) \<in> (parent_rel auths)\<^sup>+" using link by (meson trancl_into_trancl)
  then show ?thesis
    using t Children by (simp add: selector_admits_def selector_matches_children_def is_descendant_trancl)
qed (use cov adm in \<open>auto simp: selector_admits_def\<close>)

lemma covers_admits:
  assumes "parent_grant_covers_child p g"
    and "\<And>s. s \<in> set (cg_selectors g) \<Longrightarrow> selector_admits auths child c s"
    and "(child, parent) \<in> parent_rel auths" "sc_uri c = None"
    and "NamespaceSel Root \<notin> set (cg_selectors p)"
  shows "cg_capability p = cg_capability g" "list_all (selector_admits auths parent c) (cg_selectors p)"
proof -
  show "cg_capability p = cg_capability g"
    using assms(1) by (auto simp: parent_grant_covers_child_def split: if_splits)
  show "list_all (selector_admits auths parent c) (cg_selectors p)"
    unfolding list_all_iff
  proof
    fix ps assume ps: "ps \<in> set (cg_selectors p)"
    then obtain s where "s \<in> set (cg_selectors g)" "selector_covers ps s"
      using assms(1) by (auto simp: parent_grant_covers_child_def list_all_iff list_ex_iff split: if_splits)
    then show "selector_admits auths parent c ps"
      using assms ps by (intro selector_covers_admits [of ps s auths child c parent]) auto
  qed
qed

lemma validate_child_grants_Ok:
  assumes "validate_child_grants auths pid grants = Ok ()"
  obtains a where "map_of auths pid = Some a"
    "\<And>g. g \<in> set grants \<Longrightarrow> cg_capability g \<notin> reserved_capabilities"
    "(\<exists>sc. delegation_scope (pa_grants a) = Some sc \<and>
        (\<forall>g\<in>set grants. \<exists>s\<in>set (cg_selectors g). fences sc s)) \<or>
     (\<forall>g\<in>set grants. \<exists>p\<in>set (pa_grants a). parent_grant_covers_child p g)"
proof -
  obtain a where a: "map_of auths pid = Some a"
    using assms by (auto simp: validate_child_grants_def split: sum.splits option.splits)
  have "cg_capability g \<notin> reserved_capabilities" if "g \<in> set grants" for g
    using assms a that
    by (auto simp: validate_child_grants_def confers_def reserved_capabilities_def list_ex_iff
        split: sum.splits if_splits)
  moreover have "(\<exists>sc. delegation_scope (pa_grants a) = Some sc \<and>
        (\<forall>g\<in>set grants. \<exists>s\<in>set (cg_selectors g). fences sc s)) \<or>
     (\<forall>g\<in>set grants. \<exists>p\<in>set (pa_grants a). parent_grant_covers_child p g)"
    using assms a
    by (auto simp: validate_child_grants_def list_all_iff list_ex_iff split: sum.splits if_splits option.splits)
  ultimately show thesis using a that by blast
qed

section \<open>Properties\<close>

text \<open>C28. The bounded walk of the parent chain decides descent: it answers whether the ancestor is
  reached from the target by one or more parent links, whatever the table holds, cycles included.  The
  bound of one turn more than there are processes therefore never cuts an answer short.\<close>

theorem descent_is_decided:
  "is_descendant_of auths target ancestor \<longleftrightarrow> (target, ancestor) \<in> (parent_rel auths)\<^sup>+"
  by (rule is_descendant_trancl)


text \<open>A parent with lifecycle authority over its children confers the same on a child.\<close>

definition sample_authorities :: authorities where
  "sample_authorities = [(1, \<lparr>pa_grants = [\<lparr>cg_capability = ProcessLifecycle,
      cg_selectors = [TenantSel ''acme'', Children]\<rparr>], pa_tenant = Some ''acme'', pa_parent = None,
      pa_queues = {}, pa_regions = {}\<rparr>),
    (3, \<lparr>pa_grants = [], pa_tenant = Some ''acme'', pa_parent = Some 2, pa_queues = {}, pa_regions = {}\<rparr>)]"

definition sample_grants :: "capability_grant list" where
  "sample_grants = [\<lparr>cg_capability = ProcessLifecycle, cg_selectors = [Children, TenantSel ''acme'']\<rparr>]"

definition sample_request :: scope_context where
  "sample_request = default_context\<lparr>sc_tenant := Some ''acme'', sc_resource := Some (LocalId 3)\<rparr>"

lemmas sample_authority_defs = sample_authorities_def sample_grants_def sample_request_def
  default_context_def persist_process_authority_def


definition port_grant :: "string \<Rightarrow> capability_grant" where
  "port_grant port = \<lparr>cg_capability = Network, cg_selectors = [ClassSel TcpStream, UriPrefix (''tcp://db:'' @ port)]\<rparr>"

definition port_request :: "string \<Rightarrow> scope_context" where
  "port_request port = default_context\<lparr>sc_uri := Some (''tcp://db:'' @ port), sc_class := Some TcpStream\<rparr>"


end
