(* ===== verification/Uri.thy ===== *)
theory Uri
  imports Abi_Scope
begin

text \<open>
  The \<^verbatim>\<open>sel://\<close> address grammar and the projection of service paths to DNS wire names
  (\<^verbatim>\<open>crates/abi/src/uri.rs\<close>).
\<close>

definition SEL_PREFIX :: string where "SEL_PREFIX = ''sel://''"

section \<open>Hosts and domains\<close>

definition normalize_host :: "string \<Rightarrow> string" where
  "normalize_host h =
    (let lowered = to_lowercase (trim h);
         host = (case strip_suffix lowered ''.'' of None \<Rightarrow> lowered | Some x \<Rightarrow> x)
     in case rsplit_once CHR '':'' host of
          Some (name, port) \<Rightarrow> if list_all is_digit port \<and> name \<noteq> [] then name else host
        | None \<Rightarrow> host)"

type_synonym domain_table = "string \<rightharpoonup> string"

definition domain_seed :: "string \<Rightarrow> string \<Rightarrow> domain_table \<Rightarrow> domain_table" where
  "domain_seed domain tenant t = t(normalize_host domain \<mapsto> tenant)"

section \<open>Parsing\<close>

definition is_class_segment :: "string \<Rightarrow> bool" where
  "is_class_segment seg \<longleftrightarrow> from_uri_segment seg \<noteq> None"

definition is_dns_safe_label :: "string \<Rightarrow> bool" where
  "is_dns_safe_label seg \<longleftrightarrow> seg \<noteq> [] \<and> length seg \<le> 63 \<and> \<not> starts_with seg ''-'' \<and>
     \<not> ends_with seg ''-'' \<and> list_all (\<lambda>c. is_lower c \<or> is_digit c \<or> c = CHR ''-'') seg"

definition parse_sel :: "string \<Rightarrow> (string \<times> string) option" where
  "parse_sel uri = (case strip_prefix uri SEL_PREFIX of
     None \<Rightarrow> None
   | Some rest \<Rightarrow>
       let (tenant, path) = (case split_once CHR ''/'' rest of None \<Rightarrow> (rest, []) | Some tp \<Rightarrow> tp)
       in Some (tenant, trim_matches CHR ''/'' path))"

definition is_root_uri :: "string \<Rightarrow> bool" where
  "is_root_uri uri \<longleftrightarrow> (case parse_sel uri of Some (tenant, _) \<Rightarrow> tenant = [] | None \<Rightarrow> False)"

definition parse_alias :: "string \<Rightarrow> (string \<times> string) option" where
  "parse_alias uri = (case parse_sel uri of
     None \<Rightarrow> None
   | Some (tenant, path) \<Rightarrow>
       if path = [] \<or> CHR ''/'' \<in> set path then None
       else if is_class_segment path then None
       else Some (tenant, path))"

definition parse_typed :: "string \<Rightarrow> (string \<times> resource_class \<times> u64) option" where
  "parse_typed uri = (case parse_sel uri of
     None \<Rightarrow> None
   | Some (tenant, path) \<Rightarrow>
       (case split_once CHR ''/'' path of
          None \<Rightarrow> None
        | Some (class_seg, id_seg) \<Rightarrow>
            if id_seg = [] \<or> CHR ''/'' \<in> set id_seg then None
            else (case from_uri_segment class_seg of
              None \<Rightarrow> None
            | Some cls \<Rightarrow> map_option (\<lambda>i. (tenant, cls, i)) (parse_u64 id_seg))))"

definition resource_uri :: "string \<Rightarrow> resource_class \<Rightarrow> u64 \<Rightarrow> string" where
  "resource_uri tenant cls i =
    SEL_PREFIX @ tenant @ ''/'' @ uri_segment cls @ ''/'' @ show_u64 i"

definition wildcard_prefix :: "string \<Rightarrow> string option" where
  "wildcard_prefix path =
    map_option (trim_end_matches CHR ''/'') (strip_suffix (trim_end_matches CHR ''/'' path) ''*'')"

section \<open>Wire names\<close>

definition labels_from_path :: "string \<Rightarrow> string list option" where
  "labels_from_path p =
    (let path = trim_matches CHR ''/'' p
     in if path = [] then None
        else let segs = rev (split_on CHR ''/'' path)
          in if list_ex (\<lambda>s. is_class_segment s \<or> \<not> is_dns_safe_label s) segs then None
             else Some segs)"

definition path_from_labels :: "string list \<Rightarrow> string option" where
  "path_from_labels labels =
    (if labels = [] then None
     else if list_ex (\<lambda>l. \<not> is_dns_safe_label l) labels then None
     else Some (join ''/'' (rev labels)))"

definition domain_match :: "domain_table \<Rightarrow> string list \<Rightarrow> (string \<times> nat) option" where
  "domain_match domains labels =
    find_map (\<lambda>start.
      map_option (\<lambda>tenant. (tenant, start)) (domains (join ''.'' (drop start labels))))
      [0..<length labels]"

definition resolve_wire_name :: "string \<Rightarrow> domain_table \<Rightarrow> (string \<times> string list) option" where
  "resolve_wire_name name0 domains =
    (let name = normalize_host name0
     in if name = [] then None
        else
          let labels = split_on CHR ''.'' name;
              (tenant, remaining_len) = (case domain_match domains labels of
                 Some m \<Rightarrow> m
               | None \<Rightarrow> if length labels > 1 then (last labels, length labels - 1) else ([], 1));
              remaining = take remaining_len labels
          in if remaining = [] then Some (tenant, [])
             else if list_ex (\<lambda>l. \<not> is_dns_safe_label l) remaining then None
             else Some (tenant, rev remaining))"

section \<open>Facts\<close>

lemma trim_matches_clean:
  assumes "s \<noteq> []" "hd s \<noteq> c" "last s \<noteq> c"
  shows "trim_matches c s = s"
proof -
  have "trim_start_matches c s = s"
    using assms(1,2) by (cases s) (simp_all add: trim_start_matches_def)
  moreover have "trim_end_matches c s = s"
    using assms(1,3) by (cases s rule: rev_cases) (simp_all add: trim_end_matches_def)
  ultimately show ?thesis by (simp add: trim_matches_def)
qed

lemma strip_prefix_append [simp]: "strip_prefix (p @ s) p = Some s"
  by (simp add: strip_prefix_def)

lemma show_u64_digits: "show_u64 i \<noteq> []" "CHR ''/'' \<notin> set (show_u64 i)"
  using dec_digits_correct [of "unat i"] dec_digits_no_slash by (auto simp: show_u64_def)

lemma uri_segment_not_Nil [simp]: "uri_segment c \<noteq> []"
  by (cases c) simp_all

lemma parse_sel_resource_uri:
  assumes "CHR ''/'' \<notin> set tenant"
  shows "parse_sel (resource_uri tenant cls i) = Some (tenant, uri_segment cls @ ''/'' @ show_u64 i)"
proof -
  have "hd (uri_segment cls) \<noteq> CHR ''/''" "last (show_u64 i) \<noteq> CHR ''/''"
    using uri_segment_no_slash [of cls] show_u64_digits [of i]
    by (metis hd_in_set uri_segment_not_Nil, metis last_in_set)
  then have "trim_matches CHR ''/'' (uri_segment cls @ ''/'' @ show_u64 i)
      = uri_segment cls @ ''/'' @ show_u64 i"
    using show_u64_digits(1) [of i] by (intro trim_matches_clean) simp_all
  then show ?thesis
    using assms split_once_append [of "CHR ''/''" tenant "uri_segment cls @ ''/'' @ show_u64 i"]
    by (simp add: parse_sel_def resource_uri_def)
qed

lemma parse_typed_resource_uri:
  assumes "CHR ''/'' \<notin> set tenant"
  shows "parse_typed (resource_uri tenant cls i) = Some (tenant, cls, i)"
  using split_once_append [OF uri_segment_no_slash, of cls "show_u64 i"] show_u64_digits [of i]
    from_uri_segment_iff [of "uri_segment cls" cls] parse_show_u64 [of i]
  by (simp add: parse_typed_def parse_sel_resource_uri [OF assms] show_u64_def)

text \<open>A typed resource URI parses back to its tenant, class and identity, for every tenant name
  without a slash.\<close>

theorem typed_uri_round_trip:
  assumes "CHR ''/'' \<notin> set tenant"
  shows "parse_typed (resource_uri tenant cls i) = Some (tenant, cls, i)"
  using assms by (rule parse_typed_resource_uri)

theorem typed_uri_round_trip_witness:
  "parse_typed (resource_uri ''acme'' SharedRegion 42) = Some (''acme'', SharedRegion, 42)"
  by (rule typed_uri_round_trip) simp

text \<open>Leaf aliases and typed resource addresses are disjoint: no URI parses as both, and an
  alias never carries the name of a resource class.\<close>

theorem alias_never_shadows_resource:
  "parse_alias uri = None \<or> (parse_typed uri = None \<and>
     (\<forall>cls. snd (the (parse_alias uri)) \<noteq> uri_segment cls))"
  by (auto simp: parse_alias_def parse_typed_def is_class_segment_def split_once_Some_iff
      from_uri_segment_iff split: option.splits if_splits prod.splits)

lemma dns_safe_no_sep: "is_dns_safe_label l \<Longrightarrow> CHR ''/'' \<notin> set l \<and> CHR ''.'' \<notin> set l \<and> l \<noteq> []"
  by (auto simp: is_dns_safe_label_def list_all_iff is_lower_def is_digit_def)

text \<open>Projecting a service path to DNS labels loses nothing: the labels join back to the path
  without its outer slashes, and they are exactly the path's segments in reverse order.\<close>

theorem path_projection_round_trip:
  assumes "labels_from_path path = Some labels"
  shows "path_from_labels labels = Some (trim_matches CHR ''/'' path) \<and>
    labels = rev (split_on CHR ''/'' (trim_matches CHR ''/'' path)) \<and>
    (\<forall>l\<in>set labels. is_dns_safe_label l \<and> \<not> is_class_segment l)"
proof -
  let ?p = "trim_matches CHR ''/'' path"
  from assms have labels: "labels = rev (split_on CHR ''/'' ?p)"
    and safe: "\<forall>l\<in>set labels. is_dns_safe_label l \<and> \<not> is_class_segment l"
    by (auto simp: labels_from_path_def Let_def list_ex_iff split: if_splits)
  then have "path_from_labels labels = Some (join ''/'' (split_on CHR ''/'' ?p))"
    by (auto simp: path_from_labels_def list_ex_iff)
  then show ?thesis using labels safe by simp
qed

theorem path_projection_round_trip_witness:
  "path_from_labels [''prod'', ''http''] = Some (trim_matches CHR ''/'' ''/http/prod'')"
proof -
  have "labels_from_path ''/http/prod'' = Some [''prod'', ''http'']"
    by (simp add: labels_from_path_def trim_matches_def trim_start_matches_def trim_end_matches_def
        is_class_segment_def from_uri_segment_def is_dns_safe_label_def starts_with_def ends_with_def
        suffix_def is_lower_def is_digit_def)
  then show ?thesis by (rule path_projection_round_trip [THEN conjunct1])
qed

lemma lower_id: "list_all (\<lambda>c. is_lower c \<or> is_digit c \<or> c = CHR ''-'' \<or> c = CHR ''.'') s \<Longrightarrow> to_lowercase s = s"
  by (induction s) (auto simp: to_lowercase_def lower_char_def is_lower_def is_digit_def)

lemma host_chars_not_space: "is_lower c \<or> is_digit c \<or> c = CHR ''-'' \<or> c = CHR ''.'' \<Longrightarrow> \<not> is_space c \<and> c \<noteq> CHR '':''"
  by (auto simp: is_lower_def is_digit_def is_space_def)

lemma trim_id: "s \<noteq> [] \<Longrightarrow> \<not> is_space (hd s) \<Longrightarrow> \<not> is_space (last s) \<Longrightarrow> trim s = s"
proof -
  assume "s \<noteq> []" "\<not> is_space (hd s)" "\<not> is_space (last s)"
  moreover from this have "dropWhile is_space s = s" by (cases s) simp_all
  ultimately show ?thesis by (cases s rule: rev_cases) (simp_all add: trim_def)
qed

lemma normalize_host_id:
  assumes "list_all (\<lambda>c. is_lower c \<or> is_digit c \<or> c = CHR ''-'' \<or> c = CHR ''.'') s"
    "s \<noteq> []" "last s \<noteq> CHR ''.''"
  shows "normalize_host s = s"
proof -
  have ns: "\<not> is_space c \<and> c \<noteq> CHR '':''" if "c \<in> set s" for c
    using assms(1) that host_chars_not_space [of c] by (auto simp: list_all_iff)
  then have t: "trim s = s"
    using assms(2) by (intro trim_id) simp_all
  have "strip_suffix s ''.'' = None"
    using assms(2,3) by (auto simp: strip_suffix_def suffix_def)
  moreover have "rsplit_once CHR '':'' s = None"
    using ns by (auto simp: rsplit_once_def split_once_None_iff)
  ultimately show ?thesis
    using t lower_id [OF assms(1)] by (simp add: normalize_host_def)
qed

lemma join_dots_chars:
  "\<forall>l\<in>set ls. is_dns_safe_label l \<Longrightarrow>
    list_all (\<lambda>c. is_lower c \<or> is_digit c \<or> c = CHR ''-'' \<or> c = CHR ''.'') (join ''.'' ls)"
  by (induction "''.''" ls rule: join.induct) (auto simp: is_dns_safe_label_def list_all_iff)

lemma join_not_Nil: "ls \<noteq> [] \<Longrightarrow> \<forall>l\<in>set ls. l \<noteq> [] \<Longrightarrow> join sep ls \<noteq> []"
  by (induction sep ls rule: join.induct) auto

lemma last_join: "ls \<noteq> [] \<Longrightarrow> \<forall>l\<in>set ls. l \<noteq> [] \<Longrightarrow> last (join sep ls) = last (last ls)"
proof (induction sep ls rule: join.induct)
  case (3 sep w v ws)
  then show ?case using join_not_Nil [of "v # ws" sep] by simp
qed simp_all

text \<open>A wire name made of DNS-safe labels resolves under its own final label when no domain is
  provisioned for any of its suffixes: the other labels, reversed, are the service path. A service
  path under a tenant therefore comes back from its synthetic wire name.\<close>

theorem synthetic_wire_name_resolves:
  assumes "\<forall>l\<in>set (rev segs @ [tenant]). is_dns_safe_label l" "segs \<noteq> []"
    and "\<And>start. start \<le> length segs \<Longrightarrow> domains (join ''.'' (drop start (rev segs @ [tenant]))) = None"
  shows "resolve_wire_name (join ''.'' (rev segs @ [tenant])) domains = Some (tenant, segs)"
proof -
  let ?ls = "rev segs @ [tenant]" and ?n = "join ''.'' (rev segs @ [tenant])"
  have safe: "\<forall>l\<in>set ?ls. CHR ''.'' \<notin> set l \<and> l \<noteq> []"
    using assms(1) dns_safe_no_sep by blast
  have nn: "?n \<noteq> []" using safe by (intro join_not_Nil) auto
  have "last ?n = last tenant" using safe last_join [of ?ls "''.''"] by simp
  then have "last ?n \<noteq> CHR ''.''" using safe by (metis in_set_conv_decomp last_in_set)
  then have norm: "normalize_host ?n = ?n"
    using join_dots_chars [OF assms(1)] nn by (intro normalize_host_id)
  have split: "split_on CHR ''.'' ?n = ?ls" using safe by (intro split_on_join) auto
  have "domain_match domains ?ls = None"
    using assms(3) by (simp add: domain_match_def find_map_None_iff less_Suc_eq_le del: drop_append)
  then show ?thesis
    using assms(1,2) nn
    by (auto simp: resolve_wire_name_def norm split Let_def list_ex_iff)
qed

theorem synthetic_wire_name_resolves_witness:
  "resolve_wire_name (join ''.'' (rev [''http'', ''prod''] @ [''acme''])) Map.empty
    = Some (''acme'', [''http'', ''prod''])"
  by (rule synthetic_wire_name_resolves)
     (simp_all add: is_dns_safe_label_def starts_with_def ends_with_def suffix_def is_lower_def is_digit_def)

end
