(* ===== verification/Quota.thy ===== *)
theory Quota
  imports Kernel_Ids
begin

text \<open>
  The tenant-scoped quota table of the host (\<^verbatim>\<open>crates/kernel/src/quota.rs\<close>).  The table is a map
  from tenant and resource class to a ceiling and the usage recorded against it.  The locale
  \<open>quota_ledger\<close> states what allocation paths rely on; it is interpreted on the table below, and
  the refinement to a ledger of unbounded natural numbers is proved from it.
\<close>

section \<open>The table\<close>

record quota_state =
  qs_limit :: u64
  qs_used :: u64

type_synonym quota_key = "string \<times> resource_class"
type_synonym quota_table = "quota_key \<Rightarrow> quota_state option"

definition default_quota :: quota_state where
  "default_quota = \<lparr>qs_limit = u64_max, qs_used = 0\<rparr>"

definition quota_new :: quota_table where
  "quota_new = (\<lambda>_. None)"

definition quota_entry :: "quota_table \<Rightarrow> quota_key \<Rightarrow> quota_state" where
  "quota_entry q k = (case q k of None \<Rightarrow> default_quota | Some st \<Rightarrow> st)"

definition quota_set :: "string \<Rightarrow> resource_class \<Rightarrow> u64 \<Rightarrow> quota_table \<Rightarrow> quota_table" where
  "quota_set tenant class limit q =
    q((tenant, class) \<mapsto> (quota_entry q (tenant, class))\<lparr>qs_limit := limit\<rparr>)"

definition quota_clear :: "string \<Rightarrow> resource_class \<Rightarrow> quota_table \<Rightarrow> quota_table" where
  "quota_clear tenant class q = q((tenant, class) := None)"

definition quota_lookup :: "quota_table \<Rightarrow> string \<Rightarrow> resource_class \<Rightarrow> u64 option" where
  "quota_lookup q tenant class = map_option qs_limit (q (tenant, class))"

definition quota_used :: "quota_table \<Rightarrow> string \<Rightarrow> resource_class \<Rightarrow> u64" where
  "quota_used q tenant class = (case q (tenant, class) of None \<Rightarrow> 0 | Some st \<Rightarrow> qs_used st)"

definition try_consume ::
    "string \<Rightarrow> resource_class \<Rightarrow> u64 \<Rightarrow> (quota_table, kernel_error, unit) comp" where
  "try_consume tenant class amount q =
    (if tenant = [] then (Ok (), q)
     else
       let st = quota_entry q (tenant, class);
           remaining = saturating_sub (qs_limit st) (qs_used st)
       in if amount > remaining
          then (Err (QuotaExceededE tenant class), q((tenant, class) \<mapsto> st))
          else (Ok (), q((tenant, class) \<mapsto> st\<lparr>qs_used := saturating_add (qs_used st) amount\<rparr>)))"

definition force_consume :: "string \<Rightarrow> resource_class \<Rightarrow> u64 \<Rightarrow> quota_table \<Rightarrow> quota_table" where
  "force_consume tenant class amount q =
    (if tenant = [] then q
     else
       let st = quota_entry q (tenant, class)
       in q((tenant, class) \<mapsto> st\<lparr>qs_used := saturating_add (qs_used st) amount\<rparr>))"

definition quota_release :: "string \<Rightarrow> resource_class \<Rightarrow> u64 \<Rightarrow> quota_table \<Rightarrow> quota_table" where
  "quota_release tenant class amount q =
    (if tenant = [] then q
     else case q (tenant, class) of
       None \<Rightarrow> q
     | Some st \<Rightarrow> q((tenant, class) \<mapsto> st\<lparr>qs_used := saturating_sub (qs_used st) amount\<rparr>))"

section \<open>Usage and ceiling\<close>

definition ceiling_of :: "quota_table \<Rightarrow> quota_key \<Rightarrow> nat" where
  "ceiling_of q k = unat (qs_limit (quota_entry q k))"

definition usage_of :: "quota_table \<Rightarrow> quota_key \<Rightarrow> nat" where
  "usage_of q k = unat (qs_used (quota_entry q k))"

lemmas quota_defs = ceiling_of_def usage_of_def quota_entry_def default_quota_def

section \<open>What an allocation path relies on\<close>

text \<open>
  A request reserves an amount for a key or returns one.  \<^verbatim>\<open>run_requests\<close> issues them in order, and
  \<^verbatim>\<open>ledger\<close> is the same bookkeeping over natural numbers for one key, with its ceiling fixed.
\<close>

datatype 'k quota_request = Reserve 'k u64 | Return 'k u64

fun run_requests ::
    "('k \<Rightarrow> u64 \<Rightarrow> 'q \<Rightarrow> bool \<times> 'q) \<Rightarrow> ('k \<Rightarrow> u64 \<Rightarrow> 'q \<Rightarrow> 'q) \<Rightarrow> 'k quota_request list \<Rightarrow> 'q \<Rightarrow> 'q" where
  "run_requests reserve give [] q = q"
| "run_requests reserve give (Reserve k a # rs) q = run_requests reserve give rs (snd (reserve k a q))"
| "run_requests reserve give (Return k a # rs) q = run_requests reserve give rs (give k a q)"

fun ledger :: "'k \<Rightarrow> nat \<Rightarrow> 'k quota_request list \<Rightarrow> nat \<Rightarrow> nat" where
  "ledger k cap [] u = u"
| "ledger k cap (Reserve k' a # rs) u =
    ledger k cap rs (if k' = k \<and> unat a \<le> cap - u then u + unat a else u)"
| "ledger k cap (Return k' a # rs) u = ledger k cap rs (if k' = k then u - unat a else u)"

lemma ledger_within: "u \<le> cap \<Longrightarrow> ledger k cap rs u \<le> cap"
  by (induction k cap rs u rule: ledger.induct) auto

locale quota_ledger =
  fixes metered :: "'k \<Rightarrow> bool"
    and usage ceiling :: "'q \<Rightarrow> 'k \<Rightarrow> nat"
    and reserve :: "'k \<Rightarrow> u64 \<Rightarrow> 'q \<Rightarrow> bool \<times> 'q"
    and give :: "'k \<Rightarrow> u64 \<Rightarrow> 'q \<Rightarrow> 'q"
  assumes reserve_decides: "metered k \<Longrightarrow> fst (reserve k a q) \<longleftrightarrow> unat a \<le> ceiling q k - usage q k"
    and reserve_usage:
      "metered k' \<Longrightarrow> usage (snd (reserve k a q)) k' =
        (if k' = k \<and> fst (reserve k a q) then usage q k' + unat a else usage q k')"
    and reserve_ceiling: "ceiling (snd (reserve k a q)) = ceiling q"
    and give_usage:
      "metered k' \<Longrightarrow> usage (give k a q) k' = (if k' = k then usage q k' - unat a else usage q k')"
    and give_ceiling: "ceiling (give k a q) = ceiling q"
begin

lemma run_ceiling: "ceiling (run_requests reserve give rs q) = ceiling q"
proof (induction rs arbitrary: q)
  case (Cons r rs)
  then show ?case by (cases r) (simp_all add: reserve_ceiling give_ceiling)
qed simp

lemma run_refines:
  assumes "metered k"
  shows "usage (run_requests reserve give rs q) k = ledger k (ceiling q k) rs (usage q k)"
proof (induction rs arbitrary: q)
  case (Cons r rs)
  show ?case
  proof (cases r)
    case (Reserve k' a)
    then show ?thesis
      using Cons [of "snd (reserve k' a q)"] reserve_decides [OF assms, of a q] assms
      by (auto simp: reserve_usage reserve_ceiling)
  next
    case (Return k' a)
    then show ?thesis using Cons [of "give k' a q"] assms by (auto simp: give_usage give_ceiling)
  qed
qed simp

lemma run_within:
  assumes "metered k" and "usage q k \<le> ceiling q k"
  shows "usage (run_requests reserve give rs q) k \<le> ceiling (run_requests reserve give rs q) k"
  by (simp add: run_refines [OF assms(1)] run_ceiling ledger_within [OF assms(2)])

end

text \<open>The metered tenants are those with a name; the empty name is the unmetered platform tenant.\<close>

definition metered_key :: "quota_key \<Rightarrow> bool" where
  "metered_key k \<longleftrightarrow> fst k \<noteq> []"

definition reserve_key :: "quota_key \<Rightarrow> u64 \<Rightarrow> quota_table \<Rightarrow> bool \<times> quota_table" where
  "reserve_key k a q = (case try_consume (fst k) (snd k) a q of (r, q') \<Rightarrow> (r = Ok (), q'))"

definition return_key :: "quota_key \<Rightarrow> u64 \<Rightarrow> quota_table \<Rightarrow> quota_table" where
  "return_key k a q = quota_release (fst k) (snd k) a q"

lemma try_consume_ceiling: "ceiling_of (snd (try_consume t c a q)) = ceiling_of q"
  by (rule ext) (auto simp: try_consume_def quota_defs Let_def split: option.splits)

lemma try_consume_usage:
  assumes "t \<noteq> []"
  shows "usage_of (snd (try_consume t c a q)) k =
    (if k = (t, c) \<and> unat a \<le> ceiling_of q k - usage_of q k then usage_of q k + unat a else usage_of q k)"
proof (cases "unat a \<le> ceiling_of q (t, c) - usage_of q (t, c)")
  case True
  then have le: "a \<le> saturating_sub (qs_limit (quota_entry q (t, c))) (qs_used (quota_entry q (t, c)))"
    by (simp add: word_le_nat_alt unat_saturating_sub ceiling_of_def usage_of_def)
  have fits: "usage_of q (t, c) + unat a < 2 ^ 64"
    using True unat_u64_lt [of "qs_limit (quota_entry q (t, c))"]
      unat_u64_lt [of "qs_used (quota_entry q (t, c))"]
    by (auto simp: ceiling_of_def usage_of_def)
  have "unat (saturating_add (qs_used (quota_entry q (t, c))) a) = usage_of q (t, c) + unat a"
    using fits by (simp add: unat_saturating_add usage_of_def)
  then show ?thesis using True le assms
    by (auto simp: try_consume_def Let_def usage_of_def quota_entry_def)
next
  case False
  then have "\<not> a \<le> saturating_sub (qs_limit (quota_entry q (t, c))) (qs_used (quota_entry q (t, c)))"
    by (simp add: word_le_nat_alt unat_saturating_sub ceiling_of_def usage_of_def)
  then show ?thesis using False assms
    by (auto simp: try_consume_def Let_def usage_of_def quota_entry_def)
qed

lemma try_consume_Ok_iff:
  assumes "t \<noteq> []"
  shows "fst (try_consume t c a q) = Ok () \<longleftrightarrow> unat a \<le> ceiling_of q (t, c) - usage_of q (t, c)"
  using assms
  by (auto simp: try_consume_def Let_def word_le_nat_alt unat_saturating_sub ceiling_of_def usage_of_def
        not_less word_less_nat_alt)

lemma release_usage:
  assumes "t \<noteq> []"
  shows "usage_of (quota_release t c a q) k = (if k = (t, c) then usage_of q k - unat a else usage_of q k)"
  using assms by (auto simp: quota_release_def quota_defs unat_saturating_sub split: option.splits)

lemma release_ceiling: "ceiling_of (quota_release t c a q) = ceiling_of q"
  by (rule ext) (auto simp: quota_release_def quota_defs split: option.splits)

lemma platform_tenant [simp]:
  "try_consume [] c a q = (Ok (), q)"
  "quota_release [] c a q = q"
  "force_consume [] c a q = q"
  by (simp_all add: try_consume_def quota_release_def force_consume_def)

lemma reserve_key_simps:
  "fst (reserve_key (t, c) a q) \<longleftrightarrow> fst (try_consume t c a q) = Ok ()"
  "snd (reserve_key (t, c) a q) = snd (try_consume t c a q)"
  by (simp_all add: reserve_key_def split: prod.splits)

interpretation qt: quota_ledger metered_key usage_of ceiling_of reserve_key return_key
proof unfold_locales
  fix k k' :: quota_key and a and q :: quota_table
  obtain t c where k: "k = (t, c)" by (cases k)
  show "metered_key k \<Longrightarrow> fst (reserve_key k a q) \<longleftrightarrow> unat a \<le> ceiling_of q k - usage_of q k"
    by (simp add: k reserve_key_simps metered_key_def try_consume_Ok_iff)
  show "metered_key k' \<Longrightarrow> usage_of (snd (reserve_key k a q)) k' =
      (if k' = k \<and> fst (reserve_key k a q) then usage_of q k' + unat a else usage_of q k')"
    by (cases "t = []") (auto simp: k reserve_key_simps metered_key_def try_consume_usage
         try_consume_Ok_iff)
  show "ceiling_of (snd (reserve_key k a q)) = ceiling_of q"
    by (simp add: k reserve_key_simps try_consume_ceiling)
  show "metered_key k' \<Longrightarrow> usage_of (return_key k a q) k' =
      (if k' = k then usage_of q k' - unat a else usage_of q k')"
    by (cases "t = []") (auto simp: k return_key_def metered_key_def release_usage)
  show "ceiling_of (return_key k a q) = ceiling_of q"
    by (simp add: return_key_def release_ceiling)
qed

section \<open>Properties\<close>



text \<open>
   Re-authoring a ceiling keeps live usage, clearing it does not.  \<^verbatim>\<open>set\<close> preserves the usage
  recorded before, as the table's documentation requires.  \<^verbatim>\<open>clear\<close> removes the counter: whatever the
  tenant holds at that moment is forgotten, so a ceiling authored afterwards admits its full extent
  again on top of what is still held.
\<close>

theorem clear_forgets_live_usage:
  assumes "tenant \<noteq> []"
  shows "usage_of (quota_set tenant class limit q) (tenant, class) = usage_of q (tenant, class) \<and>
    fst (try_consume tenant class limit (quota_set tenant class limit (quota_clear tenant class q))) = Ok ()"
  using assms
  by (simp_all add: quota_set_def quota_clear_def quota_defs try_consume_Ok_iff)

theorem clear_forgets_live_usage_witness:
  "let q = snd (try_consume ''acme'' SharedRegion 65536 quota_new)
   in usage_of q (''acme'', SharedRegion) = 65536 \<and>
      usage_of (quota_set ''acme'' SharedRegion 65536 q) (''acme'', SharedRegion) = 65536 \<and>
      fst (try_consume ''acme'' SharedRegion 65536
        (quota_set ''acme'' SharedRegion 65536 (quota_clear ''acme'' SharedRegion q))) = Ok ()"
proof -
  let ?q = "snd (try_consume ''acme'' SharedRegion 65536 quota_new)"
  have u: "usage_of ?q (''acme'', SharedRegion) = 65536"
    by (simp add: try_consume_def Let_def quota_new_def quota_defs saturating_sub_def saturating_add_def)
  show ?thesis unfolding Let_def
    using u clear_forgets_live_usage [of "''acme''" SharedRegion 65536 ?q] by simp
qed

text \<open>A reservation alone makes \<^verbatim>\<open>lookup\<close> report a ceiling nobody authored.\<close>

lemma lookup_after_reservation:
  "tenant \<noteq> [] \<Longrightarrow> quota_lookup (snd (try_consume tenant class amount quota_new)) tenant class = Some u64_max"
  by (auto simp: quota_lookup_def try_consume_def quota_new_def quota_defs Let_def)

end
