(* ===== verification/Memory_Registry.thy ===== *)
theory Memory_Registry
  imports Kernel_Ids Ring_Delivery "HOL-Library.AList"
begin

text \<open>
  The kernel's registry of shared regions (\<^verbatim>\<open>crates/kernel/src/memory.rs\<close>) and the mapping backend
  built on it (\<^verbatim>\<open>crates/kernel/src/backend.rs\<close>).  The bytes live in the WebAssembly engine's store,
  which is not part of the repository: it is the parameter \<open>region_engine\<close>, and what the registry
  relies on is the predicate \<open>engine_ok\<close>.  Hash maps that are iterated are association lists, the
  others are partial functions.
\<close>

section \<open>The engine\<close>

record ('st, 'rid) region_engine =
  re_allocate :: "u32 \<Rightarrow> ('st, string, 'rid) comp"
  re_len :: "'rid \<Rightarrow> 'st \<Rightarrow> (string, u32) result"
  re_destroy :: "'rid \<Rightarrow> ('st, string, unit) comp"
  re_read :: "'rid \<Rightarrow> u64 \<Rightarrow> nat \<Rightarrow> 'st \<Rightarrow> (string, u8 list) result"
  re_write :: "'rid \<Rightarrow> u64 \<Rightarrow> u8 list \<Rightarrow> ('st, string, unit) comp"
  re_notify :: "'rid \<Rightarrow> u64 \<Rightarrow> u32 \<Rightarrow> ('st, string, u32) comp"
  re_wait :: "'rid \<Rightarrow> u64 \<Rightarrow> u64 \<Rightarrow> ('st, string, wait_outcome) comp"

text \<open>
  Documented behaviour of the engine's regions: a live region has a length below \<open>2 ^ 32\<close> and
  bytes, in-range accesses succeed, a write changes the bytes it covers and nothing else.
\<close>

definition engine_ok ::
    "('st, 'rid) region_engine \<Rightarrow> ('st \<Rightarrow> 'rid \<Rightarrow> nat option) \<Rightarrow> ('st \<Rightarrow> 'rid \<Rightarrow> bytemap) \<Rightarrow>
     ('rid \<Rightarrow> nat \<Rightarrow> u8 list \<Rightarrow> 'st \<Rightarrow> 'st) \<Rightarrow> bool" where
  "engine_ok en rlen rbytes rput \<longleftrightarrow>
    (\<forall>st rid n. rlen st rid = Some n \<longrightarrow> n < 2 ^ 32 \<and> re_len en rid st = Ok (of_nat n)) \<and>
    (\<forall>st rid n a k. rlen st rid = Some n \<longrightarrow> unat a + k \<le> n \<longrightarrow>
       re_read en rid a k st = Ok (bytes_at (rbytes st rid) (unat a) k)) \<and>
    (\<forall>st rid n a bs. rlen st rid = Some n \<longrightarrow> unat a + length bs \<le> n \<longrightarrow>
       re_write en rid a bs st = (Ok (), rput rid (unat a) bs st)) \<and>
    (\<forall>st rid n i bs. rlen st rid = Some n \<longrightarrow> i + length bs \<le> n \<longrightarrow>
       rlen (rput rid i bs st) = rlen st \<and>
       rbytes (rput rid i bs st) = (rbytes st)(rid := upd_bytes (rbytes st rid) i bs))"

section \<open>The registry\<close>

record 'rid mapping_state =
  ms_region :: 'rid
  ms_shared :: u64

record ('st, 'rid) memory_registry =
  mr_store :: 'st
  mr_regions :: "u64 \<Rightarrow> 'rid option"
  mr_mappings :: "(u64 \<times> 'rid mapping_state) list"
  mr_next_local :: u64
  mr_next_shared :: u64
  mr_seed :: u64

definition mr_new :: "'st \<Rightarrow> u64 \<Rightarrow> ('st, 'rid) memory_registry" where
  "mr_new st seed = \<lparr>mr_store = st, mr_regions = (\<lambda>_. None), mr_mappings = [], mr_next_local = 0,
     mr_next_shared = 0, mr_seed = seed\<rparr>"

definition next_local_id :: "('st, 'rid) memory_registry \<Rightarrow> u64 \<times> ('st, 'rid) memory_registry" where
  "next_local_id m =
    (case next_id (mr_seed m) (mr_next_local m) of (ident, c) \<Rightarrow> (ident, m\<lparr>mr_next_local := c\<rparr>))"

definition next_shared_id :: "('st, 'rid) memory_registry \<Rightarrow> u64 \<times> ('st, 'rid) memory_registry" where
  "next_shared_id m =
    (case next_id (mr_seed m) (mr_next_shared m) of (ident, c) \<Rightarrow> (ident, m\<lparr>mr_next_shared := c\<rparr>))"

definition region_of ::
    "u64 \<Rightarrow> ('st, 'rid) memory_registry \<Rightarrow> (kernel_error, 'rid) result" where
  "region_of shared m = ok_or (mr_regions m shared) (NotFoundE (''shared region '' @ show_u64 shared))"

definition allocate_shared_region ::
    "('st, 'rid) region_engine \<Rightarrow> u32 \<Rightarrow> (('st, 'rid) memory_registry, kernel_error, u64 \<times> u32) comp" where
  "allocate_shared_region en n m =
    (case re_allocate en n (mr_store m) of
       (Err e, st) \<Rightarrow> (Err (WasmE e), m\<lparr>mr_store := st\<rparr>)
     | (Ok rid, st) \<Rightarrow>
         let (shared, m') = next_shared_id (m\<lparr>mr_store := st\<rparr>)
         in (case re_len en rid (mr_store m') of
              Err e \<Rightarrow> (Err (WasmE e), m')
            | Ok l \<Rightarrow> (Ok (shared, l), m'\<lparr>mr_regions := (mr_regions m')(shared \<mapsto> rid)\<rparr>)))"

definition attach_shared_region ::
    "u64 \<Rightarrow> (('st, 'rid) memory_registry, kernel_error, u64) comp" where
  "attach_shared_region shared m =
    (case region_of shared m of
       Err e \<Rightarrow> (Err e, m)
     | Ok rid \<Rightarrow>
         let (local, m') = next_local_id m
         in (Ok local, m'\<lparr>mr_mappings :=
               AList.update local \<lparr>ms_region = rid, ms_shared = shared\<rparr> (mr_mappings m')\<rparr>))"

definition shared_region_mapping_count :: "u64 \<Rightarrow> ('st, 'rid) memory_registry \<Rightarrow> nat" where
  "shared_region_mapping_count shared m =
    length (filter (\<lambda>(_, ms). ms_shared ms = shared) (mr_mappings m))"

definition destroy_shared_region ::
    "('st, 'rid) region_engine \<Rightarrow> u64 \<Rightarrow> (('st, 'rid) memory_registry, kernel_error, unit) comp" where
  "destroy_shared_region en shared m =
    (if shared_region_mapping_count shared m > 0
     then (Err (WasmE ''shared region still has attached mappings''), m)
     else case region_of shared m of
       Err e \<Rightarrow> (Err e, m)
     | Ok rid \<Rightarrow>
         (case re_destroy en rid (mr_store m) of
            (Err e, st) \<Rightarrow> (Err (WasmE e), m\<lparr>mr_store := st\<rparr>)
          | (Ok _, st) \<Rightarrow>
              (Ok (), m\<lparr>mr_store := st, mr_regions := (mr_regions m)(shared := None)\<rparr>)))"

definition shared_mapping ::
    "u64 \<Rightarrow> ('st, 'rid) memory_registry \<Rightarrow> (kernel_error, 'rid mapping_state) result" where
  "shared_mapping local m =
    ok_or (map_of (mr_mappings m) local) (NotFoundE (''shared mapping '' @ show_u64 local))"

definition detach_shared_region ::
    "u64 \<Rightarrow> (('st, 'rid) memory_registry, kernel_error, unit) comp" where
  "detach_shared_region local m =
    (case shared_mapping local m of
       Err e \<Rightarrow> (Err e, m)
     | Ok _ \<Rightarrow> (Ok (), m\<lparr>mr_mappings := AList.delete local (mr_mappings m)\<rparr>))"

definition detach_all_shared_mappings ::
    "u64 \<Rightarrow> ('st, 'rid) memory_registry \<Rightarrow> ('st, 'rid) memory_registry" where
  "detach_all_shared_mappings shared m =
    m\<lparr>mr_mappings := filter (\<lambda>(_, ms). ms_shared ms \<noteq> shared) (mr_mappings m)\<rparr>"

definition shared_region_len ::
    "('st, 'rid) region_engine \<Rightarrow> u64 \<Rightarrow> ('st, 'rid) memory_registry \<Rightarrow> (kernel_error, u32) result" where
  "shared_region_len en shared m =
    (case region_of shared m of
       Err e \<Rightarrow> Err e
     | Ok rid \<Rightarrow> (case re_len en rid (mr_store m) of Err e \<Rightarrow> Err (WasmE e) | Ok l \<Rightarrow> Ok l))"

section \<open>Access through a mapping\<close>

definition on_store ::
    "('st, string, 'a) comp \<Rightarrow> (('st, 'rid) memory_registry, kernel_error, 'a) comp" where
  "on_store f m =
    (case f (mr_store m) of
       (Err e, st) \<Rightarrow> (Err (WasmE e), m\<lparr>mr_store := st\<rparr>)
     | (Ok a, st) \<Rightarrow> (Ok a, m\<lparr>mr_store := st\<rparr>))"

definition read_shared_memory ::
    "('st, 'rid) region_engine \<Rightarrow> u64 \<Rightarrow> u64 \<Rightarrow> nat \<Rightarrow> (('st, 'rid) memory_registry, kernel_error, u8 list) comp" where
  "read_shared_memory en local offset n m =
    (case shared_mapping local m of
       Err e \<Rightarrow> (Err e, m)
     | Ok ms \<Rightarrow> on_store (\<lambda>st. (re_read en (ms_region ms) offset n st, st)) m)"

definition write_shared_memory ::
    "('st, 'rid) region_engine \<Rightarrow> u64 \<Rightarrow> u64 \<Rightarrow> u8 list \<Rightarrow> (('st, 'rid) memory_registry, kernel_error, unit) comp" where
  "write_shared_memory en local offset bytes m =
    (case shared_mapping local m of
       Err e \<Rightarrow> (Err e, m)
     | Ok ms \<Rightarrow> on_store (re_write en (ms_region ms) offset bytes) m)"

definition fetch_add_shared_memory_u64 ::
    "('st, 'rid) region_engine \<Rightarrow> u64 \<Rightarrow> u64 \<Rightarrow> u64 \<Rightarrow> (('st, 'rid) memory_registry, kernel_error, u64) comp" where
  "fetch_add_shared_memory_u64 en local offset value m =
    (case shared_mapping local m of
       Err e \<Rightarrow> (Err e, m)
     | Ok ms \<Rightarrow> on_store (\<lambda>st.
         case re_read en (ms_region ms) offset 8 st of
           Err e \<Rightarrow> (Err e, st)
         | Ok bytes \<Rightarrow>
             let previous = from_le bytes; new = previous + value
             in (case re_write en (ms_region ms) offset (to_le 8 new) st of
                  (Err e, st') \<Rightarrow> (Err e, st')
                | (Ok _, st') \<Rightarrow> (Ok previous, st'))) m)"

definition compare_exchange_shared_memory_u64 ::
    "('st, 'rid) region_engine \<Rightarrow> u64 \<Rightarrow> u64 \<Rightarrow> u64 \<Rightarrow> u64 \<Rightarrow> (('st, 'rid) memory_registry, kernel_error, u64) comp" where
  "compare_exchange_shared_memory_u64 en local offset current new m =
    (case shared_mapping local m of
       Err e \<Rightarrow> (Err e, m)
     | Ok ms \<Rightarrow> on_store (\<lambda>st.
         case re_read en (ms_region ms) offset 8 st of
           Err e \<Rightarrow> (Err e, st)
         | Ok bytes \<Rightarrow>
             let previous = from_le bytes
             in if previous = current
                then case re_write en (ms_region ms) offset (to_le 8 new) st of
                       (Err e, st') \<Rightarrow> (Err e, st')
                     | (Ok _, st') \<Rightarrow> (Ok previous, st')
                else (Ok previous, st)) m)"

definition notify_region ::
    "('st, 'rid) region_engine \<Rightarrow> u64 \<Rightarrow> u64 \<Rightarrow> u32 \<Rightarrow> (('st, 'rid) memory_registry, kernel_error, u32) comp" where
  "notify_region en shared offset count m =
    (case region_of shared m of
       Err e \<Rightarrow> (Err e, m)
     | Ok rid \<Rightarrow> on_store (re_notify en rid offset count) m)"

section \<open>The kernel backend\<close>

fun show_class :: "resource_class \<Rightarrow> string" where
  "show_class SharedRegion = ''SharedRegion''"
| "show_class SharedMapping = ''SharedMapping''"
| "show_class SignalClass = ''Signal''"
| "show_class TcpListener = ''TcpListener''"
| "show_class TcpStream = ''TcpStream''"
| "show_class UdpSocket = ''UdpSocket''"
| "show_class DurableLog = ''DurableLog''"
| "show_class BlobStore = ''BlobStore''"
| "show_class ProcessClass = ''Process''"
| "show_class ActivityLog = ''ActivityLog''"
| "show_class MeteringStream = ''MeteringStream''"
| "show_class GuestLog = ''GuestLog''"
| "show_class HostQueueClass = ''HostQueue''"
| "show_class Cpu = ''Cpu''"

fun show_kernel_error :: "kernel_error \<Rightarrow> string" where
  "show_kernel_error (NotFoundE what) = ''resource not found: '' @ what"
| "show_kernel_error TimeoutE = ''signal wait timed out''"
| "show_kernel_error AlreadyCompletedE = ''request exchange already has a response''"
| "show_kernel_error (ProcessStoppedE pid) = ''process already stopped: '' @ show_u64 pid"
| "show_kernel_error (QuotaExceededE tenant class) =
    ''quota exceeded for tenant '' @ tenant @ '' on '' @ show_class class"
| "show_kernel_error (WasmE msg) = ''wasmtiny runtime error: '' @ msg"

definition mem_other :: "kernel_error \<Rightarrow> memory_error" where
  "mem_other e = MemOther (show_kernel_error e)"

record kernel_backend =
  kb_local :: u64
  kb_shared :: u64
  kb_base :: u64
  kb_size :: u64

definition kb_offset :: "kernel_backend \<Rightarrow> u64 \<Rightarrow> (memory_error, u64) result" where
  "kb_offset b offset = ok_or (checked_add offset (kb_base b)) MemCapacityExceeded"

definition kb_read ::
    "('st, 'rid) region_engine \<Rightarrow> kernel_backend \<Rightarrow> u64 \<Rightarrow> u64 \<Rightarrow>
     (('st, 'rid) memory_registry, memory_error, u8 list) comp" where
  "kb_read en b offset n = bindR (lift_result (kb_offset b offset))
     (\<lambda>o'. map_err mem_other (read_shared_memory en (kb_local b) o' (unat n)))"

definition kb_write ::
    "('st, 'rid) region_engine \<Rightarrow> kernel_backend \<Rightarrow> u64 \<Rightarrow> u8 list \<Rightarrow>
     (('st, 'rid) memory_registry, memory_error, unit) comp" where
  "kb_write en b offset bytes = bindR (lift_result (kb_offset b offset))
     (\<lambda>o'. map_err mem_other (write_shared_memory en (kb_local b) o' bytes))"

definition kb_load ::
    "('st, 'rid) region_engine \<Rightarrow> kernel_backend \<Rightarrow> u64 \<Rightarrow>
     (('st, 'rid) memory_registry, memory_error, u64) comp" where
  "kb_load en b offset = bindR (kb_read en b offset 8)
     (\<lambda>bytes. if length bytes = 8 then ret (from_le bytes) else fail MemInvalidLayout)"

definition kb_store ::
    "('st, 'rid) region_engine \<Rightarrow> kernel_backend \<Rightarrow> u64 \<Rightarrow> u64 \<Rightarrow>
     (('st, 'rid) memory_registry, memory_error, unit) comp" where
  "kb_store en b offset value = kb_write en b offset (to_le 8 value)"

definition kb_fetch_add ::
    "('st, 'rid) region_engine \<Rightarrow> kernel_backend \<Rightarrow> u64 \<Rightarrow> u64 \<Rightarrow>
     (('st, 'rid) memory_registry, memory_error, u64) comp" where
  "kb_fetch_add en b offset value = bindR (lift_result (kb_offset b offset))
     (\<lambda>o'. map_err mem_other (fetch_add_shared_memory_u64 en (kb_local b) o' value))"

definition kb_cas ::
    "('st, 'rid) region_engine \<Rightarrow> kernel_backend \<Rightarrow> u64 \<Rightarrow> u64 \<Rightarrow> u64 \<Rightarrow>
     (('st, 'rid) memory_registry, memory_error, u64) comp" where
  "kb_cas en b offset current new = bindR (lift_result (kb_offset b offset))
     (\<lambda>o'. map_err mem_other (compare_exchange_shared_memory_u64 en (kb_local b) o' current new))"

definition kb_notify ::
    "('st, 'rid) region_engine \<Rightarrow> kernel_backend \<Rightarrow> u64 \<Rightarrow> u32 \<Rightarrow>
     (('st, 'rid) memory_registry, memory_error, u32) comp" where
  "kb_notify en b offset count = bindR (lift_result (kb_offset b offset))
     (\<lambda>o'. map_err mem_other (notify_region en (kb_shared b) o' count))"

text \<open>
  Waiting uses the engine's waiter registry, the path every platform has: register, re-check the
  word, park.  An unbounded wait is repeated until the waiter is woken.
\<close>

definition kb_wait32 ::
    "('st, 'rid) region_engine \<Rightarrow> kernel_backend \<Rightarrow> u64 \<Rightarrow> u32 \<Rightarrow> u64 \<Rightarrow>
     (('st, 'rid) memory_registry, memory_error, unit) comp" where
  "kb_wait32 en b offset expected timeout_ms = bindR (lift_result (kb_offset b offset))
     (\<lambda>o'. bindR (map_err mem_other (\<lambda>m. (region_of (kb_shared b) m, m)))
     (\<lambda>rid. bindR (map_err mem_other (read_shared_memory en (kb_local b) o' 4))
     (\<lambda>bytes.
        if length bytes \<noteq> 4 then fail MemInvalidLayout
        else if (from_le bytes :: u32) \<noteq> expected then ret ()
        else bindR (map_err mem_other (on_store (re_wait en rid o' timeout_ms)))
          (\<lambda>outcome. if outcome = TimedOut \<and> timeout_ms \<noteq> u64_max
             then fail (MemOther ''wait32 timed out'') else ret ()))))"

definition kb_sub_region :: "kernel_backend \<Rightarrow> u64 \<Rightarrow> u64 \<Rightarrow> (memory_error, kernel_backend) result" where
  "kb_sub_region b offset n =
    (case checked_add offset n of
       None \<Rightarrow> Err MemCapacityExceeded
     | Some e \<Rightarrow>
         if e > kb_size b then Err MemIndexOutOfBounds
         else bind_result (kb_offset b offset) (\<lambda>base. Ok (b\<lparr>kb_base := base, kb_size := n\<rparr>)))"

definition kernel_ops ::
    "('st, 'rid) region_engine \<Rightarrow> kernel_backend \<Rightarrow> ('st, 'rid) memory_registry mapping_backend" where
  "kernel_ops en b =
    \<lparr>mb_size = kb_size b, mb_read = kb_read en b, mb_write = kb_write en b, mb_load = kb_load en b,
     mb_store = kb_store en b, mb_fetch_add = kb_fetch_add en b, mb_cas = kb_cas en b,
     mb_notify = kb_notify en b, mb_wait32 = kb_wait32 en b\<rparr>"

definition attach_backend ::
    "('st, 'rid) region_engine \<Rightarrow> u64 \<Rightarrow> (('st, 'rid) memory_registry, kernel_error, kernel_backend) comp" where
  "attach_backend en shared = bindR (attach_shared_region shared)
     (\<lambda>local m. case shared_region_len en shared m of
        Err e \<Rightarrow> (Err e, m)
      | Ok l \<Rightarrow> (Ok \<lparr>kb_local = local, kb_shared = shared, kb_base = 0, kb_size = ucast l\<rparr>, m))"

definition allocate_backend ::
    "('st, 'rid) region_engine \<Rightarrow> u32 \<Rightarrow> (('st, 'rid) memory_registry, kernel_error, kernel_backend \<times> u64) comp" where
  "allocate_backend en n = bindR (allocate_shared_region en n)
     (\<lambda>(shared, l). bindR (attach_shared_region shared)
     (\<lambda>local. ret (\<lparr>kb_local = local, kb_shared = shared, kb_base = 0, kb_size = ucast l\<rparr>, shared)))"

section \<open>The kernel backend meets the mapping contract\<close>

definition kb_view :: "('st \<Rightarrow> 'rid \<Rightarrow> bytemap) \<Rightarrow> 'rid \<Rightarrow> kernel_backend \<Rightarrow> ('st, 'rid) memory_registry \<Rightarrow> bytemap" where
  "kb_view rbytes rid b m = (\<lambda>i. rbytes (mr_store m) rid (unat (kb_base b) + i))"

definition kb_put ::
    "('rid \<Rightarrow> nat \<Rightarrow> u8 list \<Rightarrow> 'st \<Rightarrow> 'st) \<Rightarrow> 'rid \<Rightarrow> kernel_backend \<Rightarrow> nat \<Rightarrow> u8 list \<Rightarrow>
     ('st, 'rid) memory_registry \<Rightarrow> ('st, 'rid) memory_registry" where
  "kb_put rput rid b i bs m = m\<lparr>mr_store := rput rid (unat (kb_base b) + i) bs (mr_store m)\<rparr>"

definition kb_good ::
    "('st, 'rid) region_engine \<Rightarrow> ('st \<Rightarrow> 'rid \<Rightarrow> nat option) \<Rightarrow> ('st \<Rightarrow> 'rid \<Rightarrow> bytemap) \<Rightarrow>
     ('rid \<Rightarrow> nat \<Rightarrow> u8 list \<Rightarrow> 'st \<Rightarrow> 'st) \<Rightarrow> 'rid \<Rightarrow> kernel_backend \<Rightarrow> ('st, 'rid) memory_registry \<Rightarrow> bool" where
  "kb_good en rlen rbytes rput rid b m \<longleftrightarrow>
    engine_ok en rlen rbytes rput \<and>
    map_option ms_region (map_of (mr_mappings m) (kb_local b)) = Some rid \<and>
    (case rlen (mr_store m) rid of None \<Rightarrow> False | Some n \<Rightarrow> unat (kb_base b) + unat (kb_size b) \<le> n)"

lemma kb_goodE:
  assumes "kb_good en rlen rbytes rput rid b m"
  obtains ms n where "shared_mapping (kb_local b) m = Ok ms" "ms_region ms = rid"
    "rlen (mr_store m) rid = Some n" "n < 2 ^ 32" "unat (kb_base b) + unat (kb_size b) \<le> n"
    "engine_ok en rlen rbytes rput"
  using assms
  by (auto simp: kb_good_def shared_mapping_def engine_ok_def split: option.splits)

lemma kb_offset_ok:
  assumes "unat (kb_base b) + unat (kb_size b) \<le> n" "n < 2 ^ 32" "unat a + k \<le> unat (kb_size b)"
  shows "kb_offset b a = Ok (a + kb_base b)" "unat (a + kb_base b) = unat (kb_base b) + unat a"
proof -
  have lt: "unat a + unat (kb_base b) < 2 ^ 64" using assms by simp
  then show "kb_offset b a = Ok (a + kb_base b)" by (simp add: kb_offset_def checked_add_def)
  show "unat (a + kb_base b) = unat (kb_base b) + unat a" using lt by simp
qed

lemma engine_read:
  "engine_ok en rlen rbytes rput \<Longrightarrow> rlen st rid = Some n \<Longrightarrow> unat a + k \<le> n \<Longrightarrow>
   re_read en rid a k st = Ok (bytes_at (rbytes st rid) (unat a) k)"
  by (simp add: engine_ok_def)

lemma engine_write:
  "engine_ok en rlen rbytes rput \<Longrightarrow> rlen st rid = Some n \<Longrightarrow> unat a + length bs \<le> n \<Longrightarrow>
   re_write en rid a bs st = (Ok (), rput rid (unat a) bs st)"
  by (simp add: engine_ok_def)

lemma bytes_at_kb_view [mem_simps]:
  "bytes_at (kb_view rbytes rid b m) i n = bytes_at (rbytes (mr_store m) rid) (unat (kb_base b) + i) n"
  by (rule nth_equalityI) (simp_all add: kb_view_def add.assoc)

lemma u64_at_kb_view [mem_simps]:
  "u64_at (kb_view rbytes rid b m) i = u64_at (rbytes (mr_store m) rid) (unat (kb_base b) + i)"
  by (simp add: u64_at_def bytes_at_kb_view)

lemma kb_read_ok:
  assumes "kb_good en rlen rbytes rput rid b m" "unat a + unat n \<le> unat (kb_size b)"
  shows "kb_read en b a n m = (Ok (bytes_at (kb_view rbytes rid b m) (unat a) (unat n)), m)"
proof -
  obtain ms l where ms: "shared_mapping (kb_local b) m = Ok ms" "ms_region ms = rid"
      "rlen (mr_store m) rid = Some l" "l < 2 ^ 32" "unat (kb_base b) + unat (kb_size b) \<le> l"
      "engine_ok en rlen rbytes rput"
    using assms(1) by (rule kb_goodE)
  note off = kb_offset_ok [OF ms(5,4) assms(2)]
  have "unat (a + kb_base b) + unat n \<le> l" using off(2) assms(2) ms(5) by simp
  then show ?thesis
    using ms engine_read [OF ms(6,3), of "a + kb_base b" "unat n"] off
    by (simp add: kb_read_def read_shared_memory_def on_store_def mem_simps)
qed

lemma kb_write_ok:
  assumes "kb_good en rlen rbytes rput rid b m" "unat a + length bs \<le> unat (kb_size b)"
  shows "kb_write en b a bs m = (Ok (), kb_put rput rid b (unat a) bs m)"
proof -
  obtain ms l where ms: "shared_mapping (kb_local b) m = Ok ms" "ms_region ms = rid"
      "rlen (mr_store m) rid = Some l" "l < 2 ^ 32" "unat (kb_base b) + unat (kb_size b) \<le> l"
      "engine_ok en rlen rbytes rput"
    using assms(1) by (rule kb_goodE)
  note off = kb_offset_ok [OF ms(5,4) assms(2)]
  have "unat (a + kb_base b) + length bs \<le> l" using off(2) assms(2) ms(5) by simp
  then show ?thesis
    using ms engine_write [OF ms(6,3), of "a + kb_base b" bs] off
    by (simp add: kb_write_def write_shared_memory_def on_store_def kb_put_def)
qed

lemma kb_rmw_ok:
  assumes "kb_good en rlen rbytes rput rid b m" "unat a + 8 \<le> unat (kb_size b)"
  shows "kb_fetch_add en b a v m = (Ok (u64_at (kb_view rbytes rid b m) (unat a)),
      kb_put rput rid b (unat a) (to_le 8 (u64_at (kb_view rbytes rid b m) (unat a) + v)) m)"
    and "kb_cas en b a cur new m = (Ok (u64_at (kb_view rbytes rid b m) (unat a)),
      if u64_at (kb_view rbytes rid b m) (unat a) = cur
      then kb_put rput rid b (unat a) (to_le 8 new) m else m)"
proof -
  obtain ms l where ms: "shared_mapping (kb_local b) m = Ok ms" "ms_region ms = rid"
      "rlen (mr_store m) rid = Some l" "l < 2 ^ 32" "unat (kb_base b) + unat (kb_size b) \<le> l"
      "engine_ok en rlen rbytes rput"
    using assms(1) by (rule kb_goodE)
  note off = kb_offset_ok [OF ms(5,4) assms(2)]
  have le: "unat (a + kb_base b) + 8 \<le> l" using off(2) assms(2) ms(5) by simp
  then have w: "re_write en rid (a + kb_base b) (to_le 8 x) (mr_store m) =
      (Ok (), rput rid (unat (a + kb_base b)) (to_le 8 x) (mr_store m))" for x :: u64
    by (intro engine_write [OF ms(6,3)]) simp
  have r: "re_read en rid (a + kb_base b) 8 (mr_store m) =
      Ok (bytes_at (rbytes (mr_store m) rid) (unat (a + kb_base b)) 8)"
    by (rule engine_read [OF ms(6,3) le])
  show "kb_fetch_add en b a v m = (Ok (u64_at (kb_view rbytes rid b m) (unat a)),
      kb_put rput rid b (unat a) (to_le 8 (u64_at (kb_view rbytes rid b m) (unat a) + v)) m)"
    using ms w r off
    by (simp add: kb_fetch_add_def fetch_add_shared_memory_u64_def on_store_def kb_put_def Let_def
          mem_simps u64_at_def)
  show "kb_cas en b a cur new m = (Ok (u64_at (kb_view rbytes rid b m) (unat a)),
      if u64_at (kb_view rbytes rid b m) (unat a) = cur
      then kb_put rput rid b (unat a) (to_le 8 new) m else m)"
    using ms w r off
    by (simp add: kb_cas_def compare_exchange_shared_memory_u64_def on_store_def kb_put_def Let_def
          mem_simps u64_at_def)
qed

lemma engine_put:
  "engine_ok en rlen rbytes rput \<Longrightarrow> rlen st rid = Some n \<Longrightarrow> i + length bs \<le> n \<Longrightarrow>
   rlen (rput rid i bs st) = rlen st"
  "engine_ok en rlen rbytes rput \<Longrightarrow> rlen st rid = Some n \<Longrightarrow> i + length bs \<le> n \<Longrightarrow>
   rbytes (rput rid i bs st) = (rbytes st)(rid := upd_bytes (rbytes st rid) i bs)"
  by (simp_all add: engine_ok_def)

lemma kb_put_ok:
  assumes "kb_good en rlen rbytes rput rid b m" "i + length bs \<le> unat (kb_size b)"
  shows "kb_view rbytes rid b (kb_put rput rid b i bs m) = upd_bytes (kb_view rbytes rid b m) i bs"
    and "kb_good en rlen rbytes rput rid b (kb_put rput rid b i bs m)"
proof -
  obtain ms l where ms: "shared_mapping (kb_local b) m = Ok ms" "ms_region ms = rid"
      "rlen (mr_store m) rid = Some l" "l < 2 ^ 32" "unat (kb_base b) + unat (kb_size b) \<le> l"
      "engine_ok en rlen rbytes rput"
    using assms(1) by (rule kb_goodE)
  have "unat (kb_base b) + i + length bs \<le> l" using assms(2) ms(5) by simp
  note put = engine_put [OF ms(6,3) this]
  show "kb_view rbytes rid b (kb_put rput rid b i bs m) = upd_bytes (kb_view rbytes rid b m) i bs"
    by (rule ext) (auto simp: kb_view_def kb_put_def put(2) upd_bytes_def)
  show "kb_good en rlen rbytes rput rid b (kb_put rput rid b i bs m)"
    using assms(1) by (simp add: kb_good_def kb_put_def put(1))
qed

interpretation kb: mapping_laws "kernel_ops en b" "kb_view rbytes rid b" "kb_put rput rid b"
    "kb_good en rlen rbytes rput rid b" "unat (kb_size b)"
  for en :: "('st, 'rid) region_engine" and rlen rbytes rput rid b
proof (unfold_locales, goal_cases)
  case 1
  show ?case by (rule unat_u64_lt)
next
  case (2 s a n)
  then show ?case by (simp add: kernel_ops_def kb_read_ok)
next
  case (3 s a bs)
  then show ?case by (simp add: kernel_ops_def kb_write_ok)
next
  case (4 s a)
  then show ?case by (simp add: kernel_ops_def kb_load_def kb_read_ok u64_at_def)
next
  case (5 s a v)
  then show ?case by (simp add: kernel_ops_def kb_store_def kb_write_ok)
next
  case (6 s a v)
  then show ?case by (simp add: kernel_ops_def kb_rmw_ok)
next
  case (7 s i bs)
  then show ?case by (simp add: kb_put_ok)
next
  case (8 s i bs)
  then show ?case by (simp add: kb_put_ok)
next
  case (9 s a cur new)
  then show ?case by (simp add: kernel_ops_def kb_rmw_ok)
qed

section \<open>Invariant of the registry\<close>

text \<open>
  \<^verbatim>\<open>registry_run en n m\<close>: the registry reached state \<open>m\<close> by any interleaving of its operations, in
  which at most \<open>n\<close> shared identifiers were issued (queues, logs and blob stores take theirs from
  the same counter).
\<close>

inductive registry_run :: "('st, 'rid) region_engine \<Rightarrow> nat \<Rightarrow> ('st, 'rid) memory_registry \<Rightarrow> bool"
  for en where
  boot: "registry_run en 0 (mr_new st seed)"
| allocate: "registry_run en n m \<Longrightarrow> allocate_shared_region en sz m = (r, m') \<Longrightarrow> registry_run en (Suc n) m'"
| issue: "registry_run en n m \<Longrightarrow> next_shared_id m = (i, m') \<Longrightarrow> registry_run en (Suc n) m'"
| issue_local: "registry_run en n m \<Longrightarrow> next_local_id m = (i, m') \<Longrightarrow> registry_run en n m'"
| attach: "registry_run en n m \<Longrightarrow> attach_shared_region sid m = (r, m') \<Longrightarrow> registry_run en n m'"
| detach: "registry_run en n m \<Longrightarrow> detach_shared_region lid m = (r, m') \<Longrightarrow> registry_run en n m'"
| detach_all: "registry_run en n m \<Longrightarrow> registry_run en n (detach_all_shared_mappings sid m)"
| destroy: "registry_run en n m \<Longrightarrow> destroy_shared_region en sid m = (r, m') \<Longrightarrow> registry_run en n m'"
| access: "registry_run en n m \<Longrightarrow> registry_run en n (m\<lparr>mr_store := st\<rparr>)"

definition no_dangling :: "('st, 'rid) memory_registry \<Rightarrow> bool" where
  "no_dangling m \<longleftrightarrow> list_all (\<lambda>(_, ms). mr_regions m (ms_shared ms) = Some (ms_region ms)) (mr_mappings m)"

definition ids_issued :: "nat \<Rightarrow> ('st, 'rid) memory_registry \<Rightarrow> bool" where
  "ids_issued n m \<longleftrightarrow> (\<exists>k\<le>n. snd (take_ids (mr_seed m) 0 k) = mr_next_shared m \<and>
     dom (mr_regions m) \<subseteq> set (fst (take_ids (mr_seed m) 0 k)))"

lemma ids_issued_mono: "ids_issued n m \<Longrightarrow> n \<le> n' \<Longrightarrow> ids_issued n' m"
  by (auto simp: ids_issued_def intro: le_trans)

lemma next_shared_id_issued:
  assumes "ids_issued n m" "Suc n < 2 ^ 64" "next_shared_id m = (i, m')"
  shows "ids_issued (Suc n) m'" "mr_regions m i = None" "m' = m\<lparr>mr_next_shared := mr_next_shared m'\<rparr>"
    "ids_issued (Suc n) (m'\<lparr>mr_regions := (mr_regions m')(i \<mapsto> rid)\<rparr>)"
proof -
  obtain k where k: "k \<le> n" "snd (take_ids (mr_seed m) 0 k) = mr_next_shared m"
      "dom (mr_regions m) \<subseteq> set (fst (take_ids (mr_seed m) 0 k))"
    using assms(1) by (auto simp: ids_issued_def)
  obtain c where c: "next_id (mr_seed m) (mr_next_shared m) = (i, c)" "m' = m\<lparr>mr_next_shared := c\<rparr>"
    using assms(3) by (auto simp: next_shared_id_def split: prod.splits)
  have lt: "k + 1 < 2 ^ 64" using k(1) assms(2) by simp
  have nid: "next_id (mr_seed m) (snd (take_ids (mr_seed m) 0 k)) = (i, c)" using c(1) k(2) by simp
  note fresh = take_ids_fresh [OF lt nid]
  show "mr_regions m i = None" using fresh(1) k(3) by blast
  show "m' = m\<lparr>mr_next_shared := mr_next_shared m'\<rparr>" using c(2) by simp
  show "ids_issued (Suc n) m'"
    unfolding ids_issued_def using k fresh(2) c(2)
    by (intro exI [of _ "Suc k"]) (auto simp del: take_ids.simps)
  show "ids_issued (Suc n) (m'\<lparr>mr_regions := (mr_regions m')(i \<mapsto> rid)\<rparr>)"
    unfolding ids_issued_def using k fresh(2) c(2)
    by (intro exI [of _ "Suc k"]) (auto simp del: take_ids.simps)
qed

lemma mapping_count_zero:
  "shared_region_mapping_count sid m = 0 \<longleftrightarrow> list_all (\<lambda>(_, ms). ms_shared ms \<noteq> sid) (mr_mappings m)"
  by (auto simp: shared_region_mapping_count_def list_all_iff filter_empty_conv)

lemma set_alist_update: "set (AList.update k v al) \<subseteq> insert (k, v) (set al)"
  by (induction al) auto

lemma set_alist_delete: "set (AList.delete k al) \<subseteq> set al"
  by (auto simp: AList.delete_eq)

lemma no_dangling_allocate:
  assumes "no_dangling m" "ids_issued n m" "Suc n < 2 ^ 64" "allocate_shared_region en sz m = (r, m')"
  shows "no_dangling m' \<and> ids_issued (Suc n) m'"
proof (cases "re_allocate en sz (mr_store m)")
  case (Pair res st)
  let ?m = "m\<lparr>mr_store := st\<rparr>"
  have m: "no_dangling ?m" "ids_issued n ?m" using assms(1,2) by (simp_all add: no_dangling_def ids_issued_def)
  show ?thesis
  proof (cases res)
    case (Inl e)
    then show ?thesis using Pair assms(4) m ids_issued_mono [OF m(2), of "Suc n"]
      by (auto simp: allocate_shared_region_def)
  next
    case (Inr rid)
    obtain i m1 where i: "next_shared_id ?m = (i, m1)" by (cases "next_shared_id ?m")
    note iss = next_shared_id_issued [OF m(2) assms(3) i]
    have eq: "m1 = ?m\<lparr>mr_next_shared := mr_next_shared m1\<rparr>" by (rule iss(3))
    have maps: "mr_mappings m1 = mr_mappings m" "mr_regions m1 = mr_regions m" by (subst eq, simp)+
    have nd1: "no_dangling m1" using m(1) maps by (simp add: no_dangling_def)
    have nd2: "no_dangling (m1\<lparr>mr_regions := (mr_regions m1)(i \<mapsto> rid)\<rparr>)"
      using nd1 iss(2) maps by (fastforce simp: no_dangling_def list_all_iff)
    show ?thesis
    proof (cases "re_len en rid (mr_store m1)")
      case (Inl e)
      then show ?thesis using Pair Inr i assms(4) nd1 iss(1)
        by (auto simp: allocate_shared_region_def)
    next
      case len: (Inr l)
      have "m' = m1\<lparr>mr_regions := (mr_regions m1)(i \<mapsto> rid)\<rparr>"
        using Pair Inr i assms(4) len by (auto simp: allocate_shared_region_def)
      then show ?thesis using nd2 iss(4) [of rid] by simp
    qed
  qed
qed

lemma registry_run_inv:
  "registry_run en n m \<Longrightarrow> n < 2 ^ 64 \<Longrightarrow> no_dangling m \<and> ids_issued n m"
proof (induction rule: registry_run.induct)
  case (boot st seed)
  show ?case by (auto simp: no_dangling_def ids_issued_def mr_new_def)
next
  case (allocate n m sz r m')
  then show ?case using no_dangling_allocate [of m n en sz r m'] by simp
next
  case (issue n m i m')
  then have "ids_issued n m" "Suc n < 2 ^ 64" by auto
  note iss = next_shared_id_issued [OF this issue.hyps(2)]
  have "mr_mappings m' = mr_mappings m" "mr_regions m' = mr_regions m" by (subst iss(3), simp)+
  then show ?case using issue iss(1) by (simp add: no_dangling_def)
next
  case (issue_local n m i m')
  then show ?case by (auto simp: next_local_id_def no_dangling_def ids_issued_def split: prod.splits)
next
  case (attach n m sid r m')
  show ?case
  proof (cases "mr_regions m sid")
    case None
    then show ?thesis using attach by (simp add: attach_shared_region_def region_of_def)
  next
    case (Some rid)
    obtain l c where l: "next_id (mr_seed m) (mr_next_local m) = (l, c)" by fastforce
    have m': "m' = m\<lparr>mr_next_local := c, mr_mappings :=
        AList.update l \<lparr>ms_region = rid, ms_shared = sid\<rparr> (mr_mappings m)\<rparr>"
      using attach.hyps(2) Some l
      by (auto simp: attach_shared_region_def region_of_def next_local_id_def)
    have "no_dangling m'"
      using attach Some set_alist_update [of l "\<lparr>ms_region = rid, ms_shared = sid\<rparr>" "mr_mappings m"]
      by (fastforce simp: m' no_dangling_def list_all_iff)
    then show ?thesis using attach by (simp add: m' ids_issued_def)
  qed
next
  case (detach n m lid r m')
  then have "m' = m \<or> m' = m\<lparr>mr_mappings := AList.delete lid (mr_mappings m)\<rparr>"
    by (auto simp: detach_shared_region_def shared_mapping_def ok_or_def split: option.splits)
  moreover have "list_all P (mr_mappings m) \<Longrightarrow> list_all P (AList.delete lid (mr_mappings m))" for P
    using set_alist_delete [of lid "mr_mappings m"] by (auto simp: list_all_iff)
  ultimately show ?case using detach by (auto simp: no_dangling_def ids_issued_def)
next
  case (detach_all n m sid)
  then show ?case by (auto simp: detach_all_shared_mappings_def no_dangling_def ids_issued_def list_all_iff)
next
  case (destroy n m sid r m')
  show ?case
  proof (cases "shared_region_mapping_count sid m = 0 \<and> mr_regions m sid \<noteq> None")
    case False
    then show ?thesis using destroy
      by (auto simp: destroy_shared_region_def region_of_def split: if_splits)
  next
    case True
    then obtain rid where rid: "mr_regions m sid = Some rid" by auto
    have unmapped: "list_all (\<lambda>(_, ms). ms_shared ms \<noteq> sid) (mr_mappings m)"
      using True mapping_count_zero by blast
    obtain res st where res: "re_destroy en rid (mr_store m) = (res, st)" by fastforce
    show ?thesis
    proof (cases res)
      case (Inl e)
      then have "m' = m\<lparr>mr_store := st\<rparr>" using destroy.hyps(2) True rid res
        by (simp add: destroy_shared_region_def region_of_def)
      then show ?thesis using destroy by (simp add: no_dangling_def ids_issued_def)
    next
      case (Inr u)
      then have m': "m' = m\<lparr>mr_store := st, mr_regions := (mr_regions m)(sid := None)\<rparr>"
        using destroy.hyps(2) True rid res by (simp add: destroy_shared_region_def region_of_def)
      have "no_dangling m'"
        using destroy unmapped by (fastforce simp: m' no_dangling_def list_all_iff)
      moreover have "ids_issued n m'" using destroy by (fastforce simp: m' ids_issued_def)
      ultimately show ?thesis by simp
    qed
  qed
next
  case (access n m st)
  then show ?case by (simp add: no_dangling_def ids_issued_def)
qed

section \<open>Properties\<close>

text \<open>A small engine for concrete inputs: a counter of regions and their lengths and bytes.\<close>

type_synonym sample_store = "nat \<times> (nat \<Rightarrow> (nat \<times> bytemap) option)"

definition sample_engine :: "(sample_store, nat) region_engine" where
  "sample_engine =
    \<lparr>re_allocate = (\<lambda>n (k, f). (Ok k, (Suc k, f(k \<mapsto> (unat n, \<lambda>_. 0))))),
     re_len = (\<lambda>rid (_, f). case f rid of None \<Rightarrow> Err ''unknown region'' | Some (l, _) \<Rightarrow> Ok (of_nat l)),
     re_destroy = (\<lambda>rid (k, f). (Ok (), (k, f(rid := None)))),
     re_read = (\<lambda>rid a n (_, f). case f rid of None \<Rightarrow> Err ''unknown region''
        | Some (l, bs) \<Rightarrow> if unat a + n \<le> l then Ok (bytes_at bs (unat a) n) else Err ''out of bounds''),
     re_write = (\<lambda>rid a bytes (k, f). case f rid of None \<Rightarrow> (Err ''unknown region'', (k, f))
        | Some (l, bs) \<Rightarrow> if unat a + length bytes \<le> l
            then (Ok (), (k, f(rid \<mapsto> (l, upd_bytes bs (unat a) bytes)))) else (Err ''out of bounds'', (k, f))),
     re_notify = (\<lambda>_ _ _ st. (Ok 0, st)),
     re_wait = (\<lambda>_ _ _ st. (Ok Woken, st))\<rparr>"

definition sample_len :: "sample_store \<Rightarrow> nat \<Rightarrow> nat option" where
  "sample_len st rid = (case snd st rid of None \<Rightarrow> None | Some (l, _) \<Rightarrow> if l < 2 ^ 32 then Some l else None)"

definition sample_bytes :: "sample_store \<Rightarrow> nat \<Rightarrow> bytemap" where
  "sample_bytes st rid = (case snd st rid of None \<Rightarrow> (\<lambda>_. 0) | Some (_, bs) \<Rightarrow> bs)"

definition sample_put :: "nat \<Rightarrow> nat \<Rightarrow> u8 list \<Rightarrow> sample_store \<Rightarrow> sample_store" where
  "sample_put rid i bs st =
    (fst st, (snd st)(rid := map_option (\<lambda>(l, old). (l, upd_bytes old i bs)) (snd st rid)))"

lemma sample_engine_ok: "engine_ok sample_engine sample_len sample_bytes sample_put"
  unfolding engine_ok_def
  by (intro conjI allI impI)
     (auto simp: sample_engine_def sample_len_def sample_bytes_def sample_put_def fun_eq_iff
        split: prod.splits option.splits if_splits)

text \<open>
  A shared region is one memory.  Whatever is written through one attachment of a region is
  read back through any other attachment of it, and the two attachments have different local
  handles.  The engine is assumed to store bytes as documented.
\<close>

theorem attachments_share_bytes:
  assumes "engine_ok en rlen rbytes rput" and "mr_regions m shared = Some rid"
    and "rlen (mr_store m) rid = Some n" and "unat a + length bs \<le> n"
    and "attach_shared_region shared m = (Ok left, m1)"
    and "attach_shared_region shared m1 = (Ok right, m2)"
  shows "left \<noteq> right \<and> (\<exists>m3. write_shared_memory en left a bs m2 = (Ok (), m3) \<and>
           read_shared_memory en right a (length bs) m3 = (Ok bs, m3))"
proof -
  let ?ms = "\<lparr>ms_region = rid, ms_shared = shared\<rparr>"
  obtain c where c: "next_id (mr_seed m) (mr_next_local m) = (left, c)"
      "m1 = m\<lparr>mr_next_local := c, mr_mappings := AList.update left ?ms (mr_mappings m)\<rparr>"
    using assms(2,5)
    by (auto simp: attach_shared_region_def region_of_def next_local_id_def split: prod.splits)
  obtain d where d: "next_id (mr_seed m) c = (right, d)"
      "m2 = m1\<lparr>mr_next_local := d, mr_mappings := AList.update right ?ms (mr_mappings m1)\<rparr>"
    using assms(2,6) c(2)
    by (auto simp: attach_shared_region_def region_of_def next_local_id_def split: prod.splits)
  have ne: "left \<noteq> right" by (rule next_id_neq [OF c(1) d(1)])
  have maps: "shared_mapping left m2 = Ok ?ms" "shared_mapping right m2 = Ok ?ms"
    using ne c(2) d(2) by (simp_all add: shared_mapping_def AList.update_conv')
  have st: "mr_store m2 = mr_store m" using c(2) d(2) by simp
  let ?m3 = "m2\<lparr>mr_store := rput rid (unat a) bs (mr_store m)\<rparr>"
  have w: "write_shared_memory en left a bs m2 = (Ok (), ?m3)"
    using engine_write [OF assms(1,3,4)] maps st by (simp add: write_shared_memory_def on_store_def)
  have "rlen (mr_store ?m3) rid = Some n" using engine_put(1) [OF assms(1,3,4)] assms(3) by simp
  from engine_read [OF assms(1) this assms(4)]
  have "read_shared_memory en right a (length bs) ?m3 = (Ok bs, ?m3)"
    using maps engine_put(2) [OF assms(1,3,4)]
    by (simp add: read_shared_memory_def on_store_def shared_mapping_def)
  then show ?thesis using ne w by blast
qed

definition sample_registry :: "(sample_store, nat) memory_registry" where
  "sample_registry = (mr_new (1, (\<lambda>_. None)(0 \<mapsto> (16, \<lambda>_. 0))) 42)\<lparr>mr_regions := (\<lambda>_. None)(7 \<mapsto> 0)\<rparr>"

lemma attach_registered:
  assumes "mr_regions m shared = Some rid"
  obtains local m' where "attach_shared_region shared m = (Ok local, m')" "mr_regions m' shared = Some rid"
    "map_of (mr_mappings m') local = Some \<lparr>ms_region = rid, ms_shared = shared\<rparr>"
    "mr_store m' = mr_store m"
proof -
  obtain l c where "next_id (mr_seed m) (mr_next_local m) = (l, c)" by fastforce
  then show ?thesis
    using assms that by (simp add: attach_shared_region_def region_of_def next_local_id_def AList.update_conv')
qed

lemma length_two: "length [x, y] = 2"
  by simp

theorem attachments_share_bytes_witness:
  "\<exists>left right m1 m2 m3. attach_shared_region 7 sample_registry = (Ok left, m1) \<and>
     attach_shared_region 7 m1 = (Ok right, m2) \<and> left \<noteq> right \<and>
     write_shared_memory sample_engine left 3 [1, 2] m2 = (Ok (), m3) \<and>
     read_shared_memory sample_engine right 3 2 m3 = (Ok [1, 2], m3)"
proof -
  have reg: "mr_regions sample_registry 7 = Some 0" by (simp add: sample_registry_def)
  have live: "sample_len (mr_store sample_registry) 0 = Some 16"
    by (simp add: sample_registry_def mr_new_def sample_len_def)
  obtain left m1 where l: "attach_shared_region 7 sample_registry = (Ok left, m1)" "mr_regions m1 7 = Some 0"
    by (rule attach_registered [OF reg])
  obtain right m2 where r: "attach_shared_region 7 m1 = (Ok right, m2)"
    by (rule attach_registered [OF l(2)])
  have "unat (3 :: u64) + length [1, 2 :: u8] \<le> 16" by simp
  from attachments_share_bytes [OF sample_engine_ok reg live this l(1) r]
  show ?thesis unfolding length_two using l(1) r by blast
qed



text \<open>
   Sub-mappings made by the kernel do not bound their accesses.  A sub-mapping of the pointer
  backend refuses every read past its end, as the backend's interface promises.  A sub-mapping of
  the kernel backend passes the read on as long as the region itself is large enough, and returns
  bytes that belong to the enclosing mapping.
\<close>

theorem kernel_submapping_is_not_bounded:
  assumes "kb_good en rlen rbytes rput rid b m" and "kb_sub_region b off n = Ok sub"
    and "unat off + unat a + unat k \<le> unat (kb_size b)" and "unat n < unat a + unat k"
  shows "kb_read en sub a k m = (Ok (bytes_at (kb_view rbytes rid b m) (unat off + unat a) (unat k)), m) \<and>
         (\<forall>pb psub s. pb_sub_region pb off n = Ok psub \<longrightarrow> (\<exists>e. pb_read psub a k s = (Err e, s)))"
proof
  obtain ms l where ms: "shared_mapping (kb_local b) m = Ok ms" "ms_region ms = rid"
      "rlen (mr_store m) rid = Some l" "l < 2 ^ 32" "unat (kb_base b) + unat (kb_size b) \<le> l"
      "engine_ok en rlen rbytes rput"
    using assms(1) by (rule kb_goodE)
  have sub: "sub = b\<lparr>kb_base := off + kb_base b, kb_size := n\<rparr>" and
    base: "unat (off + kb_base b) = unat off + unat (kb_base b)"
    using assms(2) by (auto simp: kb_sub_region_def kb_offset_def checked_add_def bind_result_def
        split: if_splits option.splits)
  have lt: "unat a + unat (off + kb_base b) < 2 ^ 64" using ms(4,5) assms(3) base by simp
  then have addr: "unat (a + (off + kb_base b)) = unat (kb_base b) + (unat off + unat a)"
    using unat_add_lt [of a "off + kb_base b"] base by simp
  have le: "unat (a + (off + kb_base b)) + unat k \<le> l" using ms(5) assms(3) addr by simp
  have "kb_offset sub a = Ok (a + (off + kb_base b))"
    using lt by (simp add: sub kb_offset_def checked_add_def)
  moreover have "kb_local sub = kb_local b" by (simp add: sub)
  ultimately show "kb_read en sub a k m = (Ok (bytes_at (kb_view rbytes rid b m) (unat off + unat a) (unat k)), m)"
    using ms engine_read [OF ms(6,3) le]
    by (simp only: kb_read_def mem_simps addr) (simp add: read_shared_memory_def on_store_def)
  show "\<forall>pb psub s. pb_sub_region pb off n = Ok psub \<longrightarrow> (\<exists>e. pb_read psub a k s = (Err e, s))"
  proof (intro allI impI)
    fix pb psub s
    assume "pb_sub_region pb off n = Ok psub"
    then have "pb_size psub = n"
      by (auto simp: pb_sub_region_def split: option.splits if_splits)
    then show "\<exists>e. pb_read psub a k s = (Err e, s)"
      using pb_read_out_of_bounds [of psub a k s] assms(4) by simp
  qed
qed

theorem kernel_submapping_is_not_bounded_witness:
  "\<exists>m b sub. kb_good sample_engine sample_len sample_bytes sample_put 0 b m \<and> kb_size b = 16 \<and>
     kb_sub_region b 0 4 = Ok sub \<and> kb_size sub = 4 \<and>
     kb_read sample_engine sub 8 8 m = (Ok (bytes_at (kb_view sample_bytes 0 b m) 8 8), m)"
proof -
  have reg: "mr_regions sample_registry 7 = Some 0" by (simp add: sample_registry_def)
  obtain local m where m: "attach_shared_region 7 sample_registry = (Ok local, m)"
      "map_of (mr_mappings m) local = Some \<lparr>ms_region = 0, ms_shared = 7\<rparr>"
      "mr_store m = mr_store sample_registry"
    by (rule attach_registered [OF reg])
  let ?b = "\<lparr>kb_local = local, kb_shared = 7, kb_base = 0, kb_size = 16\<rparr>"
  have good: "kb_good sample_engine sample_len sample_bytes sample_put 0 ?b m"
    using m sample_engine_ok
    by (simp add: kb_good_def sample_len_def sample_registry_def mr_new_def)
  have sub: "kb_sub_region ?b 0 4 = Ok (?b\<lparr>kb_size := 4\<rparr>)"
    by (simp add: kb_sub_region_def kb_offset_def checked_add_def)
  have "kb_read sample_engine (?b\<lparr>kb_size := 4\<rparr>) 8 8 m = (Ok (bytes_at (kb_view sample_bytes 0 ?b m) 8 8), m)"
    using kernel_submapping_is_not_bounded [OF good sub, of 8 8] by simp
  then show ?thesis using good sub
    by (intro exI [of _ m] exI [of _ ?b] exI [of _ "?b\<lparr>kb_size := 4\<rparr>"]) simp
qed

end
