(* ===== verification/Host_Queue.thy ===== *)
theory Host_Queue
  imports Memory_Registry
begin

text \<open>
  Host-mediated connection queues (\<^verbatim>\<open>crates/kernel/src/host_queue.rs\<close>).  A queue has a shared
  identifier and any number of local handles.  The locale \<open>fifo_queues\<close> is what senders and
  receivers rely on; it is interpreted on the registry.  The condition variable of a queue wakes
  blocked receivers and carries no data, so it has no counterpart here.
\<close>

section \<open>The registry of queues\<close>

type_synonym queue_item = "u64 \<times> u64 \<times> u8 list"

record host_queues =
  hq_queues :: "u64 \<Rightarrow> queue_item list option"
  hq_local :: "u64 \<Rightarrow> u64 option"

record queue_descriptor =
  qd_local :: u64
  qd_shared :: u64

definition hq_new :: host_queues where
  "hq_new = \<lparr>hq_queues = (\<lambda>_. None), hq_local = (\<lambda>_. None)\<rparr>"

definition host_queue_shared_id :: "host_queues \<Rightarrow> u64 \<Rightarrow> (kernel_error, u64) result" where
  "host_queue_shared_id q local =
    ok_or (hq_local q local) (NotFoundE (''host queue handle '' @ show_u64 local))"

definition queue_entries :: "host_queues \<Rightarrow> u64 \<Rightarrow> (kernel_error, queue_item list) result" where
  "queue_entries q shared = ok_or (hq_queues q shared) (NotFoundE (''host queue '' @ show_u64 shared))"

definition create_host_queue ::
    "('st, 'rid) memory_registry \<Rightarrow> host_queues \<Rightarrow>
     queue_descriptor \<times> ('st, 'rid) memory_registry \<times> host_queues" where
  "create_host_queue m q =
    (let (local, m1) = next_local_id m; (shared, m2) = next_shared_id m1
     in (\<lparr>qd_local = local, qd_shared = shared\<rparr>, m2,
         q\<lparr>hq_queues := (hq_queues q)(shared \<mapsto> []), hq_local := (hq_local q)(local \<mapsto> shared)\<rparr>))"

definition attach_host_queue ::
    "('st, 'rid) memory_registry \<Rightarrow> host_queues \<Rightarrow> u64 \<Rightarrow>
     (kernel_error, queue_descriptor) result \<times> ('st, 'rid) memory_registry \<times> host_queues" where
  "attach_host_queue m q shared =
    (case queue_entries q shared of
       Err e \<Rightarrow> (Err e, m, q)
     | Ok _ \<Rightarrow>
         let (local, m1) = next_local_id m
         in (Ok \<lparr>qd_local = local, qd_shared = shared\<rparr>, m1,
             q\<lparr>hq_local := (hq_local q)(local \<mapsto> shared)\<rparr>))"

definition host_queue_send :: "u64 \<Rightarrow> queue_item \<Rightarrow> (host_queues, kernel_error, unit) comp" where
  "host_queue_send local item q =
    (case host_queue_shared_id q local of
       Err e \<Rightarrow> (Err e, q)
     | Ok shared \<Rightarrow>
         (case queue_entries q shared of
            Err e \<Rightarrow> (Err e, q)
          | Ok es \<Rightarrow> (Ok (), q\<lparr>hq_queues := (hq_queues q)(shared \<mapsto> es @ [item])\<rparr>)))"

definition try_host_queue_recv :: "u64 \<Rightarrow> (host_queues, kernel_error, queue_item option) comp" where
  "try_host_queue_recv local q =
    (case host_queue_shared_id q local of
       Err e \<Rightarrow> (Err e, q)
     | Ok shared \<Rightarrow>
         (case queue_entries q shared of
            Err e \<Rightarrow> (Err e, q)
          | Ok [] \<Rightarrow> (Ok None, q)
          | Ok (e # es) \<Rightarrow> (Ok (Some e), q\<lparr>hq_queues := (hq_queues q)(shared \<mapsto> es)\<rparr>)))"

definition host_queue_pending :: "host_queues \<Rightarrow> u64 \<Rightarrow> (kernel_error, nat) result" where
  "host_queue_pending q local =
    bind_result (host_queue_shared_id q local) (\<lambda>shared.
    bind_result (queue_entries q shared) (\<lambda>es. Ok (length es)))"

section \<open>The contract of a queue\<close>

datatype ('h, 'i) queue_event = SendEv 'h 'i | RecvEv 'h

text \<open>A run records what every receive returned, with the handle it was made on.\<close>

fun run_queue ::
    "('h \<Rightarrow> 'i \<Rightarrow> ('q, 'e, unit) comp) \<Rightarrow> ('h \<Rightarrow> ('q, 'e, 'i option) comp) \<Rightarrow>
     ('h, 'i) queue_event list \<Rightarrow> 'q \<Rightarrow> ('h \<times> 'i) list \<times> 'q" where
  "run_queue snd_op rcv_op [] q = ([], q)"
| "run_queue snd_op rcv_op (SendEv h i # evs) q = run_queue snd_op rcv_op evs (snd (snd_op h i q))"
| "run_queue snd_op rcv_op (RecvEv h # evs) q =
    (case rcv_op h q of
       (Ok (Some i), q') \<Rightarrow> (let (got, q'') = run_queue snd_op rcv_op evs q' in ((h, i) # got, q''))
     | (_, q') \<Rightarrow> run_queue snd_op rcv_op evs q')"

fun sent_on :: "('h \<Rightarrow> bool) \<Rightarrow> ('h, 'i) queue_event list \<Rightarrow> 'i list" where
  "sent_on P [] = []"
| "sent_on P (SendEv h i # evs) = (if P h then i # sent_on P evs else sent_on P evs)"
| "sent_on P (RecvEv h # evs) = sent_on P evs"

definition taken_on :: "('h \<Rightarrow> bool) \<Rightarrow> ('h \<times> 'i) list \<Rightarrow> 'i list" where
  "taken_on P got = map snd (filter (\<lambda>(h, _). P h) got)"

locale fifo_queues =
  fixes handle :: "'q \<Rightarrow> 'h \<Rightarrow> 'k option"
    and items :: "'q \<Rightarrow> 'k \<Rightarrow> 'i list"
    and snd_op :: "'h \<Rightarrow> 'i \<Rightarrow> ('q, 'e, unit) comp"
    and rcv_op :: "'h \<Rightarrow> ('q, 'e, 'i option) comp"
    and valid :: "'q \<Rightarrow> bool"
  assumes send_keeps: "valid q \<Longrightarrow> valid (snd (snd_op h i q)) \<and> handle (snd (snd_op h i q)) = handle q"
    and send_items: "valid q \<Longrightarrow> items (snd (snd_op h i q)) k =
      items q k @ (if handle q h = Some k then [i] else [])"
    and recv_keeps: "valid q \<Longrightarrow> valid (snd (rcv_op h q)) \<and> handle (snd (rcv_op h q)) = handle q"
    and recv_unknown: "valid q \<Longrightarrow> handle q h = None \<Longrightarrow>
      (\<exists>e. fst (rcv_op h q) = Err e) \<and> items (snd (rcv_op h q)) = items q"
    and recv_empty: "valid q \<Longrightarrow> handle q h = Some k \<Longrightarrow> items q k = [] \<Longrightarrow> rcv_op h q = (Ok None, q)"
    and recv_head: "valid q \<Longrightarrow> handle q h = Some k \<Longrightarrow> items q k = x # xs \<Longrightarrow>
      fst (rcv_op h q) = Ok (Some x) \<and> items (snd (rcv_op h q)) = (items q)(k := xs)"
begin

lemma recv_step:
  assumes "valid q" "rcv_op h q = (r, q')"
  shows "valid q'" "handle q' = handle q"
    "(\<exists>x k. r = Ok (Some x) \<and> handle q h = Some k \<and> items q k = x # items q' k \<and>
        (\<forall>k'. k' \<noteq> k \<longrightarrow> items q' k' = items q k')) \<or>
     ((\<forall>x. r \<noteq> Ok (Some x)) \<and> items q' = items q)"
proof -
  show "valid q'" "handle q' = handle q" using recv_keeps [OF assms(1), of h] assms(2) by auto
  show "(\<exists>x k. r = Ok (Some x) \<and> handle q h = Some k \<and> items q k = x # items q' k \<and>
        (\<forall>k'. k' \<noteq> k \<longrightarrow> items q' k' = items q k')) \<or>
     ((\<forall>x. r \<noteq> Ok (Some x)) \<and> items q' = items q)"
  proof (cases "handle q h")
    case None
    then show ?thesis using recv_unknown [OF assms(1) None] assms(2) by auto
  next
    case (Some k)
    show ?thesis
    proof (cases "items q k")
      case Nil
      then show ?thesis using recv_empty [OF assms(1) Some Nil] assms(2) by simp
    next
      case (Cons x xs)
      then show ?thesis using recv_head [OF assms(1) Some Cons] assms(2) Some by auto
    qed
  qed
qed

lemma run_fifo:
  assumes "valid q" "run_queue snd_op rcv_op evs q = (got, q')"
  shows "taken_on (\<lambda>h. handle q h = Some k) got @ items q' k =
         items q k @ sent_on (\<lambda>h. handle q h = Some k) evs"
  using assms
proof (induction evs arbitrary: q got q')
  case Nil
  then show ?case by (simp add: taken_on_def)
next
  case (Cons ev evs)
  show ?case
  proof (cases ev)
    case (SendEv h i)
    let ?q = "snd (snd_op h i q)"
    have keep: "valid ?q" "handle ?q = handle q" using send_keeps [OF Cons.prems(1)] by auto
    have "run_queue snd_op rcv_op evs ?q = (got, q')" using Cons.prems(2) SendEv by simp
    from Cons.IH [OF keep(1) this] show ?thesis
      using SendEv keep(2) send_items [OF Cons.prems(1), of h i k] by simp
  next
    case (RecvEv h)
    obtain r q1 where r: "rcv_op h q = (r, q1)" by fastforce
    note step = recv_step [OF Cons.prems(1) r]
    from step(3) show ?thesis
    proof
      assume "\<exists>x k. r = Ok (Some x) \<and> handle q h = Some k \<and> items q k = x # items q1 k \<and>
        (\<forall>k'. k' \<noteq> k \<longrightarrow> items q1 k' = items q k')"
      then obtain x k1 where x: "r = Ok (Some x)" "handle q h = Some k1" "items q k1 = x # items q1 k1"
          "\<forall>k'. k' \<noteq> k1 \<longrightarrow> items q1 k' = items q k'" by blast
      obtain rest where rest: "run_queue snd_op rcv_op evs q1 = (rest, q')" "got = (h, x) # rest"
        using Cons.prems(2) RecvEv r x(1) by (auto split: prod.splits)
      have "taken_on (\<lambda>h. handle q h = Some k) rest @ items q' k =
          items q1 k @ sent_on (\<lambda>h. handle q h = Some k) evs"
        using Cons.IH [OF step(1) rest(1)] step(2) by simp
      then show ?thesis using RecvEv rest(2) x by (cases "k = k1") (auto simp: taken_on_def)
    next
      assume none: "(\<forall>x. r \<noteq> Ok (Some x)) \<and> items q1 = items q"
      then have "run_queue snd_op rcv_op evs q1 = (got, q')"
        using Cons.prems(2) RecvEv r by (auto split: sum.splits option.splits)
      from Cons.IH [OF step(1) this] show ?thesis using RecvEv step(2) none by simp
    qed
  qed
qed

end

section \<open>The registry meets the contract\<close>

definition queues_ok :: "host_queues \<Rightarrow> bool" where
  "queues_ok q \<longleftrightarrow> (\<forall>h k. hq_local q h = Some k \<longrightarrow> hq_queues q k \<noteq> None)"

definition queue_items :: "host_queues \<Rightarrow> u64 \<Rightarrow> queue_item list" where
  "queue_items q shared = (case hq_queues q shared of None \<Rightarrow> [] | Some es \<Rightarrow> es)"

lemma queues_ok_handle:
  assumes "queues_ok q" "hq_local q h = Some k"
  shows "hq_queues q k = Some (queue_items q k)"
  using assms by (fastforce simp: queues_ok_def queue_items_def split: option.splits)

lemma send_run:
  "queues_ok q \<Longrightarrow> host_queue_send h i q =
    (case hq_local q h of
       None \<Rightarrow> (Err (NotFoundE (''host queue handle '' @ show_u64 h)), q)
     | Some k \<Rightarrow> (Ok (), q\<lparr>hq_queues := (hq_queues q)(k \<mapsto> queue_items q k @ [i])\<rparr>))"
  by (auto simp: host_queue_send_def host_queue_shared_id_def queue_entries_def queues_ok_handle
        split: option.splits)

lemma recv_run:
  "queues_ok q \<Longrightarrow> try_host_queue_recv h q =
    (case hq_local q h of
       None \<Rightarrow> (Err (NotFoundE (''host queue handle '' @ show_u64 h)), q)
     | Some k \<Rightarrow> (case queue_items q k of
          [] \<Rightarrow> (Ok None, q)
        | x # xs \<Rightarrow> (Ok (Some x), q\<lparr>hq_queues := (hq_queues q)(k \<mapsto> xs)\<rparr>)))"
  by (auto simp: try_host_queue_recv_def host_queue_shared_id_def queue_entries_def queues_ok_handle
        split: option.splits list.splits)

interpretation hq: fifo_queues hq_local queue_items host_queue_send try_host_queue_recv queues_ok
proof unfold_locales
  fix q h i k and x :: queue_item and xs
  assume q: "queues_ok q"
  show "queues_ok (snd (host_queue_send h i q)) \<and> hq_local (snd (host_queue_send h i q)) = hq_local q"
    using q by (auto simp: send_run queues_ok_def split: option.splits)
  show "queue_items (snd (host_queue_send h i q)) k =
      queue_items q k @ (if hq_local q h = Some k then [i] else [])"
    using q by (auto simp: send_run queue_items_def split: option.splits)
  show "queues_ok (snd (try_host_queue_recv h q)) \<and> hq_local (snd (try_host_queue_recv h q)) = hq_local q"
    using q by (auto simp: recv_run queues_ok_def split: option.splits list.splits)
  show "hq_local q h = None \<Longrightarrow> (\<exists>e. fst (try_host_queue_recv h q) = Err e) \<and>
      queue_items (snd (try_host_queue_recv h q)) = queue_items q"
    using q by (simp add: recv_run)
  show "hq_local q h = Some k \<Longrightarrow> queue_items q k = [] \<Longrightarrow> try_host_queue_recv h q = (Ok None, q)"
    using q by (simp add: recv_run)
  show "hq_local q h = Some k \<Longrightarrow> queue_items q k = x # xs \<Longrightarrow>
      fst (try_host_queue_recv h q) = Ok (Some x) \<and>
      queue_items (snd (try_host_queue_recv h q)) = (queue_items q)(k := xs)"
    using q by (auto simp: recv_run queue_items_def fun_eq_iff)
qed

lemma create_host_queue_ok:
  assumes "queues_ok q" "create_host_queue m q = (d, m', q')"
  shows "queues_ok q'" "hq_local q' (qd_local d) = Some (qd_shared d)" "queue_items q' (qd_shared d) = []"
  using assms
  by (auto simp: create_host_queue_def queues_ok_def queue_items_def Let_def split: prod.splits if_splits)

lemma attach_host_queue_ok:
  assumes "queues_ok q" "attach_host_queue m q shared = (Ok d, m', q')"
  shows "queues_ok q'" "hq_local q' (qd_local d) = Some shared" "queue_items q' = queue_items q"
  using assms
  by (auto simp: attach_host_queue_def queue_entries_def queues_ok_def queue_items_def ok_or_def Let_def
        split: prod.splits if_splits option.splits)

section \<open>Properties\<close>

text \<open>
  C35.  Host queues are first-in first-out and lose nothing.  For any interleaving of sends and
  receives over any handles, what the receives on a queue returned, followed by what is still
  queued, is what was queued at the start followed by what was sent to it, in order.  Handles of
  other queues do not matter.
\<close>

theorem host_queue_is_fifo:
  assumes "queues_ok q" and "run_queue host_queue_send try_host_queue_recv evs q = (got, q')"
  shows "taken_on (\<lambda>h. hq_local q h = Some shared) got @ queue_items q' shared =
         queue_items q shared @ sent_on (\<lambda>h. hq_local q h = Some shared) evs"
  using assms by (rule hq.run_fifo)

definition sample_queues :: host_queues where
  "sample_queues = \<lparr>hq_queues = (\<lambda>_. None)(9 \<mapsto> [], 8 \<mapsto> []), hq_local = (\<lambda>_. None)(1 \<mapsto> 9, 2 \<mapsto> 9, 3 \<mapsto> 8)\<rparr>"

theorem host_queue_is_fifo_witness:
  "let evs = [SendEv 1 (5, 10, []), SendEv 3 (5, 99, []), SendEv 2 (6, 11, []), RecvEv 2, RecvEv 3];
       (got, q') = run_queue host_queue_send try_host_queue_recv evs sample_queues
   in queues_ok sample_queues \<and> got = [(2, (5, 10, [])), (3, (5, 99, []))] \<and>
      taken_on (\<lambda>h. hq_local sample_queues h = Some 9) got @ queue_items q' 9 = [(5, 10, []), (6, 11, [])]"
proof -
  let ?evs = "[SendEv 1 (5, 10, []), SendEv 3 (5, 99, []), SendEv 2 (6, 11, []), RecvEv 2, RecvEv 3]
    :: (u64, queue_item) queue_event list"
  have ok: "queues_ok sample_queues" by (auto simp: queues_ok_def sample_queues_def split: if_splits)
  obtain got q' where run: "run_queue host_queue_send try_host_queue_recv ?evs sample_queues = (got, q')"
    by fastforce
  have "got = [(2, (5, 10, [])), (3, (5, 99, []))]"
    using run by (simp add: host_queue_send_def try_host_queue_recv_def host_queue_shared_id_def
        queue_entries_def sample_queues_def)
  then show ?thesis using ok run host_queue_is_fifo [OF ok run, of 9]
    by (simp add: sample_queues_def queue_items_def)
qed

end
