(* ===== verification/Storage.thy ===== *)
theory Storage
  imports Memory_Registry
begin

text \<open>
  Durable logs and blob stores (\<^verbatim>\<open>crates/kernel/src/storage.rs\<close>).  Both are found by name and
  reached through local handles.  The digest of a blob comes from the \<^verbatim>\<open>sha2\<close> crate and is a
  parameter of \<^verbatim>\<open>put_blob\<close>.
\<close>

unbundle bit_operations_syntax

section \<open>State\<close>

record storage_record =
  sr_sequence :: u64
  sr_timestamp :: u64
  sr_headers :: "(string \<times> string) list"
  sr_payload :: "u8 list"

record durable_log =
  dl_name :: string
  dl_next :: u64
  dl_records :: "storage_record list"
  dl_checkpoints :: "string \<Rightarrow> u64 option"

record blob_store_state =
  bs_name :: string
  bs_blobs :: "string \<Rightarrow> u8 list option"
  bs_manifests :: "string \<Rightarrow> string option"

record storage =
  st_logs :: "(u64 \<times> durable_log) list"
  st_local_logs :: "u64 \<Rightarrow> u64 option"
  st_stores :: "(u64 \<times> blob_store_state) list"
  st_local_stores :: "u64 \<Rightarrow> u64 option"

record storage_descriptor =
  sd_local :: u64
  sd_shared :: u64
  sd_name :: string

definition storage_new :: storage where
  "storage_new = \<lparr>st_logs = [], st_local_logs = (\<lambda>_. None), st_stores = [], st_local_stores = (\<lambda>_. None)\<rparr>"

section \<open>Durable logs\<close>

definition log_shared_id :: "storage \<Rightarrow> u64 \<Rightarrow> (kernel_error, u64) result" where
  "log_shared_id s local = ok_or (st_local_logs s local) (NotFoundE (''durable log '' @ show_u64 local))"

definition log_state :: "storage \<Rightarrow> u64 \<Rightarrow> (kernel_error, u64 \<times> durable_log) result" where
  "log_state s local =
    bind_result (log_shared_id s local) (\<lambda>shared.
    bind_result (ok_or (map_of (st_logs s) shared) (NotFoundE (''durable log '' @ show_u64 shared)))
      (\<lambda>lg. Ok (shared, lg)))"

definition open_log ::
    "('st, 'rid) memory_registry \<Rightarrow> storage \<Rightarrow> string \<Rightarrow>
     storage_descriptor \<times> ('st, 'rid) memory_registry \<times> storage" where
  "open_log m s name =
    (let (shared, m1, logs) =
       (case find (\<lambda>(_, lg). dl_name lg = name) (st_logs s) of
          Some (shared, _) \<Rightarrow> (shared, m, st_logs s)
        | None \<Rightarrow>
            let (shared, m1) = next_shared_id m
            in (shared, m1, AList.update shared
                 \<lparr>dl_name = name, dl_next = 1, dl_records = [], dl_checkpoints = (\<lambda>_. None)\<rparr> (st_logs s)));
         (local, m2) = next_local_id m1
     in (\<lparr>sd_local = local, sd_shared = shared, sd_name = name\<rparr>, m2,
         s\<lparr>st_logs := logs, st_local_logs := (st_local_logs s)(local \<mapsto> shared)\<rparr>))"

definition append_log ::
    "u64 \<Rightarrow> u64 \<Rightarrow> (string \<times> string) list \<Rightarrow> u8 list \<Rightarrow> (storage, kernel_error, u64) comp" where
  "append_log local timestamp headers payload s =
    (case log_state s local of
       Err e \<Rightarrow> (Err e, s)
     | Ok (shared, lg) \<Rightarrow>
         let sequence = dl_next lg;
             rec = \<lparr>sr_sequence = sequence, sr_timestamp = timestamp, sr_headers = headers,
                    sr_payload = payload\<rparr>
         in (Ok sequence, s\<lparr>st_logs := AList.update shared
               (lg\<lparr>dl_next := dl_next lg + 1, dl_records := dl_records lg @ [rec]\<rparr>) (st_logs s)\<rparr>))"

definition replay_log ::
    "u64 \<Rightarrow> u64 option \<Rightarrow> nat \<Rightarrow> storage \<Rightarrow> (kernel_error, storage_record list) result" where
  "replay_log local from limit s =
    bind_result (log_state s local) (\<lambda>(_, lg).
      Ok (take limit (filter (\<lambda>rec. case from of None \<Rightarrow> True | Some f \<Rightarrow> f \<le> sr_sequence rec)
        (dl_records lg))))"

definition checkpoint_log :: "u64 \<Rightarrow> string \<Rightarrow> u64 \<Rightarrow> (storage, kernel_error, unit) comp" where
  "checkpoint_log local name sequence s =
    (case log_state s local of
       Err e \<Rightarrow> (Err e, s)
     | Ok (shared, lg) \<Rightarrow>
         if \<not> list_ex (\<lambda>rec. sr_sequence rec = sequence) (dl_records lg)
         then (Err (NotFoundE (''log sequence '' @ show_u64 sequence)), s)
         else (Ok (), s\<lparr>st_logs := AList.update shared
                 (lg\<lparr>dl_checkpoints := (dl_checkpoints lg)(name \<mapsto> sequence)\<rparr>) (st_logs s)\<rparr>))"

definition checkpoint_sequence :: "u64 \<Rightarrow> string \<Rightarrow> storage \<Rightarrow> (kernel_error, u64 option) result" where
  "checkpoint_sequence local name s =
    bind_result (log_state s local) (\<lambda>(_, lg). Ok (dl_checkpoints lg name))"

definition close_log :: "u64 \<Rightarrow> (storage, kernel_error, unit) comp" where
  "close_log local s =
    (case log_shared_id s local of
       Err e \<Rightarrow> (Err e, s)
     | Ok _ \<Rightarrow> (Ok (), s\<lparr>st_local_logs := (st_local_logs s)(local := None)\<rparr>))"

section \<open>Blob stores\<close>

definition blob_store_shared_id :: "storage \<Rightarrow> u64 \<Rightarrow> (kernel_error, u64) result" where
  "blob_store_shared_id s local =
    ok_or (st_local_stores s local) (NotFoundE (''blob store '' @ show_u64 local))"

definition store_state :: "storage \<Rightarrow> u64 \<Rightarrow> (kernel_error, u64 \<times> blob_store_state) result" where
  "store_state s local =
    bind_result (blob_store_shared_id s local) (\<lambda>shared.
    bind_result (ok_or (map_of (st_stores s) shared) (NotFoundE (''blob store '' @ show_u64 shared)))
      (\<lambda>bs. Ok (shared, bs)))"

definition open_blob_store ::
    "('st, 'rid) memory_registry \<Rightarrow> storage \<Rightarrow> string \<Rightarrow>
     storage_descriptor \<times> ('st, 'rid) memory_registry \<times> storage" where
  "open_blob_store m s name =
    (let (shared, m1, stores) =
       (case find (\<lambda>(_, bs). bs_name bs = name) (st_stores s) of
          Some (shared, _) \<Rightarrow> (shared, m, st_stores s)
        | None \<Rightarrow>
            let (shared, m1) = next_shared_id m
            in (shared, m1, AList.update shared
                 \<lparr>bs_name = name, bs_blobs = (\<lambda>_. None), bs_manifests = (\<lambda>_. None)\<rparr> (st_stores s)));
         (local, m2) = next_local_id m1
     in (\<lparr>sd_local = local, sd_shared = shared, sd_name = name\<rparr>, m2,
         s\<lparr>st_stores := stores, st_local_stores := (st_local_stores s)(local \<mapsto> shared)\<rparr>))"

definition hex_char :: "u8 \<Rightarrow> char" where
  "hex_char value = ''0123456789abcdef'' ! unat (value AND 0x0f)"

definition hex_of :: "u8 list \<Rightarrow> string" where
  "hex_of digest = concat (map (\<lambda>byte. [hex_char (drop_bit 4 byte), hex_char (byte AND 0x0f)]) digest)"

definition put_blob :: "(u8 list \<Rightarrow> u8 list) \<Rightarrow> u64 \<Rightarrow> u8 list \<Rightarrow> (storage, kernel_error, string) comp" where
  "put_blob sha256 local bytes s =
    (case store_state s local of
       Err e \<Rightarrow> (Err e, s)
     | Ok (shared, bs) \<Rightarrow>
         let blob_id = hex_of (sha256 bytes)
         in (Ok blob_id, s\<lparr>st_stores := AList.update shared
               (bs\<lparr>bs_blobs := (bs_blobs bs)(blob_id \<mapsto> bytes)\<rparr>) (st_stores s)\<rparr>))"

definition get_blob :: "u64 \<Rightarrow> string \<Rightarrow> storage \<Rightarrow> (kernel_error, u8 list option) result" where
  "get_blob local blob_id s = bind_result (store_state s local) (\<lambda>(_, bs). Ok (bs_blobs bs blob_id))"

definition set_manifest :: "u64 \<Rightarrow> string \<Rightarrow> string \<Rightarrow> (storage, kernel_error, unit) comp" where
  "set_manifest local name blob_id s =
    (case store_state s local of
       Err e \<Rightarrow> (Err e, s)
     | Ok (shared, bs) \<Rightarrow>
         if bs_blobs bs blob_id = None then (Err (NotFoundE (''blob '' @ blob_id)), s)
         else (Ok (), s\<lparr>st_stores := AList.update shared
                 (bs\<lparr>bs_manifests := (bs_manifests bs)(name \<mapsto> blob_id)\<rparr>) (st_stores s)\<rparr>))"

definition get_manifest :: "u64 \<Rightarrow> string \<Rightarrow> storage \<Rightarrow> (kernel_error, string option) result" where
  "get_manifest local name s = bind_result (store_state s local) (\<lambda>(_, bs). Ok (bs_manifests bs name))"

definition close_blob_store :: "u64 \<Rightarrow> (storage, kernel_error, unit) comp" where
  "close_blob_store local s =
    (case blob_store_shared_id s local of
       Err e \<Rightarrow> (Err e, s)
     | Ok _ \<Rightarrow> (Ok (), s\<lparr>st_local_stores := (st_local_stores s)(local := None)\<rparr>))"

section \<open>Invariant\<close>

definition log_wf :: "durable_log \<Rightarrow> bool" where
  "log_wf lg \<longleftrightarrow>
    map sr_sequence (dl_records lg) = map (\<lambda>i. of_nat (Suc i)) [0..<length (dl_records lg)] \<and>
    dl_next lg = of_nat (Suc (length (dl_records lg))) \<and>
    ran (dl_checkpoints lg) \<subseteq> sr_sequence ` set (dl_records lg)"

definition store_wf :: "(u8 list \<Rightarrow> u8 list) \<Rightarrow> blob_store_state \<Rightarrow> bool" where
  "store_wf sha256 bs \<longleftrightarrow>
    (\<forall>blob_id bytes. bs_blobs bs blob_id = Some bytes \<longrightarrow> blob_id = hex_of (sha256 bytes)) \<and>
    ran (bs_manifests bs) \<subseteq> dom (bs_blobs bs)"

definition storage_ok :: "(u8 list \<Rightarrow> u8 list) \<Rightarrow> storage \<Rightarrow> bool" where
  "storage_ok sha256 s \<longleftrightarrow>
    (\<forall>(k, lg) \<in> set (st_logs s). log_wf lg) \<and> (\<forall>(k, bs) \<in> set (st_stores s). store_wf sha256 bs)"

text \<open>
  \<^verbatim>\<open>storage_run sha256 m s\<close>: the storage registry reached \<open>s\<close> by its own operations, the memory
  registry it takes identifiers from being \<open>m\<close> now; others may change \<open>m\<close> in between.
\<close>

inductive storage_run :: "(u8 list \<Rightarrow> u8 list) \<Rightarrow> ('st, 'rid) memory_registry \<Rightarrow> storage \<Rightarrow> bool"
  for sha256 where
  boot: "storage_run sha256 m storage_new"
| elsewhere: "storage_run sha256 m s \<Longrightarrow> storage_run sha256 m' s"
| open_log: "storage_run sha256 m s \<Longrightarrow> open_log m s name = (d, m', s') \<Longrightarrow> storage_run sha256 m' s'"
| append: "storage_run sha256 m s \<Longrightarrow> append_log l ts hs p s = (r, s') \<Longrightarrow> storage_run sha256 m s'"
| checkpoint: "storage_run sha256 m s \<Longrightarrow> checkpoint_log l name q s = (c, s') \<Longrightarrow> storage_run sha256 m s'"
| close_log: "storage_run sha256 m s \<Longrightarrow> close_log l s = (c, s') \<Longrightarrow> storage_run sha256 m s'"
| open_blob: "storage_run sha256 m s \<Longrightarrow> open_blob_store m s name = (d, m', s') \<Longrightarrow> storage_run sha256 m' s'"
| put: "storage_run sha256 m s \<Longrightarrow> put_blob sha256 l bytes s = (b, s') \<Longrightarrow> storage_run sha256 m s'"
| manifest: "storage_run sha256 m s \<Longrightarrow> set_manifest l name b s = (c, s') \<Longrightarrow> storage_run sha256 m s'"
| close_blob: "storage_run sha256 m s \<Longrightarrow> close_blob_store l s = (c, s') \<Longrightarrow> storage_run sha256 m s'"

lemma log_state_Ok: "log_state s l = Ok (k, lg) \<longleftrightarrow> st_local_logs s l = Some k \<and> map_of (st_logs s) k = Some lg"
  by (auto simp: log_state_def log_shared_id_def bind_result_def ok_or_def split: option.splits)

lemma store_state_Ok:
  "store_state s l = Ok (k, bs) \<longleftrightarrow> st_local_stores s l = Some k \<and> map_of (st_stores s) k = Some bs"
  by (auto simp: store_state_def blob_store_shared_id_def bind_result_def ok_or_def split: option.splits)

lemma storage_ok_log: "storage_ok sha256 s \<Longrightarrow> map_of (st_logs s) k = Some lg \<Longrightarrow> log_wf lg"
  by (auto simp: storage_ok_def dest: map_of_SomeD)

lemma storage_ok_store: "storage_ok sha256 s \<Longrightarrow> map_of (st_stores s) k = Some bs \<Longrightarrow> store_wf sha256 bs"
  by (auto simp: storage_ok_def dest: map_of_SomeD)

lemma storage_ok_upd_log:
  "storage_ok sha256 s \<Longrightarrow> log_wf lg \<Longrightarrow> storage_ok sha256 (s\<lparr>st_logs := AList.update k lg (st_logs s)\<rparr>)"
  using set_alist_update [of k lg "st_logs s"] by (fastforce simp: storage_ok_def)

lemma storage_ok_upd_store:
  "storage_ok sha256 s \<Longrightarrow> store_wf sha256 bs \<Longrightarrow>
   storage_ok sha256 (s\<lparr>st_stores := AList.update k bs (st_stores s)\<rparr>)"
  using set_alist_update [of k bs "st_stores s"] by (fastforce simp: storage_ok_def)

lemma storage_ok_handles [simp]:
  "storage_ok sha256 (s\<lparr>st_local_logs := f\<rparr>) = storage_ok sha256 s"
  "storage_ok sha256 (s\<lparr>st_local_stores := f\<rparr>) = storage_ok sha256 s"
  by (simp_all add: storage_ok_def)

lemma log_wf_append:
  "log_wf lg \<Longrightarrow> log_wf (lg\<lparr>dl_next := dl_next lg + 1, dl_records := dl_records lg @
     [\<lparr>sr_sequence = dl_next lg, sr_timestamp = ts, sr_headers = hs, sr_payload = p\<rparr>]\<rparr>)"
  by (auto simp: log_wf_def)

lemma log_wf_new: "log_wf \<lparr>dl_name = name, dl_next = 1, dl_records = [], dl_checkpoints = (\<lambda>_. None)\<rparr>"
  by (simp add: log_wf_def)

lemma log_wf_checkpoint:
  "log_wf lg \<Longrightarrow> list_ex (\<lambda>rec. sr_sequence rec = q) (dl_records lg) \<Longrightarrow>
   log_wf (lg\<lparr>dl_checkpoints := (dl_checkpoints lg)(name \<mapsto> q)\<rparr>)"
  by (auto simp: log_wf_def ran_def list_ex_iff)

lemma store_wf_new: "store_wf sha256 \<lparr>bs_name = name, bs_blobs = (\<lambda>_. None), bs_manifests = (\<lambda>_. None)\<rparr>"
  by (simp add: store_wf_def)

lemma store_wf_put:
  "store_wf sha256 bs \<Longrightarrow> store_wf sha256 (bs\<lparr>bs_blobs := (bs_blobs bs)(hex_of (sha256 bytes) \<mapsto> bytes)\<rparr>)"
  by (auto simp: store_wf_def)

lemma store_wf_manifest:
  "store_wf sha256 bs \<Longrightarrow> bs_blobs bs b \<noteq> None \<Longrightarrow>
   store_wf sha256 (bs\<lparr>bs_manifests := (bs_manifests bs)(name \<mapsto> b)\<rparr>)"
  by (auto simp: store_wf_def ran_def)

lemma storage_run_ok: "storage_run sha256 m s \<Longrightarrow> storage_ok sha256 s"
proof (induction rule: storage_run.induct)
  case boot
  show ?case by (simp add: storage_ok_def storage_new_def)
next
  case (elsewhere m s m')
  then show ?case by simp
next
  case (open_log m s name d m' s')
  then show ?case
    using storage_ok_upd_log [OF open_log.IH log_wf_new]
    by (auto simp: open_log_def Let_def split: prod.splits option.splits)
next
  case (append m s l ts hs p r s')
  then show ?case
    by (auto simp: append_log_def log_state_Ok Let_def split: sum.splits prod.splits
          intro!: storage_ok_upd_log log_wf_append intro: storage_ok_log)
next
  case (checkpoint m s l name q c s')
  then show ?case
    by (auto simp: checkpoint_log_def log_state_Ok split: sum.splits prod.splits if_splits
          intro!: storage_ok_upd_log log_wf_checkpoint intro: storage_ok_log)
next
  case (close_log m s l c s')
  then show ?case by (auto simp: close_log_def split: sum.splits)
next
  case (open_blob m s name d m' s')
  then show ?case
    using storage_ok_upd_store [OF open_blob.IH store_wf_new]
    by (auto simp: open_blob_store_def Let_def split: prod.splits option.splits)
next
  case (put m s l bytes b s')
  then show ?case
    by (auto simp: put_blob_def store_state_Ok Let_def split: sum.splits prod.splits
          intro!: storage_ok_upd_store store_wf_put intro: storage_ok_store)
next
  case (manifest m s l name b c s')
  then show ?case
    by (auto simp: set_manifest_def store_state_Ok simp del: not_None_eq split: sum.splits prod.splits if_splits
          intro!: storage_ok_upd_store store_wf_manifest intro: storage_ok_store)
next
  case (close_blob m s l c s')
  then show ?case by (auto simp: close_blob_store_def split: sum.splits)
qed

section \<open>Replay\<close>

lemma filter_from_drop:
  assumes "map sr_sequence rs = map (\<lambda>i. of_nat (Suc (k + i))) [0..<length rs]"
    and "k + length rs < 2 ^ 64"
  shows "filter (\<lambda>rec. f \<le> sr_sequence rec) rs = drop (unat f - 1 - k) rs"
  using assms
proof (induction rs arbitrary: k)
  case (Cons r rs)
  have seqs: "sr_sequence r = of_nat (Suc k)"
      "map sr_sequence rs = map (\<lambda>i. of_nat (Suc (Suc k + i))) [0..<length rs]"
    using Cons.prems(1) by (simp_all add: upt_conv_Cons map_Suc_upt [symmetric] del: upt_Suc)
  have IH: "filter (\<lambda>rec. f \<le> sr_sequence rec) rs = drop (unat f - 1 - Suc k) rs"
    by (rule Cons.IH [OF seqs(2)]) (use Cons.prems(2) in simp)
  have "unat (of_nat (Suc k) :: u64) = Suc k" by (rule unat_of_nat_u64) (use Cons.prems(2) in simp)
  then have "unat (sr_sequence r) = Suc k" by (simp only: seqs(1))
  then have "f \<le> sr_sequence r \<longleftrightarrow> unat f - 1 - k = 0" by (auto simp: word_le_nat_alt)
  moreover have "unat f - 1 - Suc k = n" if "unat f - 1 - k = Suc n" for n using that by simp
  ultimately show ?case using IH by (cases "unat f - 1 - k") simp_all
qed simp

lemma replay_from:
  assumes "log_wf lg" "log_state s l = Ok (k, lg)" "length (dl_records lg) < 2 ^ 64"
  shows "replay_log l (Some f) limit s = Ok (take limit (drop (unat f - 1) (dl_records lg)))"
  using filter_from_drop [of "dl_records lg" 0 f] assms by (simp add: replay_log_def log_wf_def)

lemma replay_all:
  "log_state s l = Ok (k, lg) \<Longrightarrow> replay_log l None limit s = Ok (take limit (dl_records lg))"
  by (simp add: replay_log_def)

lemma log_sequence_nth:
  assumes "log_wf lg" "i < length (dl_records lg)"
  shows "sr_sequence (dl_records lg ! i) = of_nat (Suc i)"
proof -
  have "map sr_sequence (dl_records lg) ! i = map (\<lambda>i. of_nat (Suc i)) [0..<length (dl_records lg)] ! i"
    using assms(1) by (simp only: log_wf_def)
  then show ?thesis using assms(2) by simp
qed

lemma append_log_run:
  assumes "log_state s l = Ok (k, lg)"
  shows "append_log l ts hs p s = (Ok (dl_next lg), s\<lparr>st_logs := AList.update k
    (lg\<lparr>dl_next := dl_next lg + 1, dl_records := dl_records lg @
      [\<lparr>sr_sequence = dl_next lg, sr_timestamp = ts, sr_headers = hs, sr_payload = p\<rparr>]\<rparr>) (st_logs s)\<rparr>)"
  using assms by (simp add: append_log_def Let_def)

section \<open>Properties\<close>

text \<open>
  C36.  A durable log is a sequence.  In every reachable state the records of a log are numbered
  1, 2, 3, ... without a gap, and replaying from a sequence number returns the records from exactly
  that one on, in order, up to the limit.  Appending returns the next number, adds the record at
  the end of the log under every handle of it, and changes no earlier record.
\<close>

theorem durable_log_is_a_sequence:
  assumes "storage_run sha256 m s" and "log_state s l = Ok (k, lg)" and "length (dl_records lg) + 1 < 2 ^ 64"
  shows "(\<forall>from limit. replay_log l (Some from) limit s = Ok (take limit (drop (unat from - 1) (dl_records lg)))) \<and>
         (\<forall>ts hs p l'. st_local_logs s l' = Some k \<longrightarrow>
            (let s' = snd (append_log l ts hs p s) in
             fst (append_log l ts hs p s) = Ok (of_nat (length (dl_records lg) + 1)) \<and>
             (\<forall>limit. replay_log l' None limit s' = Ok (take limit (dl_records lg @
                [\<lparr>sr_sequence = of_nat (length (dl_records lg) + 1), sr_timestamp = ts, sr_headers = hs,
                  sr_payload = p\<rparr>])))))"
proof -
  have wf: "log_wf lg" using storage_ok_log [OF storage_run_ok [OF assms(1)]] assms(2) by (auto simp: log_state_Ok)
  then have nxt: "dl_next lg = of_nat (length (dl_records lg) + 1)" by (simp add: log_wf_def)
  have handle: "log_state (s\<lparr>st_logs := AList.update k lg' (st_logs s)\<rparr>) l' = Ok (k, lg')"
    if "st_local_logs s l' = Some k" for l' lg'
    using that by (simp add: log_state_Ok AList.update_conv')
  have len: "length (dl_records lg) < 2 ^ 64" using assms(3) by simp
  have recs: "dl_records (lg\<lparr>dl_next := a, dl_records := b\<rparr>) = b" for a b by simp
  have "fst (append_log l ts hs p s) = Ok (of_nat (length (dl_records lg) + 1))" for ts hs p
    by (simp only: append_log_run [OF assms(2)] nxt fst_conv)
  moreover have "replay_log l' None limit (snd (append_log l ts hs p s)) = Ok (take limit (dl_records lg @
      [\<lparr>sr_sequence = of_nat (length (dl_records lg) + 1), sr_timestamp = ts, sr_headers = hs, sr_payload = p\<rparr>]))"
    if "st_local_logs s l' = Some k" for ts hs p l' limit
    using replay_all [OF handle [OF that]] recs
    by (simp only: append_log_run [OF assms(2)] nxt snd_conv)
  ultimately show ?thesis using replay_from [OF wf assms(2) len] unfolding Let_def by blast
qed

text \<open>
  Checkpoints resume where they were set.  In every reachable state a checkpoint that reads
  back names a record of its log, and replaying from it returns that record first.
\<close>

theorem checkpoint_resumes_at_its_record:
  assumes "storage_run sha256 m s" and "log_state s l = Ok (k, lg)" and "length (dl_records lg) < 2 ^ 64"
    and "checkpoint_sequence l name s = Ok (Some c)" and "0 < limit"
  shows "\<exists>i rest. i < length (dl_records lg) \<and> sr_sequence (dl_records lg ! i) = c \<and>
           replay_log l (Some c) limit s = Ok (dl_records lg ! i # rest)"
proof -
  have wf: "log_wf lg" using storage_ok_log [OF storage_run_ok [OF assms(1)]] assms(2) by (auto simp: log_state_Ok)
  have "dl_checkpoints lg name = Some c" using assms(2,4) by (simp add: checkpoint_sequence_def)
  then have "c \<in> sr_sequence ` set (dl_records lg)" using wf by (auto simp: log_wf_def ran_def)
  then obtain i where i: "i < length (dl_records lg)" "sr_sequence (dl_records lg ! i) = c"
    by (auto simp: in_set_conv_nth)
  then have "c = of_nat (Suc i)" using log_sequence_nth [OF wf i(1)] by simp
  moreover have "unat (of_nat (Suc i) :: u64) = Suc i" by (rule unat_of_nat_u64) (use i(1) assms(3) in simp)
  ultimately have "unat c = Suc i" by (simp only:)
  then have "replay_log l (Some c) limit s = Ok (take limit (drop i (dl_records lg)))"
    using replay_from [OF wf assms(2,3), of c limit] by simp
  also have "take limit (drop i (dl_records lg)) = dl_records lg ! i # take (limit - 1) (drop (Suc i) (dl_records lg))"
    using assms(5) Cons_nth_drop_Suc [OF i(1)] by (cases limit) (simp_all, metis take_Suc_Cons)
  finally show ?thesis using i by blast
qed

text \<open>
  Blobs are content-addressed and manifests never dangle.  In every reachable state a blob is
  stored under the hexadecimal digest of its own bytes, and the blob a manifest names can be read.
  Storing a blob makes it readable under the returned name, and leaves every blob with a different
  digest as it was.
\<close>

theorem blobs_are_content_addressed:
  assumes "storage_run sha256 m s" and "put_blob sha256 l bytes s = (Ok blob_id, s')"
  shows "blob_id = hex_of (sha256 bytes) \<and> get_blob l blob_id s' = Ok (Some bytes) \<and>
         (\<forall>other old. get_blob l other s = Ok (Some old) \<longrightarrow>
            other = hex_of (sha256 old) \<and> (hex_of (sha256 old) \<noteq> blob_id \<longrightarrow> get_blob l other s' = Ok (Some old))) \<and>
         (\<forall>name b. get_manifest l name s' = Ok (Some b) \<longrightarrow> (\<exists>found. get_blob l b s' = Ok (Some found)))"
proof -
  obtain k bs where bs: "store_state s l = Ok (k, bs)"
    using assms(2) by (auto simp: put_blob_def split: sum.splits)
  let ?bs = "bs\<lparr>bs_blobs := (bs_blobs bs)(hex_of (sha256 bytes) \<mapsto> bytes)\<rparr>"
  have s': "blob_id = hex_of (sha256 bytes)" "s' = s\<lparr>st_stores := AList.update k ?bs (st_stores s)\<rparr>"
    using assms(2) bs by (auto simp: put_blob_def Let_def)
  have bs': "store_state s' l = Ok (k, ?bs)"
    using bs by (simp add: s'(2) store_state_Ok AList.update_conv')
  have wf: "store_wf sha256 bs" using storage_ok_store [OF storage_run_ok [OF assms(1)]] bs
    by (auto simp: store_state_Ok)
  then have wf': "store_wf sha256 ?bs" by (rule store_wf_put)
  have get: "get_blob l b s = Ok (bs_blobs bs b)" "get_blob l b s' = Ok (bs_blobs ?bs b)"
    "get_manifest l name s' = Ok (bs_manifests bs name)" for b name
    using bs bs' by (simp_all add: get_blob_def get_manifest_def)
  have "other = hex_of (sha256 old) \<and> (hex_of (sha256 old) \<noteq> blob_id \<longrightarrow> get_blob l other s' = Ok (Some old))"
    if "get_blob l other s = Ok (Some old)" for other old
    using that wf s'(1) by (simp add: get store_wf_def)
  moreover have "\<exists>found. get_blob l b s' = Ok (Some found)" if "get_manifest l name s' = Ok (Some b)" for name b
  proof -
    have "b \<in> ran (bs_manifests ?bs)" using that by (auto simp: get ran_def)
    then have "b \<in> dom (bs_blobs ?bs)" using wf' unfolding store_wf_def by blast
    then show ?thesis by (auto simp only: get dom_def mem_Collect_eq not_None_eq)
  qed
  moreover have "get_blob l blob_id s' = Ok (Some bytes)" by (simp add: get(2) s'(1))
  ultimately show ?thesis using s'(1) by blast
qed

section \<open>Concrete runs\<close>

definition sample_digest :: "u8 list \<Rightarrow> u8 list" where
  "sample_digest bytes = rev bytes"

lemma open_log_fresh:
  assumes "open_log m storage_new name = (d, m', s')"
  shows "log_state s' (sd_local d) =
    Ok (sd_shared d, \<lparr>dl_name = name, dl_next = 1, dl_records = [], dl_checkpoints = (\<lambda>_. None)\<rparr>)"
  using assms by (auto simp: open_log_def storage_new_def log_state_Ok Let_def split: prod.splits)

lemma sample_log_run:
  obtains m :: "(sample_store, nat) memory_registry" and s l k where "storage_run sample_digest m s"
    "log_state s l = Ok (k, \<lparr>dl_name = ''audit'', dl_next = 3,
       dl_records = [\<lparr>sr_sequence = 1, sr_timestamp = 7, sr_headers = [], sr_payload = [65]\<rparr>,
                     \<lparr>sr_sequence = 2, sr_timestamp = 8, sr_headers = [], sr_payload = [66]\<rparr>],
       dl_checkpoints = (\<lambda>_. None)(''boot'' \<mapsto> 2)\<rparr>)"
proof -
  obtain d m s0 where op: "open_log sample_registry storage_new ''audit'' = (d, m, s0)" by (metis prod_cases3)
  let ?l = "sd_local d" and ?k = "sd_shared d"
  have st0: "log_state s0 ?l = Ok (?k, \<lparr>dl_name = ''audit'', dl_next = 1, dl_records = [],
      dl_checkpoints = (\<lambda>_. None)\<rparr>)" by (rule open_log_fresh [OF op])
  have keep: "log_state (s\<lparr>st_logs := AList.update ?k lg (st_logs s)\<rparr>) ?l = Ok (?k, lg)"
    if "log_state s ?l = Ok (?k, old)" for s lg old
    using that by (simp add: log_state_Ok AList.update_conv')
  obtain s1 where s1: "append_log ?l 7 [] [65] s0 = (Ok 1, s1)" "log_state s1 ?l = Ok (?k, \<lparr>dl_name = ''audit'',
      dl_next = 2, dl_records = [\<lparr>sr_sequence = 1, sr_timestamp = 7, sr_headers = [], sr_payload = [65]\<rparr>],
      dl_checkpoints = (\<lambda>_. None)\<rparr>)"
    using append_log_run [OF st0, of 7 "[]" "[65]"] keep [OF st0] by simp
  obtain s2 where s2: "append_log ?l 8 [] [66] s1 = (Ok 2, s2)" "log_state s2 ?l = Ok (?k, \<lparr>dl_name = ''audit'',
      dl_next = 3, dl_records = [\<lparr>sr_sequence = 1, sr_timestamp = 7, sr_headers = [], sr_payload = [65]\<rparr>,
        \<lparr>sr_sequence = 2, sr_timestamp = 8, sr_headers = [], sr_payload = [66]\<rparr>],
      dl_checkpoints = (\<lambda>_. None)\<rparr>)"
    using append_log_run [OF s1(2), of 8 "[]" "[66]"] keep [OF s1(2)] by simp
  obtain s3 where s3: "checkpoint_log ?l ''boot'' 2 s2 = (Ok (), s3)" "log_state s3 ?l = Ok (?k, \<lparr>dl_name = ''audit'',
      dl_next = 3, dl_records = [\<lparr>sr_sequence = 1, sr_timestamp = 7, sr_headers = [], sr_payload = [65]\<rparr>,
        \<lparr>sr_sequence = 2, sr_timestamp = 8, sr_headers = [], sr_payload = [66]\<rparr>],
      dl_checkpoints = (\<lambda>_. None)(''boot'' \<mapsto> 2)\<rparr>)"
    using s2(2) keep [OF s2(2)] by (simp add: checkpoint_log_def)
  have "storage_run sample_digest m s3"
    by (rule storage_run.checkpoint [OF storage_run.append [OF storage_run.append
          [OF storage_run.open_log [OF storage_run.boot op] s1(1)] s2(1)] s3(1)])
  then show ?thesis using s3(2) that by blast
qed

theorem durable_log_is_a_sequence_witness:
  "\<exists>(m :: (sample_store, nat) memory_registry) s l. storage_run sample_digest m s \<and>
     replay_log l (Some 2) 10 s =
       Ok [\<lparr>sr_sequence = 2, sr_timestamp = 8, sr_headers = [], sr_payload = [66]\<rparr>] \<and>
     fst (append_log l 9 [] [67] s) = Ok 3"
proof -
  obtain m :: "(sample_store, nat) memory_registry" and s l k where run: "storage_run sample_digest m s"
    and lg: "log_state s l = Ok (k, \<lparr>dl_name = ''audit'', dl_next = 3,
       dl_records = [\<lparr>sr_sequence = 1, sr_timestamp = 7, sr_headers = [], sr_payload = [65]\<rparr>,
                     \<lparr>sr_sequence = 2, sr_timestamp = 8, sr_headers = [], sr_payload = [66]\<rparr>],
       dl_checkpoints = (\<lambda>_. None)(''boot'' \<mapsto> 2)\<rparr>)"
    by (rule sample_log_run)
  have handle: "st_local_logs s l = Some k" using lg by (simp add: log_state_Ok)
  note seq = durable_log_is_a_sequence [OF run lg]
  have "replay_log l (Some 2) 10 s = Ok [\<lparr>sr_sequence = 2, sr_timestamp = 8, sr_headers = [], sr_payload = [66]\<rparr>]"
    using seq by simp
  moreover have "fst (append_log l 9 [] [67] s) = Ok 3" using seq handle by (simp add: Let_def)
  ultimately show ?thesis using run by blast
qed

theorem checkpoint_resumes_at_its_record_witness:
  "\<exists>(m :: (sample_store, nat) memory_registry) s l (lg :: durable_log). storage_run sample_digest m s \<and>
     checkpoint_sequence l ''boot'' s = Ok (Some 2) \<and>
     (\<exists>i rest. i < length (dl_records lg) \<and> sr_sequence (dl_records lg ! i) = 2 \<and>
        replay_log l (Some 2) 5 s = Ok (dl_records lg ! i # rest))"
proof -
  obtain m :: "(sample_store, nat) memory_registry" and s l k where run: "storage_run sample_digest m s"
    and lg: "log_state s l = Ok (k, \<lparr>dl_name = ''audit'', dl_next = 3,
       dl_records = [\<lparr>sr_sequence = 1, sr_timestamp = 7, sr_headers = [], sr_payload = [65]\<rparr>,
                     \<lparr>sr_sequence = 2, sr_timestamp = 8, sr_headers = [], sr_payload = [66]\<rparr>],
       dl_checkpoints = (\<lambda>_. None)(''boot'' \<mapsto> 2)\<rparr>)"
    by (rule sample_log_run)
  have cp: "checkpoint_sequence l ''boot'' s = Ok (Some 2)" using lg by (simp add: checkpoint_sequence_def)
  let ?lg = "\<lparr>dl_name = ''audit'', dl_next = 3,
       dl_records = [\<lparr>sr_sequence = 1, sr_timestamp = 7, sr_headers = [], sr_payload = [65]\<rparr>,
                     \<lparr>sr_sequence = 2, sr_timestamp = 8, sr_headers = [], sr_payload = [66]\<rparr>],
       dl_checkpoints = (\<lambda>_. None)(''boot'' \<mapsto> 2)\<rparr>"
  have "length (dl_records ?lg) < 2 ^ 64" and "0 < (5 :: nat)" by simp_all
  note resumes = checkpoint_resumes_at_its_record [OF run lg this(1) cp this(2)]
  show ?thesis
    by (intro exI [of _ m] exI [of _ s] exI [of _ l] exI [of _ ?lg] conjI run cp resumes)
qed

theorem blobs_are_content_addressed_witness:
  "\<exists>(m :: (sample_store, nat) memory_registry) s l s'. storage_run sample_digest m s \<and>
     put_blob sample_digest l [1, 2] s = (Ok ''0201'', s') \<and> get_blob l ''0201'' s' = Ok (Some [1, 2])"
proof -
  obtain d m s where op: "open_blob_store sample_registry storage_new ''assets'' = (d, m, s)" by (metis prod_cases3)
  have run: "storage_run sample_digest m s" by (rule storage_run.open_blob [OF storage_run.boot op])
  have "store_state s (sd_local d) =
      Ok (sd_shared d, \<lparr>bs_name = ''assets'', bs_blobs = (\<lambda>_. None), bs_manifests = (\<lambda>_. None)\<rparr>)"
    using op by (auto simp: open_blob_store_def storage_new_def store_state_Ok Let_def split: prod.splits)
  then obtain s' where put: "put_blob sample_digest (sd_local d) [1, 2] s = (Ok (hex_of (sample_digest [1, 2])), s')"
    by (simp add: put_blob_def Let_def)
  have hex: "hex_of (sample_digest [1, 2]) = ''0201''" by code_simp
  show ?thesis using run put hex blobs_are_content_addressed [OF run put] by auto
qed

end
