(* ===== verification/Process_Table.thy ===== *)
theory Process_Table
  imports Memory_Registry
begin

text \<open>
  The kernel's process table (\<^verbatim>\<open>crates/kernel/src/process.rs\<close>): process records, the activity log,
  guest logs, metering, and the log channel of a process, which the kernel drains as a reader that
  holds no slot.  Blocking waits on the activity log return what a read at that moment returns.
\<close>

section \<open>State\<close>

datatype activity_kind =
    ProcessStarted | GuestReady | GuestBootstrapped | ProcessStopped | ProcessExited | MeteringObserved

record activity_event =
  av_kind :: activity_kind
  av_process :: "u64 option"
  av_message :: string

record guest_log_entry =
  gl_process :: "u64 option"
  gl_level :: string
  gl_target :: string
  gl_message :: string

record metering_observation =
  mo_cpu :: u64
  mo_memory :: u64
  mo_storage :: u64
  mo_bandwidth :: u64

record log_channel_state =
  lc_backend :: kernel_backend
  lc_position :: u64

record process_state =
  ps_module :: string
  ps_entrypoint :: string
  ps_running :: bool
  ps_grants :: "capability_grant list"
  ps_log_shared :: "u64 option"
  ps_log_channel :: "log_channel_state option"

record process_table =
  pt_processes :: "u64 \<Rightarrow> process_state option"
  pt_activity :: "activity_event list"
  pt_guest_logs :: "guest_log_entry list"
  pt_metering :: "u64 \<Rightarrow> metering_observation option"
  pt_next :: u64
  pt_seed :: u64

record process_descriptor =
  pd_local :: u64
  pd_module :: string
  pd_entrypoint :: string

definition pt_new :: "u64 \<Rightarrow> process_table" where
  "pt_new seed = \<lparr>pt_processes = (\<lambda>_. None), pt_activity = [], pt_guest_logs = [],
     pt_metering = (\<lambda>_. None), pt_next = 0, pt_seed = seed\<rparr>"

section \<open>Life cycle\<close>

definition next_process_id :: "process_table \<Rightarrow> u64 \<times> process_table" where
  "next_process_id t = (case next_id (pt_seed t) (pt_next t) of (ident, c) \<Rightarrow> (ident, t\<lparr>pt_next := c\<rparr>))"

definition record_activity :: "activity_event \<Rightarrow> process_table \<Rightarrow> process_table" where
  "record_activity ev t = t\<lparr>pt_activity := pt_activity t @ [ev]\<rparr>"

definition process_not_found :: "u64 \<Rightarrow> kernel_error" where
  "process_not_found pid = NotFoundE (''process '' @ show_u64 pid)"

definition start_process ::
    "string \<Rightarrow> string \<Rightarrow> capability_grant list \<Rightarrow> process_table \<Rightarrow> process_descriptor \<times> process_table" where
  "start_process modul entry grants t =
    (let (pid, t1) = next_process_id t;
         st = \<lparr>ps_module = modul, ps_entrypoint = entry, ps_running = True, ps_grants = grants,
               ps_log_shared = None, ps_log_channel = None\<rparr>
     in (\<lparr>pd_local = pid, pd_module = modul, pd_entrypoint = entry\<rparr>,
         record_activity \<lparr>av_kind = ProcessStarted, av_process = Some pid,
             av_message = ''process '' @ modul @ '' started''\<rparr>
           (t1\<lparr>pt_processes := (pt_processes t1)(pid \<mapsto> st)\<rparr>)))"

definition kernel_stop_process :: "u64 \<Rightarrow> (process_table, kernel_error, unit) comp" where
  "kernel_stop_process pid t =
    (case pt_processes t pid of
       None \<Rightarrow> (Err (process_not_found pid), t)
     | Some st \<Rightarrow>
         if \<not> ps_running st then (Err (ProcessStoppedE pid), t)
         else (Ok (), record_activity \<lparr>av_kind = ProcessStopped, av_process = Some pid,
                 av_message = ''process '' @ ps_module st @ '' stopped''\<rparr>
               (t\<lparr>pt_processes := (pt_processes t)(pid \<mapsto> st\<lparr>ps_running := False\<rparr>)\<rparr>)))"

definition reap_process :: "u64 \<Rightarrow> (process_table, kernel_error, unit) comp" where
  "reap_process pid t =
    (case pt_processes t pid of
       None \<Rightarrow> (Err (process_not_found pid), t)
     | Some _ \<Rightarrow> (Ok (), t\<lparr>pt_processes := (pt_processes t)(pid := None),
                          pt_metering := (pt_metering t)(pid := None)\<rparr>))"

definition inspect_process :: "process_table \<Rightarrow> u64 \<Rightarrow> (kernel_error, process_descriptor) result" where
  "inspect_process t pid =
    (case pt_processes t pid of
       None \<Rightarrow> Err (process_not_found pid)
     | Some st \<Rightarrow> Ok \<lparr>pd_local = pid, pd_module = ps_module st, pd_entrypoint = ps_entrypoint st\<rparr>)"

definition process_grants :: "process_table \<Rightarrow> u64 \<Rightarrow> (kernel_error, capability_grant list) result" where
  "process_grants t pid =
    (case pt_processes t pid of None \<Rightarrow> Err (process_not_found pid) | Some st \<Rightarrow> Ok (ps_grants st))"

section \<open>Logs and metering\<close>

definition read_activity_from :: "process_table \<Rightarrow> nat \<Rightarrow> activity_event list" where
  "read_activity_from t cursor = drop (min cursor (length (pt_activity t))) (pt_activity t)"

definition write_guest_log :: "guest_log_entry \<Rightarrow> process_table \<Rightarrow> process_table" where
  "write_guest_log e t = t\<lparr>pt_guest_logs := pt_guest_logs t @ [e]\<rparr>"

definition read_guest_logs_from :: "process_table \<Rightarrow> nat \<Rightarrow> guest_log_entry list" where
  "read_guest_logs_from t cursor = drop (min cursor (length (pt_guest_logs t))) (pt_guest_logs t)"

definition metering_message :: "metering_observation \<Rightarrow> string" where
  "metering_message ob = ''metering updated cpu='' @ show_u64 (mo_cpu ob) @ '' memory='' @ show_u64 (mo_memory ob)
     @ '' storage='' @ show_u64 (mo_storage ob) @ '' bandwidth='' @ show_u64 (mo_bandwidth ob)"

definition observe_metering :: "u64 \<Rightarrow> metering_observation \<Rightarrow> process_table \<Rightarrow> process_table" where
  "observe_metering pid ob t =
    record_activity \<lparr>av_kind = MeteringObserved, av_process = Some pid, av_message = metering_message ob\<rparr>
      (t\<lparr>pt_metering := (pt_metering t)(pid \<mapsto> ob)\<rparr>)"

definition metering_of :: "process_table \<Rightarrow> u64 \<Rightarrow> metering_observation option" where
  "metering_of t pid = pt_metering t pid"

section \<open>Log channels\<close>

definition register_log_channel ::
    "('st, 'rid) region_engine \<Rightarrow> u64 \<Rightarrow> u64 \<Rightarrow>
     (process_table \<times> ('st, 'rid) memory_registry, kernel_error, unit) comp" where
  "register_log_channel en pid shared = bindR (on_shared (attach_backend en shared))
     (\<lambda>b (t, m).
        case pt_processes t pid of
          None \<Rightarrow> (Err (process_not_found pid), (t, m))
        | Some st \<Rightarrow> (Ok (), (t\<lparr>pt_processes := (pt_processes t)(pid \<mapsto>
              st\<lparr>ps_log_shared := Some shared,
                 ps_log_channel := Some \<lparr>lc_backend = b, lc_position = 0\<rparr>\<rparr>)\<rparr>, m)))"

definition log_channel_shared_id :: "process_table \<Rightarrow> u64 \<Rightarrow> u64 option" where
  "log_channel_shared_id t pid = (case pt_processes t pid of None \<Rightarrow> None | Some st \<Rightarrow> ps_log_shared st)"

fun show_abi_code :: "abi_error_code \<Rightarrow> string" where
  "show_abi_code InvalidHandle = ''InvalidHandle''"
| "show_abi_code DetachedResource = ''DetachedResource''"
| "show_abi_code PermissionDenied = ''PermissionDenied''"
| "show_abi_code QuotaExceeded = ''QuotaExceeded''"
| "show_abi_code MalformedPayload = ''MalformedPayload''"
| "show_abi_code NotFound = ''NotFound''"
| "show_abi_code Timeout = ''Timeout''"
| "show_abi_code Internal = ''Internal''"

fun show_wire_error :: "wire_error \<Rightarrow> string" where
  "show_wire_error InvalidLayout = ''invalid layout''"
| "show_wire_error BufferFull = ''buffer full''"
| "show_wire_error BufferEmpty = ''buffer empty''"
| "show_wire_error ReaderBehind = ''reader was overtaken by writers''"
| "show_wire_error (InvalidFrame msg) = ''invalid frame header: '' @ msg"
| "show_wire_error (TornFrame pos) = ''torn frame header at position '' @ show_u64 pos @ '': checksum mismatch''"
| "show_wire_error CapacityExceeded = ''capacity exceeded''"
| "show_wire_error (CasConflict expected actual) = ''compare-and-set failed: expected '' @ show_u64 expected @
    '', got '' @ (case actual of None \<Rightarrow> ''None'' | Some a \<Rightarrow> ''Some('' @ show_u64 a @ '')'')"
| "show_wire_error ChannelClosed = ''channel closed''"
| "show_wire_error ConnectionLost = ''connection lost''"
| "show_wire_error Terminated = ''channel terminated''"
| "show_wire_error (SerializationFailed msg) = ''serialization error: '' @ msg"
| "show_wire_error InvalidRegion = ''invalid shared region''"
| "show_wire_error LayoutMismatch = ''region layout mismatch''"
| "show_wire_error (Abi code) = ''ABI error: '' @ show_abi_code code"
| "show_wire_error (Guest msg) = ''guest error: '' @ msg"
| "show_wire_error IndexOutOfBounds = ''index out of bounds''"
| "show_wire_error Overwritten = ''subscriber data was overwritten: publisher advanced past ring capacity''"
| "show_wire_error BackpressureNotSupported = ''backpressure not supported on this transport''"
| "show_wire_error (Transport msg) = ''transport error: '' @ msg"

definition wasm_wire :: "wire_error \<Rightarrow> kernel_error" where
  "wasm_wire e = WasmE (show_wire_error e)"

definition drain_log_channel ::
    "('st, 'rid) region_engine \<Rightarrow> u64 \<Rightarrow>
     (process_table \<times> ('st, 'rid) memory_registry, kernel_error, u8 list list) comp" where
  "drain_log_channel en pid = (\<lambda>(t, m).
    case pt_processes t pid of
      None \<Rightarrow> (Err (process_not_found pid), (t, m))
    | Some st \<Rightarrow>
       (case ps_log_channel st of
          None \<Rightarrow> (Ok [], (t, m))
        | Some lc \<Rightarrow>
            bindR (on_shared (map_err wasm_wire (load_shared_capacity (kernel_ops en (lc_backend lc)))))
            (\<lambda>capacity.
               if capacity = 0 \<or> \<not> is_power_of_two capacity
               then fail (WasmE (''log channel has invalid capacity '' @ show_u64 capacity))
               else bindR (on_shared (map_err wasm_wire
                      (drain_frames (kernel_ops en (lc_backend lc)) (lc_position lc) capacity)))
                 (\<lambda>(frames, read_pos). bindR (modify_self (\<lambda>t. t\<lparr>pt_processes := (pt_processes t)(pid \<mapsto>
                      st\<lparr>ps_log_channel := Some (lc\<lparr>lc_position := read_pos\<rparr>)\<rparr>)\<rparr>))
                 (\<lambda>_. ret frames))) (t, m)))"

section \<open>Properties\<close>

text \<open>
  The kernel drains a guest's log channel in order and exactly once.  Whatever ready frames lie
  between the kernel's read position and the tail of the channel's ring are returned with their
  payloads intact and in order, the position moves to the tail, and the next drain returns nothing.
  The ring itself is not modified, so a draining kernel never holds the guest back.
\<close>

theorem log_channel_drains_once:
  assumes "pt_processes t pid = Some st"
    and "ps_log_channel st = Some \<lparr>lc_backend = b, lc_position = pos\<rparr>"
    and "kb_good en rlen rbytes rput rid b m" and "ring_fits (unat (kb_size b)) cap"
    and "u64_at (kb_view rbytes rid b m) (unat SHARED_CAPACITY_OFFSET) = cap"
    and "stretch (kb_view rbytes rid b m) cap (unat pos) (map (framed tg fl) ds)"
    and "(\<Sum>d\<leftarrow>ds. 16 + length d) \<le> unat cap" and "unat pos + 2 * unat cap < 2 ^ 64"
  shows "\<exists>t'. drain_log_channel en pid (t, m) = (Ok ds, (t', m)) \<and>
           drain_log_channel en pid (t', m) = (Ok [], (t', m))"
proof -
  let ?B = "kernel_ops en b" and ?v = "kb_view rbytes rid b m"
  let ?tail = "tail_of ?v"
  have pow: "cap \<noteq> 0" "is_power_of_two cap" and fits: "4096 \<le> unat (kb_size b)"
    using assms(4) by (auto simp: ring_fits_def is_power_of_two_def list_ex_iff)
  have cap: "load_shared_capacity ?B m = (Ok cap, m)"
    using kb.load_field_ok [OF assms(3), of SHARED_CAPACITY_OFFSET] fits assms(5)
    by (simp add: load_shared_capacity_def offset_defs)
  have spn: "span (map (framed tg fl) ds) \<le> unat cap" using assms(7) by simp
  have "unat pos + unat cap < 2 ^ 64" using assms(8) by simp
  from kb.drain_frames_stretch [OF assms(3,4,6) spn this]
  have first: "drain_frames ?B pos cap m = (Ok (ds, ?tail), m)" by (simp add: comp_def framed_def)
  have "unat ?tail + unat cap < 2 ^ 64" using assms(6,7,8) by (simp add: stretch_def)
  from kb.drain_frames_at_tail [OF assms(3,4) this]
  have second: "drain_frames ?B ?tail cap m = (Ok ([], ?tail), m)" .
  let ?st = "st\<lparr>ps_log_channel := Some \<lparr>lc_backend = b, lc_position = ?tail\<rparr>\<rparr>"
  let ?t = "t\<lparr>pt_processes := (pt_processes t)(pid \<mapsto> ?st)\<rparr>"
  have "drain_log_channel en pid (t, m) = (Ok ds, (?t, m))"
    using assms(1,2) pow cap first by (simp add: drain_log_channel_def)
  moreover have "drain_log_channel en pid (?t, m) = (Ok [], (?t, m))"
    using pow cap second by (simp add: drain_log_channel_def)
  ultimately show ?thesis by blast
qed

text \<open>A log channel of capacity 64 that holds the single frame \<open>[1, 2]\<close>.\<close>

definition sample_ring :: bytemap where
  "sample_ring = written (upd_bytes (\<lambda>_. 0) 1072 (to_le 8 (64 :: u64))) 64 18 (ready_header 7 0 [1, 2])
     (ready_header 7 0 [1, 2]) [1, 2]"

definition sample_channel :: kernel_backend where
  "sample_channel = \<lparr>kb_local = 5, kb_shared = 7, kb_base = 0, kb_size = 8192\<rparr>"

definition sample_channel_memory :: "(sample_store, nat) memory_registry" where
  "sample_channel_memory = (mr_new (1, (\<lambda>_. None)(0 \<mapsto> (8192, sample_ring))) 42)
     \<lparr>mr_regions := (\<lambda>_. None)(7 \<mapsto> 0), mr_mappings := [(5, \<lparr>ms_region = 0, ms_shared = 7\<rparr>)]\<rparr>"

definition sample_process :: process_state where
  "sample_process = \<lparr>ps_module = ''app'', ps_entrypoint = ''main'', ps_running = True, ps_grants = [],
     ps_log_shared = Some 7, ps_log_channel = Some \<lparr>lc_backend = sample_channel, lc_position = 0\<rparr>\<rparr>"

lemma zero_ring_fields:
  "8 dvd a \<Longrightarrow> u64_at (upd_bytes (\<lambda>_. 0) 1072 (to_le 8 (64 :: u64))) a = (if a = 1072 then 64 else 0)"
  by (simp add: u64_at_upd_aligned)

lemma zero_ring_slots:
  "slots_from 0 es"
  by (simp add: slots_from_def)

lemma sample_ring_stretch: "stretch sample_ring 64 0 (map (framed 7 0) [[1, 2]])"
proof -
  let ?z = "upd_bytes (\<lambda>_. 0) 1072 (to_le 8 (64 :: u64)) :: bytemap"
  have tail: "tail_of ?z = 0" by (simp add: tail_of_def zero_ring_fields)
  have "frames_at (written ?z 64 18 (ready_header 7 0 [1, 2]) (ready_header 7 0 [1, 2]) [1, 2]) 64 0
      ([] @ [(ready_header 7 0 [1, 2], [1, 2])])"
    by (rule frames_at_written) (simp_all add: tail)
  then show ?thesis
    by (simp add: stretch_def sample_ring_def framed_def written_tail tail zero_ring_slots)
qed

theorem log_channel_drains_once_witness:
  "\<exists>t'. drain_log_channel sample_engine 9
      ((pt_new 42)\<lparr>pt_processes := (\<lambda>_. None)(9 \<mapsto> sample_process)\<rparr>, sample_channel_memory)
      = (Ok [[1, 2]], (t', sample_channel_memory)) \<and>
    drain_log_channel sample_engine 9 (t', sample_channel_memory) = (Ok [], (t', sample_channel_memory))"
proof -
  have view: "kb_view sample_bytes 0 sample_channel sample_channel_memory = sample_ring"
    by (simp add: kb_view_def sample_channel_def sample_channel_memory_def mr_new_def sample_bytes_def)
  have good: "kb_good sample_engine sample_len sample_bytes sample_put 0 sample_channel sample_channel_memory"
    using sample_engine_ok
    by (simp add: kb_good_def sample_channel_def sample_channel_memory_def mr_new_def sample_len_def)
  have "is_power_of_two 64"
    unfolding is_power_of_two_def list_ex_iff by (intro bexI [of _ 6]) simp_all
  then have fits: "ring_fits (unat (kb_size sample_channel)) 64"
    by (simp add: ring_fits_def sample_channel_def)
  have cap: "u64_at (kb_view sample_bytes 0 sample_channel sample_channel_memory) (unat SHARED_CAPACITY_OFFSET) = 64"
    by (simp add: view sample_ring_def written_field SHARED_CAPACITY_OFFSET_def zero_ring_fields)
  have proc: "pt_processes ((pt_new 42)\<lparr>pt_processes := (\<lambda>_. None)(9 \<mapsto> sample_process)\<rparr>) 9 = Some sample_process"
    by simp
  have chan: "ps_log_channel sample_process = Some \<lparr>lc_backend = sample_channel, lc_position = 0\<rparr>"
    by (simp add: sample_process_def)
  have str: "stretch (kb_view sample_bytes 0 sample_channel sample_channel_memory) 64 (unat (0 :: u64))
      (map (framed 7 0) [[1, 2]])"
    using sample_ring_stretch by (simp add: view)
  show ?thesis
    by (rule log_channel_drains_once [OF proc chan good fits cap str]) simp_all
qed

end
