(* ===== verification/Module_Probe.thy ===== *)
theory Module_Probe
  imports Prelude "HOL-Library.Sublist"
begin

text \<open>
  The probe that reads a guest's WebAssembly module before it is spawned
  (\<^verbatim>\<open>crates/runtime/src/module_probe.rs\<close>): which sections the module has, whether a memory is
  shared, whether the code holds an atomic notify and whether the worker entry is exported.  A cursor
  is the list of bytes that remain.  A writer of modules serves as the specification.
\<close>

unbundle bit_operations_syntax

section \<open>The probe\<close>

definition CODE_SECTION :: u8 where "CODE_SECTION = 10"
definition EXPORT_SECTION :: u8 where "EXPORT_SECTION = 7"
definition MEMORY_SECTION :: u8 where "MEMORY_SECTION = 5"

definition str_bytes :: "string \<Rightarrow> u8 list" where
  "str_bytes s = map of_char s"

definition WORKER_ENTRY_EXPORT :: "u8 list" where
  "WORKER_ENTRY_EXPORT = str_bytes ''__selium_guest_worker''"

record module_probe =
  mp_shared :: bool
  mp_notify :: bool
  mp_worker :: bool

definition fast_path_capable :: "module_probe \<Rightarrow> bool" where
  "fast_path_capable p = (mp_shared p \<and> mp_notify p)"

definition multithreaded :: "module_probe \<Rightarrow> bool" where
  "multithreaded p = mp_worker p"

definition module_magic :: "u8 list" where
  "module_magic = [0, 0x61, 0x73, 0x6D, 1, 0, 0, 0]"

definition section_cursor :: "u8 list \<Rightarrow> u8 list option" where
  "section_cursor bytes =
    (if length bytes < 8 \<or> take 8 bytes \<noteq> module_magic then None else Some (drop 8 bytes))"

fun read_leb_from :: "nat \<Rightarrow> u32 \<Rightarrow> u8 list \<Rightarrow> (u32 \<times> u8 list) option" where
  "read_leb_from shift acc [] = None"
| "read_leb_from shift acc (b # bs) =
    (let acc' = acc OR push_bit shift (ucast (b AND 0x7F))
     in if b AND 0x80 = 0 then Some (acc', bs)
        else if shift + 7 \<ge> 32 then None
        else read_leb_from (shift + 7) acc' bs)"

definition read_leb_u32 :: "u8 list \<Rightarrow> (u32 \<times> u8 list) option" where
  "read_leb_u32 bs = read_leb_from 0 0 bs"

fun next_section :: "u8 list \<Rightarrow> ((u8 \<times> u8 list) \<times> u8 list) option" where
  "next_section [] = None"
| "next_section (ident # bs) =
    (case read_leb_u32 bs of
       None \<Rightarrow> None
     | Some (n, r) \<Rightarrow>
         if unat n \<le> length r then Some ((ident, take (unat n) r), drop (unat n) r) else None)"

fun windows_any :: "u8 list \<Rightarrow> bool" where
  "windows_any (a # b # bs) = (a = 0xFE \<and> b = 0 \<or> windows_any (b # bs))"
| "windows_any _ = False"

definition scan_code_section :: "u8 list \<Rightarrow> bool" where
  "scan_code_section payload = windows_any payload"

fun scan_exports :: "nat \<Rightarrow> u8 list \<Rightarrow> bool" where
  "scan_exports 0 bs = False"
| "scan_exports (Suc k) bs =
    (case read_leb_u32 bs of
       None \<Rightarrow> False
     | Some (n, r) \<Rightarrow>
         if length r < unat n then False
         else if take (unat n) r = WORKER_ENTRY_EXPORT then True
         else (case read_leb_u32 (drop 1 (drop (unat n) r)) of
           None \<Rightarrow> False
         | Some (_, r') \<Rightarrow> scan_exports k r'))"

definition scan_export_section :: "u8 list \<Rightarrow> bool" where
  "scan_export_section payload =
    (case read_leb_u32 payload of None \<Rightarrow> False | Some (count, r) \<Rightarrow> scan_exports (unat count) r)"

fun scan_memories :: "nat \<Rightarrow> u8 list \<Rightarrow> bool" where
  "scan_memories 0 bs = False"
| "scan_memories (Suc k) bs =
    (case bs of
       [] \<Rightarrow> False
     | flags # r \<Rightarrow>
         (case read_leb_u32 r of
            None \<Rightarrow> False
          | Some (_, r1) \<Rightarrow>
              (case (if flags AND 1 \<noteq> 0 then map_option snd (read_leb_u32 r1) else Some r1) of
                 None \<Rightarrow> False
               | Some r2 \<Rightarrow> if flags AND 2 \<noteq> 0 then True else scan_memories k r2)))"

definition scan_memory_section :: "u8 list \<Rightarrow> bool" where
  "scan_memory_section payload =
    (case read_leb_u32 payload of None \<Rightarrow> False | Some (count, r) \<Rightarrow> scan_memories (unat count) r)"

lemma read_leb_from_shorter: "read_leb_from shift acc bs = Some (v, r) \<Longrightarrow> length r < length bs"
proof (induction shift acc bs rule: read_leb_from.induct)
  case (2 shift acc b bs)
  then show ?case by (auto simp: Let_def split: if_splits)
qed simp

lemma next_section_shorter: "next_section bs = Some (s, r) \<Longrightarrow> length r < length bs"
  by (cases bs)
     (auto simp: read_leb_u32_def less_Suc_eq_le split: option.splits if_splits
       dest!: read_leb_from_shorter)

function probe_sections :: "module_probe \<Rightarrow> u8 list \<Rightarrow> module_probe" where
  "probe_sections p bs =
    (case next_section bs of
       None \<Rightarrow> p
     | Some ((ident, payload), r) \<Rightarrow>
         probe_sections
           (if ident = MEMORY_SECTION then p\<lparr>mp_shared := mp_shared p \<or> scan_memory_section payload\<rparr>
            else if ident = CODE_SECTION then p\<lparr>mp_notify := mp_notify p \<or> scan_code_section payload\<rparr>
            else if ident = EXPORT_SECTION then p\<lparr>mp_worker := mp_worker p \<or> scan_export_section payload\<rparr>
            else p) r)"
  by pat_completeness auto

termination
  by (relation "measure (\<lambda>(p, bs). length bs)") (auto dest: next_section_shorter)

declare probe_sections.simps [simp del]

definition probe :: "u8 list \<Rightarrow> module_probe" where
  "probe m =
    (case section_cursor m of
       None \<Rightarrow> \<lparr>mp_shared = False, mp_notify = False, mp_worker = False\<rparr>
     | Some bs \<Rightarrow> probe_sections \<lparr>mp_shared = False, mp_notify = False, mp_worker = False\<rparr> bs)"

section \<open>A writer of modules\<close>

fun leb :: "nat \<Rightarrow> u8 list" where
  "leb n = (if n < 128 then [of_nat n] else of_nat (n mod 128 + 128) # leb (n div 128))"

declare leb.simps [simp del]

datatype memory_decl = MemoryDecl (md_shared: bool) (md_min: u32) (md_max: "u32 option")

datatype export_decl = ExportDecl (ed_name: "u8 list") (ed_kind: u8) (ed_index: u32)

datatype module_section =
    MemorySec "memory_decl list"
  | ExportSec "export_decl list"
  | CodeSec "u8 list"
  | OtherSec u8 "u8 list"

fun put_memory :: "memory_decl \<Rightarrow> u8 list" where
  "put_memory (MemoryDecl sh lo hi) =
    ((if sh then 2 else 0) OR (if hi = None then 0 else 1)) # leb (unat lo) @
    (case hi of None \<Rightarrow> [] | Some h \<Rightarrow> leb (unat h))"

fun put_export :: "export_decl \<Rightarrow> u8 list" where
  "put_export (ExportDecl name kind index) = leb (length name) @ name @ kind # leb (unat index)"

fun section_ident :: "module_section \<Rightarrow> u8" where
  "section_ident (MemorySec _) = MEMORY_SECTION"
| "section_ident (ExportSec _) = EXPORT_SECTION"
| "section_ident (CodeSec _) = CODE_SECTION"
| "section_ident (OtherSec i _) = i"

fun section_payload :: "module_section \<Rightarrow> u8 list" where
  "section_payload (MemorySec ms) = leb (length ms) @ concat (map put_memory ms)"
| "section_payload (ExportSec es) = leb (length es) @ concat (map put_export es)"
| "section_payload (CodeSec bs) = bs"
| "section_payload (OtherSec _ bs) = bs"

definition put_section :: "module_section \<Rightarrow> u8 list" where
  "put_section s = section_ident s # leb (length (section_payload s)) @ section_payload s"

definition put_module :: "module_section list \<Rightarrow> u8 list" where
  "put_module ss = module_magic @ concat (map put_section ss)"

text \<open>Lengths that a module can express, and custom sections that are not one of the probed kinds.\<close>

fun section_fits :: "module_section \<Rightarrow> bool" where
  "section_fits (OtherSec i bs) =
    (i \<notin> {MEMORY_SECTION, EXPORT_SECTION, CODE_SECTION} \<and> length bs < 2 ^ 32)"
| "section_fits (CodeSec bs) = (length bs < 2 ^ 32)"
| "section_fits (MemorySec ms) = (length (section_payload (MemorySec ms)) < 2 ^ 32)"
| "section_fits (ExportSec es) = (length (section_payload (ExportSec es)) < 2 ^ 32)"

section \<open>Reading back what was written\<close>

lemma leb_bytes:
  assumes "k < 128"
  shows "(of_nat k :: u8) AND 0x80 = 0" "ucast ((of_nat k :: u8) AND 0x7F) = (of_nat k :: u32)"
    "(of_nat (k + 128) :: u8) AND 0x80 \<noteq> 0" "ucast ((of_nat (k + 128) :: u8) AND 0x7F) = (of_nat k :: u32)"
proof -
  have "\<forall>k\<in>set [0..<128]. (of_nat k :: u8) AND 0x80 = 0 \<and> ucast ((of_nat k :: u8) AND 0x7F) = (of_nat k :: u32) \<and>
      (of_nat (k + 128) :: u8) AND 0x80 \<noteq> 0 \<and> ucast ((of_nat (k + 128) :: u8) AND 0x7F) = (of_nat k :: u32)"
    by code_simp
  moreover have "k \<in> set [0..<128]" using assms by simp
  ultimately show "(of_nat k :: u8) AND 0x80 = 0" "ucast ((of_nat k :: u8) AND 0x7F) = (of_nat k :: u32)"
    "(of_nat (k + 128) :: u8) AND 0x80 \<noteq> 0" "ucast ((of_nat (k + 128) :: u8) AND 0x7F) = (of_nat k :: u32)"
    by blast+
qed

lemma leb_word_split: "(of_nat n :: u32) = of_nat (n mod 128) OR push_bit 7 (of_nat (n div 128))"
proof (rule bit_word_eqI)
  fix m assume "m < LENGTH(32)"
  moreover have "n mod 128 = take_bit 7 n" "n div 128 = drop_bit 7 n"
    by (simp_all add: take_bit_eq_mod drop_bit_eq_div)
  ultimately show "bit (of_nat n :: u32) m = bit (of_nat (n mod 128) OR push_bit 7 (of_nat (n div 128)) :: u32) m"
    by (auto simp: bit_or_iff bit_push_bit_iff bit_of_nat_iff bit_take_bit_iff bit_drop_bit_eq)
qed

lemma read_leb_from_leb:
  "n < 2 ^ (32 - shift) \<Longrightarrow> shift < 32 \<Longrightarrow>
    read_leb_from shift acc (leb n @ rest) = Some (acc OR push_bit shift (of_nat n), rest)"
proof (induction n arbitrary: shift acc rule: leb.induct)
  case (1 n)
  show ?case
  proof (cases "n < 128")
    case True
    then show ?thesis by (subst leb.simps) (simp add: leb_bytes Let_def)
  next
    case False
    let ?k = "n mod 128"
    have "(2 :: nat) ^ 7 < 2 ^ (32 - shift)" using False "1.prems"(1) by simp
    then have sh: "7 < 32 - shift" by (rule power_less_imp_less_exp [rotated]) simp
    then have "32 - shift = (32 - (shift + 7)) + 7" by arith
    then have "(2 :: nat) ^ (32 - shift) = 2 ^ ((32 - (shift + 7)) + 7)" by (rule arg_cong)
    also have "\<dots> = 2 ^ (32 - (shift + 7)) * 128" unfolding power_add by simp
    finally have "n div 128 < 2 ^ (32 - (shift + 7))" using "1.prems"(1) by (simp add: less_mult_imp_div_less)
    moreover have "shift + 7 < 32" using sh by simp
    ultimately have ih: "read_leb_from (shift + 7) a (leb (n div 128) @ rest) =
        Some (a OR push_bit (shift + 7) (of_nat (n div 128)), rest)" for a
      using "1.IH" [OF False] by blast
    have "(acc OR push_bit shift (of_nat ?k)) OR push_bit (shift + 7) (of_nat (n div 128)) =
        acc OR push_bit shift (of_nat n :: u32)"
      by (subst (3) leb_word_split) (simp add: push_bit_or push_bit_push_bit or.assoc)
    then show ?thesis
      using False leb_bytes [of ?k] ih \<open>shift + 7 < 32\<close>
      by (subst leb.simps) (simp add: Let_def del: of_nat_add)
  qed
qed

lemma read_leb: "n < 2 ^ 32 \<Longrightarrow> read_leb_u32 (leb n @ rest) = Some (of_nat n, rest)"
  using read_leb_from_leb [of n 0 0 rest] by (simp add: read_leb_u32_def)

lemma scan_memories_put:
  "scan_memories (length ms) (concat (map put_memory ms) @ rest) \<longleftrightarrow> (\<exists>m\<in>set ms. md_shared m)"
proof (induction ms)
  case (Cons m ms)
  obtain sh lo hi where m: "m = MemoryDecl sh lo hi" by (cases m)
  have "unat x < 2 ^ 32" for x :: u32 by (rule unat_u32_lt)
  note rd = read_leb [OF this]
  show ?case
    by (cases hi; cases sh) (simp_all add: m rd Cons.IH)
qed simp

lemma length_leb_pos: "0 < length (leb n)"
  by (subst leb.simps) simp

lemma scan_exports_put:
  "\<forall>e\<in>set es. length (ed_name e) < 2 ^ 32 \<Longrightarrow>
    scan_exports (length es) (concat (map put_export es) @ rest) \<longleftrightarrow>
      (\<exists>e\<in>set es. ed_name e = WORKER_ENTRY_EXPORT)"
proof (induction es)
  case (Cons e es)
  obtain name kind index where e: "e = ExportDecl name kind index" by (cases e)
  have "unat index < 2 ^ 32" by (rule unat_u32_lt)
  note rd = read_leb [OF this]
  have nm: "length name < 2 ^ 32" using Cons.prems e by simp
  show ?case
    using Cons by (simp add: e rd read_leb [OF nm] unat_of_nat_u32 [OF nm])
qed simp

lemma windows_any_iff: "windows_any bs \<longleftrightarrow> sublist [0xFE, 0] bs"
proof (induction bs rule: windows_any.induct)
  case (1 a b bs)
  show ?case
    unfolding windows_any.simps 1 by (subst (2) sublist_Cons_right) auto
qed (auto simp: sublist_Cons_right)

lemma length_concat_ge: "x \<in> set xs \<Longrightarrow> length (f x) \<le> length (concat (map f xs))"
  by (induction xs) auto

lemma length_le_concat: "(\<And>x. x \<in> set xs \<Longrightarrow> 0 < length (f x)) \<Longrightarrow> length xs \<le> length (concat (map f xs))"
proof (induction xs)
  case (Cons x xs)
  have "0 < length (f x)" "length xs \<le> length (concat (map f xs))" using Cons by auto
  then show ?case by (simp del: length_greater_0_conv)
qed simp

lemma section_fits_length: "section_fits s \<Longrightarrow> length (section_payload s) < 2 ^ 32"
  by (cases s) auto

lemma next_section_put:
  assumes "section_fits s"
  shows "next_section (put_section s @ rest) = Some ((section_ident s, section_payload s), rest)"
  using section_fits_length [OF assms]
  by (simp add: put_section_def read_leb unat_of_nat_u32 del: unsigned_of_nat)

lemma scan_memory_section_put:
  assumes "section_fits (MemorySec ms)"
  shows "scan_memory_section (section_payload (MemorySec ms)) \<longleftrightarrow> (\<exists>m\<in>set ms. md_shared m)"
proof -
  have "length ms \<le> length (concat (map put_memory ms))"
    by (rule length_le_concat) (case_tac x, simp)
  then have n: "length ms < 2 ^ 32" using assms by simp
  show ?thesis
    using scan_memories_put [of ms "[]"]
    by (simp add: scan_memory_section_def read_leb [OF n] unat_of_nat_u32 [OF n] del: unsigned_of_nat)
qed

lemma scan_export_section_put:
  assumes "section_fits (ExportSec es)"
  shows "scan_export_section (section_payload (ExportSec es)) \<longleftrightarrow> (\<exists>e\<in>set es. ed_name e = WORKER_ENTRY_EXPORT)"
proof -
  have "length es \<le> length (concat (map put_export es))"
    by (rule length_le_concat) (case_tac x, simp)
  then have n: "length es < 2 ^ 32" using assms by simp
  have "length (ed_name e) < 2 ^ 32" if "e \<in> set es" for e
  proof -
    have "length (ed_name e) \<le> length (put_export e)" by (cases e) simp
    also have "\<dots> \<le> length (concat (map put_export es))" using that by (rule length_concat_ge)
    finally show ?thesis using assms by simp
  qed
  then show ?thesis
    using scan_exports_put [of es "[]"]
    by (simp add: scan_export_section_def read_leb [OF n] unat_of_nat_u32 [OF n] del: unsigned_of_nat)
qed

text \<open>What a section contributes to the result of the probe.\<close>

fun declares_shared :: "module_section \<Rightarrow> bool" where
  "declares_shared (MemorySec ms) = (\<exists>m\<in>set ms. md_shared m)"
| "declares_shared _ = False"

fun contains_notify :: "module_section \<Rightarrow> bool" where
  "contains_notify (CodeSec bs) = sublist [0xFE, 0] bs"
| "contains_notify _ = False"

fun exports_worker :: "module_section \<Rightarrow> bool" where
  "exports_worker (ExportSec es) = (\<exists>e\<in>set es. ed_name e = WORKER_ENTRY_EXPORT)"
| "exports_worker _ = False"

lemmas section_numbers = MEMORY_SECTION_def EXPORT_SECTION_def CODE_SECTION_def

lemma probe_section_step:
  assumes fits: "section_fits s"
  shows "probe_sections p (put_section s @ rest) =
    probe_sections \<lparr>mp_shared = mp_shared p \<or> declares_shared s, mp_notify = mp_notify p \<or> contains_notify s,
      mp_worker = mp_worker p \<or> exports_worker s\<rparr> rest"
proof -
  have "probe_sections p (put_section s @ rest) = probe_sections
      (if section_ident s = MEMORY_SECTION then p\<lparr>mp_shared := mp_shared p \<or> scan_memory_section (section_payload s)\<rparr>
       else if section_ident s = CODE_SECTION then p\<lparr>mp_notify := mp_notify p \<or> scan_code_section (section_payload s)\<rparr>
       else if section_ident s = EXPORT_SECTION then p\<lparr>mp_worker := mp_worker p \<or> scan_export_section (section_payload s)\<rparr>
       else p) rest"
    by (subst probe_sections.simps) (simp add: next_section_put [OF fits])
  also have "(if section_ident s = MEMORY_SECTION then p\<lparr>mp_shared := mp_shared p \<or> scan_memory_section (section_payload s)\<rparr>
       else if section_ident s = CODE_SECTION then p\<lparr>mp_notify := mp_notify p \<or> scan_code_section (section_payload s)\<rparr>
       else if section_ident s = EXPORT_SECTION then p\<lparr>mp_worker := mp_worker p \<or> scan_export_section (section_payload s)\<rparr>
       else p) = \<lparr>mp_shared = mp_shared p \<or> declares_shared s, mp_notify = mp_notify p \<or> contains_notify s,
      mp_worker = mp_worker p \<or> exports_worker s\<rparr>"
  proof (cases s)
    case (MemorySec ms)
    then show ?thesis using scan_memory_section_put [of ms] fits by (simp add: section_numbers)
  next
    case (ExportSec es)
    then show ?thesis using scan_export_section_put [of es] fits by (simp add: section_numbers)
  next
    case (CodeSec bs)
    then show ?thesis by (simp add: section_numbers scan_code_section_def windows_any_iff)
  next
    case (OtherSec i bs)
    then show ?thesis using fits by simp
  qed
  finally show ?thesis .
qed

lemma probe_sections_put:
  "\<forall>s\<in>set ss. section_fits s \<Longrightarrow> probe_sections p (concat (map put_section ss)) =
    \<lparr>mp_shared = mp_shared p \<or> (\<exists>s\<in>set ss. declares_shared s),
     mp_notify = mp_notify p \<or> (\<exists>s\<in>set ss. contains_notify s),
     mp_worker = mp_worker p \<or> (\<exists>s\<in>set ss. exports_worker s)\<rparr>"
proof (induction ss arbitrary: p)
  case Nil
  then show ?case by (simp add: probe_sections.simps [of p "[]"])
next
  case (Cons s ss)
  then show ?case by (simp add: probe_section_step disj_assoc)
qed

section \<open>Properties\<close>

text \<open>C37. The probe is exact on well-formed modules.  For every module written from a list of
  sections, the probe reports a shared memory exactly when some memory section declares one, a notify
  exactly when some code section holds the opcode bytes, and a worker entry exactly when some export
  section exports it, whatever other sections there are and in whatever order they come.\<close>

theorem probe_is_exact:
  assumes "\<forall>s\<in>set ss. section_fits s"
  shows "probe (put_module ss) =
    \<lparr>mp_shared = (\<exists>s\<in>set ss. declares_shared s), mp_notify = (\<exists>s\<in>set ss. contains_notify s),
     mp_worker = (\<exists>s\<in>set ss. exports_worker s)\<rparr>"
  using probe_sections_put [OF assms]
  by (simp add: probe_def section_cursor_def put_module_def module_magic_def)

theorem probe_is_exact_witness:
  "fast_path_capable (probe (put_module [OtherSec 1 [0x60], MemorySec [MemoryDecl False 1 None,
     MemoryDecl True 1 (Some 300)], CodeSec [1, 0xFE, 0, 2]]))"
  using probe_is_exact [of "[OtherSec 1 [0x60], MemorySec [MemoryDecl False 1 None,
     MemoryDecl True 1 (Some 300)], CodeSec [1, 0xFE, 0, 2]]"]
  by (simp add: fast_path_capable_def section_numbers leb.simps sublist_Cons_right)

end
