(* ===== verification/Runtime_State.thy ===== *)
theory Runtime_State
  imports Authority Uri Quota Host_Queue Storage Process_Table Module_Probe
begin

text \<open>
  The state of the runtime (\<^verbatim>\<open>crates/runtime/src/runtime.rs\<close>) and the bookkeeping every hostcall uses:
  owners of handles and shared resources, discovery events, quota reservations, metering, waits, CPU
  budget windows and the fast path (\<^verbatim>\<open>crates/runtime/src/process.rs\<close>, \<^verbatim>\<open>metering.rs\<close>,
  \<^verbatim>\<open>discovery.rs\<close>, \<^verbatim>\<open>error.rs\<close>).  Code outside the repository enters through the record \<open>host\<close>: the
  WebAssembly engine, the discovery publisher, the digest and the guests themselves.  Delivering a
  wake runs a guest; the model records the wake, and a guest may make a hostcall at any later step.
\<close>

section \<open>Discovery events\<close>

record resource_target =
  tg_uri :: string
  tg_host :: string
  tg_resource :: u64
  tg_interface :: "(string \<times> string list) option"
  tg_tenant :: "string option"
  tg_class :: resource_class
  tg_labels :: "(string \<times> string) list"

datatype discovery_request =
    Resolve string
  | ResolvePrefix string
  | ResolveLabels string string
  | Register string resource_target "u64 option" bool
  | Revoke string
  | RevokeByOwner u64
  | SeedDomain string string
  | ListDomains

definition typed_registration_uri :: "string \<Rightarrow> resource_class \<Rightarrow> u64 \<Rightarrow> string" where
  "typed_registration_uri tenant class ident = resource_uri tenant class ident"

definition process_registration_uri :: "string \<Rightarrow> u64 \<Rightarrow> string" where
  "process_registration_uri tenant pid = typed_registration_uri tenant ProcessClass pid"

definition queue_registration_uri :: "string \<Rightarrow> u64 \<Rightarrow> string" where
  "queue_registration_uri tenant q = typed_registration_uri tenant HostQueueClass q"

definition region_registration_uri :: "string \<Rightarrow> u64 \<Rightarrow> string" where
  "region_registration_uri tenant r = typed_registration_uri tenant SharedRegion r"

section \<open>Owners\<close>

type_synonym owners = "((resource_class \<times> u64) \<times> u64 set) list"

definition owners_of :: "owners \<Rightarrow> resource_class \<times> u64 \<Rightarrow> u64 set" where
  "owners_of os k = (case map_of os k of None \<Rightarrow> {} | Some ps \<Rightarrow> ps)"

definition claim_owner :: "u64 \<Rightarrow> resource_class \<Rightarrow> u64 \<Rightarrow> owners \<Rightarrow> owners" where
  "claim_owner pid class ident os = AList.update (class, ident) (insert pid (owners_of os (class, ident))) os"

definition release_owner :: "u64 \<Rightarrow> resource_class \<Rightarrow> u64 \<Rightarrow> owners \<Rightarrow> bool \<times> owners" where
  "release_owner pid class ident os =
    (case map_of os (class, ident) of
       None \<Rightarrow> (False, os)
     | Some ps \<Rightarrow>
         if ps - {pid} = {} then (True, AList.delete (class, ident) os)
         else (False, AList.update (class, ident) (ps - {pid}) os))"

section \<open>Metering and budget windows\<close>

record metering_projector =
  me_cpu :: "u64 \<Rightarrow> u64 option"
  me_memory :: "u64 \<Rightarrow> u64 option"
  me_bandwidth :: "u64 \<Rightarrow> u64 option"
  me_storage :: "u64 \<Rightarrow> u64 option"

definition metering_default :: metering_projector where
  "metering_default = \<lparr>me_cpu = (\<lambda>_. None), me_memory = (\<lambda>_. None), me_bandwidth = (\<lambda>_. None),
     me_storage = (\<lambda>_. None)\<rparr>"

definition observe_engine :: "u64 \<Rightarrow> u64 \<Rightarrow> u64 \<Rightarrow> metering_projector \<Rightarrow> metering_projector" where
  "observe_engine pid instructions memory_bytes p =
    p\<lparr>me_cpu := (me_cpu p)(pid \<mapsto> instructions), me_memory := (me_memory p)(pid \<mapsto> memory_bytes)\<rparr>"

definition reading :: "(u64 \<Rightarrow> u64 option) \<Rightarrow> u64 \<Rightarrow> u64" where
  "reading f pid = (case f pid of None \<Rightarrow> 0 | Some v \<Rightarrow> v)"

definition record_bandwidth :: "u64 \<Rightarrow> u64 \<Rightarrow> metering_projector \<Rightarrow> metering_projector" where
  "record_bandwidth pid bytes p =
    p\<lparr>me_bandwidth := (me_bandwidth p)(pid \<mapsto> reading (me_bandwidth p) pid + bytes)\<rparr>"

definition record_storage :: "u64 \<Rightarrow> u64 \<Rightarrow> metering_projector \<Rightarrow> metering_projector" where
  "record_storage pid bytes p =
    p\<lparr>me_storage := (me_storage p)(pid \<mapsto> reading (me_storage p) pid + bytes)\<rparr>"

definition metering_remove :: "u64 \<Rightarrow> metering_projector \<Rightarrow> metering_projector" where
  "metering_remove pid p = \<lparr>me_cpu = (me_cpu p)(pid := None), me_memory = (me_memory p)(pid := None),
     me_bandwidth = (me_bandwidth p)(pid := None), me_storage = (me_storage p)(pid := None)\<rparr>"

definition metering_project :: "u64 \<Rightarrow> metering_projector \<Rightarrow> metering_observation" where
  "metering_project pid p = \<lparr>mo_cpu = reading (me_cpu p) pid, mo_memory = reading (me_memory p) pid,
     mo_storage = reading (me_storage p) pid, mo_bandwidth = reading (me_bandwidth p) pid\<rparr>"

record cpu_budget_window =
  cw_index :: u64
  cw_start :: u64

definition anchor_window_start :: "cpu_budget_window option \<Rightarrow> u64 \<Rightarrow> u64 \<Rightarrow> u64" where
  "anchor_window_start previous window_index current_instructions =
    (case previous of
       Some w \<Rightarrow> if cw_index w = window_index then cw_start w else current_instructions
     | None \<Rightarrow> current_instructions)"

definition window_budget :: "u64 \<Rightarrow> u64 option \<Rightarrow> u64 option" where
  "window_budget window_start ceiling = map_option (saturating_add window_start) ceiling"

section \<open>Operations\<close>

datatype region_prot = ReadOnly | ReadWrite

datatype resource_kind =
    LogChannel | LiveTable | RpcRing | PubSubTopic | NetworkBuffer | DurableLogKind | BlobStoreKind
  | SharedMemoryKind

datatype hostcall_output =
    EmptyOut
  | LocalIdOut u64
  | SharedRegionOut u64 u64
  | HostQueueOut queue_descriptor
  | DurableLogOut storage_descriptor
  | BlobStoreOut storage_descriptor
  | ProcessOut process_descriptor
  | BytesOut "u8 list"
  | BlobIdOut string
  | SequenceOut "u64 option"
  | SharedIdOut u64
  | StorageRecordsOut "storage_record list"
  | ActivityEventsOut "activity_event list"
  | GuestLogEntriesOut "guest_log_entry list"
  | MeteringOut metering_observation
  | U64Out u64
  | ConnectionInfoOut u64 u64 "u8 list"
  | RegionAllocOut u64 u32
  | RegionAttachOut u32 u32
  | RandomBytesOut "u8 list"
  | SelfInfoOut u64 "string option"
  | TenantOut "string option"
  | CertificateOut "u8 list"

datatype host_operation_state =
    ReadyState hostcall_output
  | FailedState abi_error_code
  | HostQueueRecvWait u64 nat
  | SleepWait nat

record host_operation =
  op_process :: u64
  op_task :: "u32 option"
  op_state :: host_operation_state

record wait_entry =
  we_process :: u64
  we_task :: u32
  we_region :: u64
  we_generation :: u64

record network_state =
  ns_listeners :: "u64 \<Rightarrow> u64 option"
  ns_streams :: "u64 set"
  ns_sockets :: "u64 set"

section \<open>The keyring\<close>

record key_material =
  km_cert :: "u8 list"
  km_key :: "u8 list"

datatype keyring_error =
    IntermediateMissing
  | InvalidMaterial string
  | Signing string
  | TenantCaNotFound string
  | UnsupportedSubjectKey

record keyring =
  kr_intermediate :: key_material
  kr_root :: "key_material option"
  kr_tenant_cas :: "string \<Rightarrow> key_material option"

text \<open>
  Certificates are made by a library.  Minting reads the issuer's material, draws a key pair and signs a
  CA certificate with the given common name; the key drawn is an input of the call.
\<close>

record certificates =
  ce_validate :: "key_material \<Rightarrow> (keyring_error, unit) result"
  ce_mint_ca :: "key_material \<Rightarrow> u8 list \<Rightarrow> string \<Rightarrow> (keyring_error, key_material) result"
  ce_sign_leaf :: "key_material \<Rightarrow> string \<Rightarrow> u8 list \<Rightarrow> (keyring_error, u8 list) result"

definition keyring_initialize ::
    "certificates \<Rightarrow> key_material option \<Rightarrow> key_material option \<Rightarrow> (keyring_error, keyring) result" where
  "keyring_initialize ce root intermediate =
    bind_result (ok_or intermediate IntermediateMissing) (\<lambda>im.
    bind_result (ce_validate ce im) (\<lambda>_.
    bind_result (case root of None \<Rightarrow> Ok () | Some r \<Rightarrow> ce_validate ce r) (\<lambda>_.
    Ok \<lparr>kr_intermediate = im, kr_root = root, kr_tenant_cas = (\<lambda>_. None)\<rparr>)))"

definition sign_tenant_ca ::
    "certificates \<Rightarrow> u8 list \<Rightarrow> string \<Rightarrow> (keyring, keyring_error, u8 list) comp" where
  "sign_tenant_ca ce entropy tenant k =
    (case ce_mint_ca ce (kr_intermediate k) entropy (''Selium Tenant CA '' @ tenant) of
       Err e \<Rightarrow> (Err e, k)
     | Ok ca \<Rightarrow> (Ok (km_cert ca), k\<lparr>kr_tenant_cas := (kr_tenant_cas k)(tenant \<mapsto> ca)\<rparr>))"

definition sign_user_cert ::
    "certificates \<Rightarrow> keyring \<Rightarrow> string \<Rightarrow> u8 list \<Rightarrow> (keyring_error, u8 list) result" where
  "sign_user_cert ce k tenant spki =
    bind_result (ok_or (kr_tenant_cas k tenant) (TenantCaNotFound tenant)) (\<lambda>ca.
    ce_sign_leaf ce ca tenant spki)"

definition revoke_ca :: "string \<Rightarrow> (keyring, keyring_error, unit) comp" where
  "revoke_ca tenant k =
    (case kr_tenant_cas k tenant of
       None \<Rightarrow> (Err (TenantCaNotFound tenant), k)
     | Some _ \<Rightarrow> (Ok (), k\<lparr>kr_tenant_cas := (kr_tenant_cas k)(tenant := None)\<rparr>))"

section \<open>The runtime\<close>

record ('st, 'rid, 'g, 'd) runtime =
  rt_memory :: "('st, 'rid) memory_registry"
  rt_processes :: process_table
  rt_storage :: storage
  rt_network :: network_state
  rt_queues :: host_queues
  rt_quota :: quota_table
  rt_auths :: authorities
  rt_guests :: "(u64 \<times> 'g) list"
  rt_local_owners :: owners
  rt_shared_owners :: owners
  rt_modules :: "string \<Rightarrow> u8 list option"
  rt_next_op :: u64
  rt_ops :: "(u64 \<times> host_operation) list"
  rt_mailboxes :: "u64 \<Rightarrow> u32 option"
  rt_publisher :: "'d option"
  rt_discovery :: "u64 option"
  rt_region_tenants :: "((u64 \<times> u64) \<times> string) list"
  rt_queue_tenants :: "((u64 \<times> u64) \<times> string) list"
  rt_quota_tenants :: "u64 \<Rightarrow> string option"
  rt_waits :: "((u64 \<times> u64) \<times> wait_entry list) list"
  rt_attachments :: "(u64 \<times> u64 set) list"
  rt_network_keys :: "(u64 \<times> u64) list"
  rt_fast_path :: "u64 \<Rightarrow> (u64 \<times> bool) list option"
  rt_capable :: "u64 \<Rightarrow> bool option"
  rt_kicks :: "u64 \<Rightarrow> u64 option"
  rt_queue_waiters :: "u64 \<Rightarrow> u64 option"
  rt_registrations :: "u64 \<Rightarrow> string set option"
  rt_handlers :: "(u64 \<times> string list) list"
  rt_keyring :: "keyring option"
  rt_metering :: metering_projector
  rt_windows :: "u64 \<Rightarrow> cpu_budget_window option"
  rt_wakes :: "(u64 \<times> u32) list"

definition runtime_new ::
    "('st, 'rid) memory_registry \<Rightarrow> process_table \<Rightarrow> ('st, 'rid, 'g, 'd) runtime" where
  "runtime_new memory processes =
    \<lparr>rt_memory = memory, rt_processes = processes, rt_storage = storage_new,
     rt_network = \<lparr>ns_listeners = (\<lambda>_. None), ns_streams = {}, ns_sockets = {}\<rparr>, rt_queues = hq_new,
     rt_quota = quota_new, rt_auths = [], rt_guests = [], rt_local_owners = [], rt_shared_owners = [],
     rt_modules = (\<lambda>_. None), rt_next_op = 1, rt_ops = [], rt_mailboxes = (\<lambda>_. None),
     rt_publisher = None, rt_discovery = None, rt_region_tenants = [], rt_queue_tenants = [],
     rt_quota_tenants = (\<lambda>_. None), rt_waits = [], rt_attachments = [], rt_network_keys = [],
     rt_fast_path = (\<lambda>_. None), rt_capable = (\<lambda>_. None), rt_kicks = (\<lambda>_. None),
     rt_queue_waiters = (\<lambda>_. None), rt_registrations = (\<lambda>_. None), rt_handlers = [], rt_keyring = None,
     rt_metering = metering_default, rt_windows = (\<lambda>_. None), rt_wakes = []\<rparr>"

datatype system_guest_arg = IntegerArg u64 | PointerArg "u8 list"

datatype readiness_condition = Immediate | ActivityLogContains string

record system_guest =
  sg_name :: string
  sg_module :: string
  sg_bytes :: "u8 list"
  sg_entrypoint :: string
  sg_arguments :: "system_guest_arg list"
  sg_grants :: "capability_grant list"
  sg_dependencies :: "string list"
  sg_readiness :: readiness_condition
  sg_tenant :: "string option"
  sg_role :: "string option"
  sg_handlers :: "string list"

text \<open>
  What the runtime calls outside the repository.  \<open>ho_run\<close> loads a module and runs its entrypoint; the
  guest may make hostcalls meanwhile, so it acts on the whole runtime, and it returns the loaded guest
  and whether the entrypoint reported an error.
\<close>

record ('st, 'rid, 'g, 'd) host =
  ho_engine :: "('st, 'rid) region_engine"
  ho_publish :: "discovery_request \<Rightarrow> ('d, string, unit) comp"
  ho_digest :: "u8 list \<Rightarrow> u8 list"
  ho_certs :: certificates
  ho_attach :: "'rid \<Rightarrow> region_prot \<Rightarrow> u32 option \<Rightarrow> ('g, string, u32) comp"
  ho_registry :: bool
  ho_detach :: "'rid \<Rightarrow> 'g \<Rightarrow> 'g"
  ho_stats :: "'g \<Rightarrow> (u64 \<times> u64) option"
  ho_budget :: "u64 option \<Rightarrow> 'g \<Rightarrow> 'g"
  ho_start_workers :: "'g \<Rightarrow> (runtime_error, 'g) result"
  ho_socket_addr :: "string \<Rightarrow> string option"
  ho_arguments :: "u8 list list \<Rightarrow> system_guest_arg list option"
  ho_log_record :: "u8 list \<Rightarrow> (string \<times> string \<times> string) option"
  ho_load :: "u64 \<Rightarrow> u8 list \<Rightarrow> (('st, 'rid, 'g, 'd) runtime, runtime_error, 'g) comp"
  ho_run :: "u64 \<Rightarrow> system_guest \<Rightarrow> 'g \<Rightarrow> (('st, 'rid, 'g, 'd) runtime, runtime_error, 'g \<times> bool) comp"

end
