(* ===== verification/Runtime_Ops.thy ===== *)
theory Runtime_Ops
  imports Runtime_State
begin

text \<open>
  The bookkeeping operations of the runtime that the hostcalls are built from
  (\<^verbatim>\<open>crates/runtime/src/process.rs\<close>, \<^verbatim>\<open>crates/runtime/src/hostcall.rs\<close>), each as a function of the
  runtime's state.
\<close>

section \<open>Calls into the kernel\<close>

fun kernel_code :: "kernel_error \<Rightarrow> abi_error_code" where
  "kernel_code (NotFoundE _) = NotFound"
| "kernel_code TimeoutE = Timeout"
| "kernel_code (QuotaExceededE _ _) = QuotaExceeded"
| "kernel_code AlreadyCompletedE = Internal"
| "kernel_code (ProcessStoppedE _) = Internal"
| "kernel_code (WasmE _) = Internal"

definition on_memory ::
    "(('st, 'rid) memory_registry, 'e, 'a) comp \<Rightarrow> (('st, 'rid, 'g, 'd) runtime, 'e, 'a) comp" where
  "on_memory = through rt_memory (\<lambda>m r. r\<lparr>rt_memory := m\<rparr>)"

definition on_queues :: "(host_queues, 'e, 'a) comp \<Rightarrow> (('st, 'rid, 'g, 'd) runtime, 'e, 'a) comp" where
  "on_queues = through rt_queues (\<lambda>q r. r\<lparr>rt_queues := q\<rparr>)"

definition on_storage :: "(storage, 'e, 'a) comp \<Rightarrow> (('st, 'rid, 'g, 'd) runtime, 'e, 'a) comp" where
  "on_storage = through rt_storage (\<lambda>s r. r\<lparr>rt_storage := s\<rparr>)"

definition on_quota :: "(quota_table, 'e, 'a) comp \<Rightarrow> (('st, 'rid, 'g, 'd) runtime, 'e, 'a) comp" where
  "on_quota = through rt_quota (\<lambda>q r. r\<lparr>rt_quota := q\<rparr>)"

definition on_processes :: "(process_table, 'e, 'a) comp \<Rightarrow> (('st, 'rid, 'g, 'd) runtime, 'e, 'a) comp" where
  "on_processes = through rt_processes (\<lambda>t r. r\<lparr>rt_processes := t\<rparr>)"

definition on_log_channels ::
    "(process_table \<times> ('st, 'rid) memory_registry, 'e, 'a) comp \<Rightarrow> (('st, 'rid, 'g, 'd) runtime, 'e, 'a) comp" where
  "on_log_channels = through (\<lambda>r. (rt_processes r, rt_memory r))
     (\<lambda>(t, m) r. r\<lparr>rt_processes := t, rt_memory := m\<rparr>)"

abbreviation kernel_call :: "('s, kernel_error, 'a) comp \<Rightarrow> ('s, abi_error_code, 'a) comp" where
  "kernel_call \<equiv> map_err kernel_code"

definition publish_discovery_event ::
    "('st, 'rid, 'g, 'd) host \<Rightarrow> discovery_request \<Rightarrow> (('st, 'rid, 'g, 'd) runtime, runtime_error, unit) comp" where
  "publish_discovery_event ho req r =
    (case rt_publisher r of
       None \<Rightarrow> (Ok (), r)
     | Some d \<Rightarrow>
         (case ho_publish ho req d of
            (Err e, d') \<Rightarrow> (Err (HostFailed (''discovery publish failed: '' @ e)), r\<lparr>rt_publisher := Some d'\<rparr>)
          | (Ok _, d') \<Rightarrow> (Ok (), r\<lparr>rt_publisher := Some d'\<rparr>)))"

section \<open>Owners and attachments\<close>

definition claim_local_handle ::
    "u64 \<Rightarrow> resource_class \<Rightarrow> u64 \<Rightarrow> ('st, 'rid, 'g, 'd) runtime \<Rightarrow> ('st, 'rid, 'g, 'd) runtime" where
  "claim_local_handle pid class local r = r\<lparr>rt_local_owners := claim_owner pid class local (rt_local_owners r)\<rparr>"

definition claim_shared_resource ::
    "u64 \<Rightarrow> resource_class \<Rightarrow> u64 \<Rightarrow> ('st, 'rid, 'g, 'd) runtime \<Rightarrow> ('st, 'rid, 'g, 'd) runtime" where
  "claim_shared_resource pid class shared r = r\<lparr>rt_shared_owners := claim_owner pid class shared (rt_shared_owners r)\<rparr>"

definition attachers :: "(u64 \<times> u64 set) list \<Rightarrow> u64 \<Rightarrow> u64 set" where
  "attachers at region = (case map_of at region of None \<Rightarrow> {} | Some ps \<Rightarrow> ps)"

definition record_region_attachment ::
    "u64 \<Rightarrow> u64 \<Rightarrow> ('st, 'rid, 'g, 'd) runtime \<Rightarrow> ('st, 'rid, 'g, 'd) runtime" where
  "record_region_attachment pid region r = r\<lparr>rt_attachments :=
     AList.update region (insert pid (attachers (rt_attachments r) region)) (rt_attachments r)\<rparr>"

definition owns_shared :: "('st, 'rid, 'g, 'd) runtime \<Rightarrow> u64 \<Rightarrow> resource_class \<Rightarrow> u64 \<Rightarrow> bool" where
  "owns_shared r pid class shared \<longleftrightarrow> pid \<in> owners_of (rt_shared_owners r) (class, shared)"

definition owns_local :: "('st, 'rid, 'g, 'd) runtime \<Rightarrow> u64 \<Rightarrow> resource_class \<Rightarrow> u64 \<Rightarrow> bool" where
  "owns_local r pid class local \<longleftrightarrow> pid \<in> owners_of (rt_local_owners r) (class, local)"

definition owns_or_attached_region :: "('st, 'rid, 'g, 'd) runtime \<Rightarrow> u64 \<Rightarrow> u64 \<Rightarrow> bool" where
  "owns_or_attached_region r pid region \<longleftrightarrow>
     owns_shared r pid SharedRegion region \<or> pid \<in> attachers (rt_attachments r) region"

definition release_local_handle ::
    "u64 \<Rightarrow> resource_class \<Rightarrow> u64 \<Rightarrow> ('st, 'rid, 'g, 'd) runtime \<Rightarrow> bool \<times> ('st, 'rid, 'g, 'd) runtime" where
  "release_local_handle pid class local r =
    (case release_owner pid class local (rt_local_owners r) of (b, os) \<Rightarrow> (b, r\<lparr>rt_local_owners := os\<rparr>))"

definition drop_voter :: "u64 \<Rightarrow> u64 \<Rightarrow> (u64 \<Rightarrow> (u64 \<times> bool) list option) \<Rightarrow> u64 \<Rightarrow> (u64 \<times> bool) list option" where
  "drop_voter pid shared fp =
    (case fp shared of
       None \<Rightarrow> fp
     | Some voters \<Rightarrow>
         let vs = AList.delete pid voters in if vs = [] then fp(shared := None) else fp(shared \<mapsto> vs))"

definition release_shared_resource ::
    "u64 \<Rightarrow> resource_class \<Rightarrow> u64 \<Rightarrow> ('st, 'rid, 'g, 'd) runtime \<Rightarrow> bool \<times> ('st, 'rid, 'g, 'd) runtime" where
  "release_shared_resource pid class shared r =
    (let r1 = (if class = SharedRegion then r\<lparr>rt_fast_path := drop_voter pid shared (rt_fast_path r)\<rparr> else r)
     in case release_owner pid class shared (rt_shared_owners r1) of
          (b, os) \<Rightarrow> (b, r1\<lparr>rt_shared_owners := os\<rparr>))"

definition ensure_local_handle_owner ::
    "u64 \<Rightarrow> resource_class \<Rightarrow> u64 \<Rightarrow> (('st, 'rid, 'g, 'd) runtime, abi_error_code, unit) comp" where
  "ensure_local_handle_owner pid class local =
    check (\<lambda>r. if owns_local r pid class local then Ok () else Err PermissionDenied)"

definition ensure_shared_resource_owner ::
    "u64 \<Rightarrow> resource_class \<Rightarrow> u64 \<Rightarrow> (('st, 'rid, 'g, 'd) runtime, abi_error_code, unit) comp" where
  "ensure_shared_resource_owner pid class shared =
    check (\<lambda>r. if owns_shared r pid class shared then Ok () else Err PermissionDenied)"

definition has_explicit_grant :: "authorities \<Rightarrow> u64 \<Rightarrow> capability \<Rightarrow> u64 \<Rightarrow> bool" where
  "has_explicit_grant auths pid cap shared =
    (case map_of auths pid of
       None \<Rightarrow> False
     | Some a \<Rightarrow> list_ex (\<lambda>g. cg_capability g = cap \<and>
         list_ex (\<lambda>s. s = ExplicitResource (SharedId shared)) (cg_selectors g)) (pa_grants a))"

definition resolved_region :: "authorities \<Rightarrow> u64 \<Rightarrow> u64 \<Rightarrow> bool" where
  "resolved_region auths pid region =
    (case map_of auths pid of None \<Rightarrow> False | Some a \<Rightarrow> region \<in> pa_regions a)"

definition resolved_queue :: "authorities \<Rightarrow> u64 \<Rightarrow> u64 \<Rightarrow> bool" where
  "resolved_queue auths pid q = (case map_of auths pid of None \<Rightarrow> False | Some a \<Rightarrow> q \<in> pa_queues a)"

definition ensure_attach_authorised ::
    "u64 \<Rightarrow> u64 \<Rightarrow> (('st, 'rid, 'g, 'd) runtime, abi_error_code, unit) comp" where
  "ensure_attach_authorised pid region = check (\<lambda>r.
     if owns_shared r pid SharedRegion region then Ok ()
     else if has_explicit_grant (rt_auths r) pid SharedMemory region then Ok ()
     else if resolved_region (rt_auths r) pid region then Ok ()
     else Err PermissionDenied)"

definition requireR ::
    "u64 \<Rightarrow> capability \<Rightarrow> resource_class \<Rightarrow> resource_identity option \<Rightarrow>
     (('st, 'rid, 'g, 'd) runtime, abi_error_code, unit) comp" where
  "requireR pid cap class ident = check (\<lambda>r. require (rt_auths r) pid cap class ident)"

section \<open>Quota\<close>

definition enforce_quota ::
    "string \<Rightarrow> resource_class \<Rightarrow> u64 \<Rightarrow> (('st, 'rid, 'g, 'd) runtime, abi_error_code, unit) comp" where
  "enforce_quota tenant class amount = map_err (\<lambda>_. QuotaExceeded) (on_quota (try_consume tenant class amount))"

definition release_quota ::
    "string \<Rightarrow> resource_class \<Rightarrow> u64 \<Rightarrow> ('st, 'rid, 'g, 'd) runtime \<Rightarrow> ('st, 'rid, 'g, 'd) runtime" where
  "release_quota tenant class amount r = r\<lparr>rt_quota := quota_release tenant class amount (rt_quota r)\<rparr>"

definition queue_owner_tenant :: "('st, 'rid, 'g, 'd) runtime \<Rightarrow> u64 \<Rightarrow> string option" where
  "queue_owner_tenant r shared = map_option snd (find (\<lambda>((_, q), _). q = shared) (rt_queue_tenants r))"

definition charge_queue_item :: "u64 \<Rightarrow> (('st, 'rid, 'g, 'd) runtime, abi_error_code, unit) comp" where
  "charge_queue_item shared r =
    (case queue_owner_tenant r shared of
       None \<Rightarrow> (Ok (), r)
     | Some tenant \<Rightarrow> enforce_quota tenant HostQueueClass 1 r)"

definition release_queue_item :: "u64 \<Rightarrow> ('st, 'rid, 'g, 'd) runtime \<Rightarrow> ('st, 'rid, 'g, 'd) runtime" where
  "release_queue_item shared r =
    (case queue_owner_tenant r shared of
       None \<Rightarrow> r
     | Some tenant \<Rightarrow> release_quota tenant HostQueueClass 1 r)"

definition tenant_name :: "('st, 'rid, 'g, 'd) runtime \<Rightarrow> u64 \<Rightarrow> string" where
  "tenant_name r pid = (case process_tenant (rt_auths r) pid of None \<Rightarrow> [] | Some t \<Rightarrow> t)"

definition move_reservation ::
    "('st, 'rid, 'g, 'd) host \<Rightarrow> string \<Rightarrow> string \<Rightarrow> u64 \<Rightarrow> ('st, 'rid, 'g, 'd) runtime \<Rightarrow> ('st, 'rid, 'g, 'd) runtime" where
  "move_reservation ho serving receiver region r =
    (if serving = receiver then r
     else case shared_region_len (ho_engine ho) region (rt_memory r) of
       Err _ \<Rightarrow> r
     | Ok l \<Rightarrow> r\<lparr>rt_quota := force_consume receiver SharedRegion (ucast l)
                  (quota_release serving SharedRegion (ucast l) (rt_quota r))\<rparr>)"

definition transfer_region_ownership_on_recv ::
    "('st, 'rid, 'g, 'd) host \<Rightarrow> u64 \<Rightarrow> u64 \<Rightarrow> u64 \<Rightarrow> ('st, 'rid, 'g, 'd) runtime \<Rightarrow> ('st, 'rid, 'g, 'd) runtime" where
  "transfer_region_ownership_on_recv ho receiver sender region r =
    (if \<not> owns_shared r sender SharedRegion region then r
     else
       let r1 = (case map_of (rt_region_tenants r) (sender, region) of
                   None \<Rightarrow> r
                 | Some serving \<Rightarrow>
                     (move_reservation ho serving (tenant_name r receiver) region r)\<lparr>rt_region_tenants :=
                        AList.update (receiver, region) (tenant_name r receiver)
                          (AList.delete (sender, region) (rt_region_tenants r))\<rparr>)
       in r1\<lparr>rt_shared_owners := AList.update (SharedRegion, region)
               (insert receiver (owners_of (rt_shared_owners r1) (SharedRegion, region) - {sender}))
               (rt_shared_owners r1)\<rparr>)"

section \<open>Waits and wakes\<close>

definition wake_process_task ::
    "u64 \<Rightarrow> u32 \<Rightarrow> ('st, 'rid, 'g, 'd) runtime \<Rightarrow> ('st, 'rid, 'g, 'd) runtime" where
  "wake_process_task pid task r = r\<lparr>rt_wakes := rt_wakes r @ [(pid, task)]\<rparr>"

definition wait_entries :: "((u64 \<times> u64) \<times> wait_entry list) list \<Rightarrow> u64 \<times> u64 \<Rightarrow> wait_entry list" where
  "wait_entries ws k = (case map_of ws k of None \<Rightarrow> [] | Some es \<Rightarrow> es)"

definition register_wait ::
    "u64 \<Rightarrow> u32 \<Rightarrow> u64 \<Rightarrow> u64 \<Rightarrow> ('st, 'rid, 'g, 'd) runtime \<Rightarrow> ('st, 'rid, 'g, 'd) runtime" where
  "register_wait pid task region generation r = r\<lparr>rt_waits := AList.update (pid, region)
     (filter (\<lambda>e. we_task e \<noteq> task) (wait_entries (rt_waits r) (pid, region)) @
      [\<lparr>we_process = pid, we_task = task, we_region = region, we_generation = generation\<rparr>]) (rt_waits r)\<rparr>"

definition retain_entries ::
    "(wait_entry \<Rightarrow> bool) \<Rightarrow> ((u64 \<times> u64) \<times> wait_entry list) list \<Rightarrow> ((u64 \<times> u64) \<times> wait_entry list) list" where
  "retain_entries keep ws = filter (\<lambda>(_, es). es \<noteq> []) (map (\<lambda>(k, es). (k, filter keep es)) ws)"

definition cancel_waits_for_task ::
    "u64 \<Rightarrow> u32 \<Rightarrow> ('st, 'rid, 'g, 'd) runtime \<Rightarrow> ('st, 'rid, 'g, 'd) runtime" where
  "cancel_waits_for_task pid task r =
     r\<lparr>rt_waits := retain_entries (\<lambda>e. \<not> (we_process e = pid \<and> we_task e = task)) (rt_waits r)\<rparr>"

definition surpassed :: "u64 \<Rightarrow> u64 \<Rightarrow> wait_entry \<Rightarrow> bool" where
  "surpassed region generation e \<longleftrightarrow> we_region e = region \<and> we_generation e < generation"

fun wake_once ::
    "(u64 \<times> u32) set \<Rightarrow> (u64 \<times> u32) list \<Rightarrow> ('st, 'rid, 'g, 'd) runtime \<Rightarrow> ('st, 'rid, 'g, 'd) runtime" where
  "wake_once seen [] r = r"
| "wake_once seen (w # ws) r =
    (if w \<in> seen then wake_once seen ws r
     else wake_once (insert w seen) ws
       (wake_process_task (fst w) (snd w) (cancel_waits_for_task (fst w) (snd w) r)))"

definition note_generation_advance ::
    "u64 \<Rightarrow> u64 \<Rightarrow> ('st, 'rid, 'g, 'd) runtime \<Rightarrow> ('st, 'rid, 'g, 'd) runtime" where
  "note_generation_advance region generation r =
    wake_once {} (map (\<lambda>e. (we_process e, we_task e))
                   (filter (surpassed region generation) (concat (map snd (rt_waits r)))))
      (r\<lparr>rt_waits := retain_entries (\<lambda>e. \<not> surpassed region generation e) (rt_waits r)\<rparr>)"

section \<open>The fast path and kicks\<close>

definition region_fast_path_active :: "(u64 \<Rightarrow> (u64 \<times> bool) list option) \<Rightarrow> u64 \<Rightarrow> bool" where
  "region_fast_path_active fp shared =
    (case fp shared of None \<Rightarrow> False | Some voters \<Rightarrow> voters \<noteq> [] \<and> list_all snd voters)"

definition record_process_fastpath ::
    "u64 \<Rightarrow> bool \<Rightarrow> ('st, 'rid, 'g, 'd) runtime \<Rightarrow> ('st, 'rid, 'g, 'd) runtime" where
  "record_process_fastpath pid capable r = r\<lparr>rt_capable := (rt_capable r)(pid \<mapsto> capable)\<rparr>"

definition process_fastpath_capable :: "('st, 'rid, 'g, 'd) runtime \<Rightarrow> u64 \<Rightarrow> bool" where
  "process_fastpath_capable r pid = (case rt_capable r pid of None \<Rightarrow> False | Some b \<Rightarrow> b)"

definition record_fast_path_attachment ::
    "u64 \<Rightarrow> u64 \<Rightarrow> bool \<Rightarrow> ('st, 'rid, 'g, 'd) runtime \<Rightarrow> ('st, 'rid, 'g, 'd) runtime" where
  "record_fast_path_attachment region pid capable r = r\<lparr>rt_fast_path := (rt_fast_path r)(region \<mapsto>
     AList.update pid capable (case rt_fast_path r region of None \<Rightarrow> [] | Some vs \<Rightarrow> vs))\<rparr>"

definition clear_fast_path_attachments ::
    "u64 \<Rightarrow> ('st, 'rid, 'g, 'd) runtime \<Rightarrow> ('st, 'rid, 'g, 'd) runtime" where
  "clear_fast_path_attachments region r = r\<lparr>rt_fast_path := (rt_fast_path r)(region := None)\<rparr>"

fun kick_each ::
    "('st, 'rid, 'g, 'd) host \<Rightarrow> (u64 \<times> u64) list \<Rightarrow> ('st, 'rid, 'g, 'd) runtime \<Rightarrow> ('st, 'rid, 'g, 'd) runtime" where
  "kick_each ho [] r = r"
| "kick_each ho ((shared, offset) # ks) r =
    kick_each ho ks
      (if region_fast_path_active (rt_fast_path r) shared then r
       else let r1 = snd (on_memory (notify_region (ho_engine ho) shared offset 1) r)
            in r1\<lparr>rt_kicks := (rt_kicks r1)(shared \<mapsto> reading (rt_kicks r1) shared + 1)\<rparr>)"

definition kick_network_waiters ::
    "('st, 'rid, 'g, 'd) host \<Rightarrow> ('st, 'rid, 'g, 'd) runtime \<Rightarrow> ('st, 'rid, 'g, 'd) runtime" where
  "kick_network_waiters ho r = kick_each ho (rt_network_keys r) r"

section \<open>Metering and budgets\<close>

definition note_storage_usage ::
    "u64 \<Rightarrow> u64 \<Rightarrow> ('st, 'rid, 'g, 'd) runtime \<Rightarrow> ('st, 'rid, 'g, 'd) runtime" where
  "note_storage_usage pid bytes r = r\<lparr>rt_metering := record_storage pid bytes (rt_metering r)\<rparr>"

definition observe_engine_metering ::
    "('st, 'rid, 'g, 'd) host \<Rightarrow> u64 \<Rightarrow> ('st, 'rid, 'g, 'd) runtime \<Rightarrow> bool \<times> ('st, 'rid, 'g, 'd) runtime" where
  "observe_engine_metering ho pid r =
    (case map_of (rt_guests r) pid of
       None \<Rightarrow> (False, r)
     | Some g \<Rightarrow>
         (case ho_stats ho g of
            None \<Rightarrow> (False, r)
          | Some (instructions, memory_bytes) \<Rightarrow>
              (True, r\<lparr>rt_metering := observe_engine pid instructions memory_bytes (rt_metering r)\<rparr>)))"

definition metering_tick ::
    "('st, 'rid, 'g, 'd) host \<Rightarrow> ('st, 'rid, 'g, 'd) runtime \<Rightarrow> ('st, 'rid, 'g, 'd) runtime" where
  "metering_tick ho r =
    (let live = map fst (rt_auths r);
         r1 = foldl (\<lambda>r pid. snd (observe_engine_metering ho pid r)) r live
     in r1\<lparr>rt_processes := foldl (\<lambda>t pid. observe_metering pid (metering_project pid (rt_metering r1)) t)
              (rt_processes r1) live\<rparr>)"

definition anchor_cpu_budget ::
    "('st, 'rid, 'g, 'd) host \<Rightarrow> u64 \<Rightarrow> string option \<Rightarrow> u64 \<Rightarrow> 'g \<Rightarrow>
     ('st, 'rid, 'g, 'd) runtime \<Rightarrow> 'g \<times> ('st, 'rid, 'g, 'd) runtime" where
  "anchor_cpu_budget ho pid tenant window_index g r =
    (case ho_stats ho g of
       None \<Rightarrow> (g, r)
     | Some (instructions, _) \<Rightarrow>
         let start = anchor_window_start (rt_windows r pid) window_index instructions;
             ceiling = (case tenant of None \<Rightarrow> None | Some t \<Rightarrow> quota_lookup (rt_quota r) t Cpu)
         in (ho_budget ho (window_budget start ceiling) g,
             r\<lparr>rt_windows := (rt_windows r)(pid \<mapsto> \<lparr>cw_index = window_index, cw_start = start\<rparr>)\<rparr>))"

definition refresh_cpu_budgets ::
    "('st, 'rid, 'g, 'd) host \<Rightarrow> u64 \<Rightarrow> ('st, 'rid, 'g, 'd) runtime \<Rightarrow> ('st, 'rid, 'g, 'd) runtime" where
  "refresh_cpu_budgets ho window_index r =
    foldl (\<lambda>r (pid, a).
       case map_of (rt_guests r) pid of
         None \<Rightarrow> r
       | Some g \<Rightarrow>
           (case anchor_cpu_budget ho pid (pa_tenant a) window_index g r of
              (g', r') \<Rightarrow> r'\<lparr>rt_guests := AList.update pid g' (rt_guests r')\<rparr>)) r (rt_auths r)"

section \<open>Operation ids\<close>

datatype op_alloc = Allocated u64 u64 | Exhausted

partial_function (option) next_op_from ::
    "u64 \<Rightarrow> (u64 \<times> host_operation) list \<Rightarrow> u64 \<Rightarrow> op_alloc option" where
  "next_op_from first_candidate ops current =
    (let succ = (if current = u64_max then 1 else current + 1)
     in if current \<noteq> 0 \<and> map_of ops current = None then Some (Allocated current succ)
        else if succ = first_candidate then Some Exhausted
        else next_op_from first_candidate ops succ)"

definition next_operation_id :: "('st, 'rid, 'g, 'd) runtime \<Rightarrow> op_alloc option" where
  "next_operation_id r = next_op_from (rt_next_op r) (rt_ops r) (rt_next_op r)"

section \<open>Receivers of host queues\<close>

definition register_queue_waiter ::
    "u64 \<Rightarrow> u64 \<Rightarrow> ('st, 'rid, 'g, 'd) runtime \<Rightarrow> ('st, 'rid, 'g, 'd) runtime" where
  "register_queue_waiter local pid r = r\<lparr>rt_queue_waiters := (rt_queue_waiters r)(local \<mapsto> pid)\<rparr>"

definition waits_on :: "host_queues \<Rightarrow> u64 \<Rightarrow> host_operation \<Rightarrow> u64 option" where
  "waits_on q shared op =
    (case op_state op of
       HostQueueRecvWait local _ \<Rightarrow> if host_queue_shared_id q local = Ok shared then Some local else None
     | _ \<Rightarrow> None)"

fun wake_each_waiter ::
    "('st, 'rid, 'g, 'd) host \<Rightarrow> u64 \<Rightarrow> (u64 \<times> host_operation) list \<Rightarrow> ('st, 'rid, 'g, 'd) runtime \<Rightarrow>
     (u64 \<times> host_operation) list \<times> (u64 \<times> u32) list \<times> ('st, 'rid, 'g, 'd) runtime" where
  "wake_each_waiter ho shared [] r = ([], [], r)"
| "wake_each_waiter ho shared ((ident, op) # ops) r =
    (let (op', ws, r') =
       (case waits_on (rt_queues r) shared op of
          None \<Rightarrow> (op, [], r)
        | Some local \<Rightarrow>
            (case try_host_queue_recv local (rt_queues r) of
               (Ok (Some (client, v, metadata)), q) \<Rightarrow>
                 (op\<lparr>op_state := ReadyState (ConnectionInfoOut client v metadata)\<rparr>,
                  (case op_task op of None \<Rightarrow> [] | Some t \<Rightarrow> [(op_process op, t)]),
                  transfer_region_ownership_on_recv ho (op_process op) client v
                    (release_queue_item shared (r\<lparr>rt_queues := q\<rparr>)))
             | (_, q) \<Rightarrow> (op, [], r\<lparr>rt_queues := q\<rparr>)));
         (ops', ws', r'') = wake_each_waiter ho shared ops r'
     in ((ident, op') # ops', ws @ ws', r''))"

definition wake_host_queue_waiters ::
    "('st, 'rid, 'g, 'd) host \<Rightarrow> u64 \<Rightarrow> ('st, 'rid, 'g, 'd) runtime \<Rightarrow> ('st, 'rid, 'g, 'd) runtime" where
  "wake_host_queue_waiters ho shared r =
    (case wake_each_waiter ho shared (rt_ops r) r of
       (ops, ws, r') \<Rightarrow> foldl (\<lambda>r (pid, t). wake_process_task pid t r) (r'\<lparr>rt_ops := ops\<rparr>) ws)"

definition parked_on :: "u64 \<Rightarrow> host_operation \<Rightarrow> (u64 \<times> u32) option" where
  "parked_on local op =
    (case op_state op of
       HostQueueRecvWait l _ \<Rightarrow>
         if l = local then map_option (\<lambda>t. (op_process op, t)) (op_task op) else None
     | _ \<Rightarrow> None)"

text \<open>Where no task is parked on the queue the code lets the owner's guest run; that step is the guest's.\<close>

definition wake_queue_waiter ::
    "u64 \<Rightarrow> ('st, 'rid, 'g, 'd) runtime \<Rightarrow> ('st, 'rid, 'g, 'd) runtime" where
  "wake_queue_waiter local r =
    foldl (\<lambda>r (pid, t). wake_process_task pid t r) r (List.map_filter (\<lambda>(_, op). parked_on local op) (rt_ops r))"

section \<open>Modules and registrations\<close>

definition register_module_bytes ::
    "string \<Rightarrow> u8 list \<Rightarrow> (('st, 'rid, 'g, 'd) runtime, runtime_error, unit) comp" where
  "register_module_bytes ident bytes r =
    (case rt_modules r ident of
       Some existing \<Rightarrow> if existing = bytes then (Ok (), r) else (Err (ModuleConflict ident), r)
     | None \<Rightarrow> (Ok (), r\<lparr>rt_modules := (rt_modules r)(ident \<mapsto> bytes)\<rparr>))"

definition module_bytes :: "('st, 'rid, 'g, 'd) runtime \<Rightarrow> string \<Rightarrow> (runtime_error, u8 list) result" where
  "module_bytes r ident = ok_or (rt_modules r ident) (UnknownModule ident)"

definition record_registration ::
    "u64 \<Rightarrow> string \<Rightarrow> ('st, 'rid, 'g, 'd) runtime \<Rightarrow> ('st, 'rid, 'g, 'd) runtime" where
  "record_registration pid uri r = r\<lparr>rt_registrations := (rt_registrations r)(pid \<mapsto>
     insert uri (case rt_registrations r pid of None \<Rightarrow> {} | Some us \<Rightarrow> us))\<rparr>"

end
