(* ===== verification/Lifecycle.thy ===== *)
theory Lifecycle
  imports Runtime_Ops
begin

text \<open>
  Starting and stopping guests: the spawn of a system guest (\<^verbatim>\<open>crates/runtime/src/bootstrap.rs\<close>), the
  two ways a process ends and the reclaiming of what it held (\<^verbatim>\<open>crates/runtime/src/process.rs\<close>,
  \<^verbatim>\<open>crates/kernel/src/network_runtime.rs\<close>).  Activity messages carry the fixed part of the text; the
  guest's recent log lines, which the code appends, are drained but not rendered.
\<close>

section \<open>Closing network resources\<close>

definition close_tcp_listener ::
    "u64 \<Rightarrow> (('st, 'rid, 'g, 'd) runtime, kernel_error, unit) comp" where
  "close_tcp_listener local r =
    (case ns_listeners (rt_network r) local of
       None \<Rightarrow> (Err (NotFoundE (''tcp listener '' @ show_u64 local)), r)
     | Some shared \<Rightarrow>
         (Ok (), r\<lparr>rt_network := (rt_network r)\<lparr>ns_listeners := (ns_listeners (rt_network r))(local := None)\<rparr>,
            rt_queues := \<lparr>hq_queues = (hq_queues (rt_queues r))(shared := None),
                          hq_local = (hq_local (rt_queues r))(local := None)\<rparr>\<rparr>))"

definition close_tcp_stream ::
    "u64 \<Rightarrow> (('st, 'rid, 'g, 'd) runtime, kernel_error, unit) comp" where
  "close_tcp_stream shared r =
    (if shared \<in> ns_streams (rt_network r)
     then (Ok (), r\<lparr>rt_network := (rt_network r)\<lparr>ns_streams := ns_streams (rt_network r) - {shared}\<rparr>\<rparr>)
     else (Err (NotFoundE (''tcp stream '' @ show_u64 shared)), r))"

definition close_udp_socket ::
    "u64 \<Rightarrow> (('st, 'rid, 'g, 'd) runtime, kernel_error, unit) comp" where
  "close_udp_socket shared r =
    (if shared \<in> ns_sockets (rt_network r)
     then (Ok (), r\<lparr>rt_network := (rt_network r)\<lparr>ns_sockets := ns_sockets (rt_network r) - {shared}\<rparr>\<rparr>)
     else (Err (NotFoundE (''udp socket '' @ show_u64 shared)), r))"

section \<open>Reclaiming what a process held\<close>

definition forget_process ::
    "u64 \<Rightarrow> ('st, 'rid, 'g, 'd) runtime \<Rightarrow> ('st, 'rid, 'g, 'd) runtime" where
  "forget_process pid r =
    (let r1 = r\<lparr>rt_capable := (rt_capable r)(pid := None), rt_metering := metering_remove pid (rt_metering r),
               rt_windows := (rt_windows r)(pid := None)\<rparr>;
         r2 = (case rt_quota_tenants r1 pid of
                 None \<Rightarrow> r1
               | Some tenant \<Rightarrow>
                   release_quota tenant ProcessClass 1
                     (r1\<lparr>rt_quota_tenants := (rt_quota_tenants r1)(pid := None)\<rparr>))
     in r2\<lparr>rt_attachments := filter (\<lambda>(_, ps). ps \<noteq> {}) (map (\<lambda>(k, ps). (k, ps - {pid})) (rt_attachments r2))\<rparr>)"

definition revoke_region ::
    "('st, 'rid, 'g, 'd) host \<Rightarrow> u64 \<times> u64 \<Rightarrow> (u64 \<times> string) list \<Rightarrow>
     (('st, 'rid, 'g, 'd) runtime, runtime_error, (u64 \<times> string) list) comp" where
  "revoke_region ho key facts =
    bindR (gets (\<lambda>r. map_of (rt_region_tenants r) key)) (\<lambda>serving.
      case serving of
        None \<Rightarrow> ret facts
      | Some tenant \<Rightarrow>
          bindR (publish_discovery_event ho (Revoke (region_registration_uri tenant (snd key)))) (\<lambda>_.
          bindR (update (\<lambda>r. r\<lparr>rt_region_tenants := AList.delete key (rt_region_tenants r)\<rparr>)) (\<lambda>_.
          ret (facts @ [(snd key, tenant)]))))"

definition revoke_queue ::
    "('st, 'rid, 'g, 'd) host \<Rightarrow> u64 \<times> u64 \<Rightarrow> (u64 \<times> string) list \<Rightarrow>
     (('st, 'rid, 'g, 'd) runtime, runtime_error, (u64 \<times> string) list) comp" where
  "revoke_queue ho key facts =
    bindR (gets (\<lambda>r. map_of (rt_queue_tenants r) key)) (\<lambda>principal.
      case principal of
        None \<Rightarrow> ret facts
      | Some tenant \<Rightarrow>
          bindR (publish_discovery_event ho (Revoke (queue_registration_uri tenant (snd key)))) (\<lambda>_.
          bindR (update (\<lambda>r. r\<lparr>rt_queue_tenants := AList.delete key (rt_queue_tenants r)\<rparr>)) (\<lambda>_.
          ret (facts @ [(snd key, tenant)]))))"

definition reclaim_handle ::
    "(u64 \<times> string) list \<Rightarrow> u64 \<Rightarrow> ('st, 'rid, 'g, 'd) runtime \<Rightarrow> resource_class \<times> u64 \<Rightarrow>
     ('st, 'rid, 'g, 'd) runtime" where
  "reclaim_handle facts pid r h =
    (case release_local_handle pid (fst h) (snd h) r of
       (False, r1) \<Rightarrow> r1
     | (True, r1) \<Rightarrow>
         (case fst h of
            SharedMapping \<Rightarrow> snd (on_memory (detach_shared_region (snd h)) r1)
          | HostQueueClass \<Rightarrow>
              (case (host_queue_shared_id (rt_queues r1) (snd h), host_queue_pending (rt_queues r1) (snd h)) of
                 (Ok shared, Ok pending) \<Rightarrow>
                   (case find (\<lambda>(i, _). i = shared) facts of
                      Some (_, owner) \<Rightarrow> release_quota owner HostQueueClass (of_nat pending) r1
                    | None \<Rightarrow> r1)
               | _ \<Rightarrow> r1)
          | TcpListener \<Rightarrow> snd (close_tcp_listener (snd h) r1)
          | TcpStream \<Rightarrow> snd (close_tcp_stream (snd h) r1)
          | UdpSocket \<Rightarrow> snd (close_udp_socket (snd h) r1)
          | DurableLog \<Rightarrow> snd (on_storage (close_log (snd h)) r1)
          | BlobStore \<Rightarrow> snd (on_storage (close_blob_store (snd h)) r1)
          | _ \<Rightarrow> r1))"

definition reclaim_region ::
    "('st, 'rid, 'g, 'd) host \<Rightarrow> (u64 \<times> string) list \<Rightarrow> u64 \<Rightarrow> ('st, 'rid, 'g, 'd) runtime \<Rightarrow> u64 \<Rightarrow>
     ('st, 'rid, 'g, 'd) runtime" where
  "reclaim_region ho facts pid r shared =
    (let count = shared_region_mapping_count shared (rt_memory r);
         r1 = snd (release_shared_resource pid SharedRegion shared r)
     in if count \<noteq> 0 then r1
        else let len_before = shared_region_len (ho_engine ho) shared (rt_memory r1);
                 r2 = snd (on_memory (destroy_shared_region (ho_engine ho) shared) r1)
             in case (len_before, find (\<lambda>(i, _). i = shared) facts) of
                  (Ok l, Some (_, tenant)) \<Rightarrow> release_quota tenant SharedRegion (ucast l) r2
                | _ \<Rightarrow> r2)"

definition keys_of :: "u64 \<Rightarrow> ((u64 \<times> u64) \<times> string) list \<Rightarrow> (u64 \<times> u64) list" where
  "keys_of pid ts = filter (\<lambda>k. fst k = pid) (map fst ts)"

definition owned_by :: "u64 \<Rightarrow> owners \<Rightarrow> (resource_class \<times> u64) list" where
  "owned_by pid os = map fst (filter (\<lambda>(_, ps). pid \<in> ps) os)"

definition cleanup_process_resources ::
    "('st, 'rid, 'g, 'd) host \<Rightarrow> u64 \<Rightarrow> string option \<Rightarrow> (('st, 'rid, 'g, 'd) runtime, runtime_error, unit) comp" where
  "cleanup_process_resources ho pid tenant =
    bindR (update (forget_process pid)) (\<lambda>_.
    bindR (publish_discovery_event ho (Revoke (process_registration_uri
             (case tenant of None \<Rightarrow> [] | Some t \<Rightarrow> t) pid))) (\<lambda>_.
    bindR (gets (\<lambda>r. keys_of pid (rt_region_tenants r))) (\<lambda>region_keys.
    bindR (for_each (revoke_region ho) region_keys []) (\<lambda>region_facts.
    bindR (publish_discovery_event ho (RevokeByOwner pid)) (\<lambda>_.
    bindR (update (\<lambda>r. r\<lparr>rt_registrations := (rt_registrations r)(pid := None)\<rparr>)) (\<lambda>_.
    bindR (gets (\<lambda>r. keys_of pid (rt_queue_tenants r))) (\<lambda>queue_keys.
    bindR (for_each (revoke_queue ho) queue_keys []) (\<lambda>queue_facts.
    bindR (update (\<lambda>r. r\<lparr>rt_handlers := AList.delete pid (rt_handlers r)\<rparr>)) (\<lambda>_.
    bindR (update (\<lambda>r. foldl (reclaim_handle queue_facts pid) r (owned_by pid (rt_local_owners r)))) (\<lambda>_.
    update (\<lambda>r. foldl (reclaim_region ho region_facts pid) r
      (map snd (filter (\<lambda>k. fst k = SharedRegion) (owned_by pid (rt_shared_owners r)))))))))))))))"

section \<open>Stopping\<close>

definition drop_operations ::
    "u64 \<Rightarrow> ('st, 'rid, 'g, 'd) runtime \<Rightarrow> ('st, 'rid, 'g, 'd) runtime" where
  "drop_operations pid r = r\<lparr>rt_ops := filter (\<lambda>(_, op). op_process op \<noteq> pid) (rt_ops r)\<rparr>"

definition drop_process_handle ::
    "u64 \<Rightarrow> ('st, 'rid, 'g, 'd) runtime \<Rightarrow> ('st, 'rid, 'g, 'd) runtime" where
  "drop_process_handle pid r = r\<lparr>rt_local_owners := AList.delete (ProcessClass, pid) (rt_local_owners r)\<rparr>"

definition resuming_teardown :: "('st, 'rid, 'g, 'd) runtime \<Rightarrow> u64 \<Rightarrow> kernel_error \<Rightarrow> bool" where
  "resuming_teardown r pid e =
    (case e of ProcessStoppedE _ \<Rightarrow> True | NotFoundE _ \<Rightarrow> map_of (rt_auths r) pid \<noteq> None | _ \<Rightarrow> False)"

definition teardown ::
    "('st, 'rid, 'g, 'd) host \<Rightarrow> u64 \<Rightarrow> (('st, 'rid, 'g, 'd) runtime, runtime_error, unit) comp" where
  "teardown ho pid r =
    (case map_of (rt_auths r) pid of
       None \<Rightarrow> (Ok (), r)
     | Some a \<Rightarrow>
         (case cleanup_process_resources ho pid (pa_tenant a)
                 ((drop_operations pid (r\<lparr>rt_auths := AList.delete pid (rt_auths r)\<rparr>))\<lparr>rt_mailboxes :=
                    (rt_mailboxes r)(pid := None)\<rparr>) of
            (Err e, r') \<Rightarrow> (Err e, r'\<lparr>rt_auths := AList.update pid a (rt_auths r')\<rparr>)
          | (Ok _, r') \<Rightarrow> (Ok (), r')))"

definition kernel_stop ::
    "u64 \<Rightarrow> (('st, 'rid, 'g, 'd) runtime, runtime_error, unit) comp" where
  "kernel_stop pid r =
    (case on_processes (kernel_stop_process pid) r of
       (Ok _, r') \<Rightarrow> (Ok (), r')
     | (Err e, r') \<Rightarrow> if resuming_teardown r' pid e then (Ok (), r') else (Err (KernelFailed e), r'))"

definition kernel_reap ::
    "u64 \<Rightarrow> (('st, 'rid, 'g, 'd) runtime, runtime_error, unit) comp" where
  "kernel_reap pid r =
    (case on_processes (reap_process pid) r of
       (Ok _, r') \<Rightarrow> (Ok (), r')
     | (Err (NotFoundE _), r') \<Rightarrow> (Ok (), r')
     | (Err e, r') \<Rightarrow> (Err (KernelFailed e), r'))"

definition stop_process ::
    "('st, 'rid, 'g, 'd) host \<Rightarrow> u64 \<Rightarrow> (('st, 'rid, 'g, 'd) runtime, runtime_error, unit) comp" where
  "stop_process ho pid =
    bindR (kernel_stop pid) (\<lambda>_.
    bindR (update (\<lambda>r. r\<lparr>rt_guests := AList.delete pid (rt_guests r)\<rparr>)) (\<lambda>_.
    bindR (teardown ho pid) (\<lambda>_.
    bindR (update (drop_process_handle pid)) (\<lambda>_.
    bindR (update (\<lambda>r. if rt_discovery r = Some pid then r\<lparr>rt_discovery := None\<rparr> else r)) (\<lambda>_.
    kernel_reap pid)))))"

definition cleanup_failed_process ::
    "('st, 'rid, 'g, 'd) host \<Rightarrow> u64 \<Rightarrow> ('st, 'rid, 'g, 'd) runtime \<Rightarrow> ('st, 'rid, 'g, 'd) runtime" where
  "cleanup_failed_process ho pid r =
    (let r1 = snd (on_processes (kernel_stop_process pid) r);
         r2 = drop_operations pid (r1\<lparr>rt_guests := AList.delete pid (rt_guests r1)\<rparr>)
     in case cleanup_process_resources ho pid (process_tenant (rt_auths r2) pid) r2 of
          (cleaned, r3) \<Rightarrow>
            let r4 = snd (on_processes (reap_process pid) r3);
                r5 = (case cleaned of
                        Ok _ \<Rightarrow> r4\<lparr>rt_auths := AList.delete pid (rt_auths r4)\<rparr>
                      | Err _ \<Rightarrow> r4)
            in drop_process_handle pid (r5\<lparr>rt_mailboxes := (rt_mailboxes r5)(pid := None),
                 rt_shared_owners := filter (\<lambda>(_, ps). ps \<noteq> {})
                   (map (\<lambda>(k, ps). (k, ps - {pid})) (rt_shared_owners r5))\<rparr>))"

section \<open>Starting\<close>

definition note_activity ::
    "activity_kind \<Rightarrow> u64 \<Rightarrow> string \<Rightarrow> ('st, 'rid, 'g, 'd) runtime \<Rightarrow> ('st, 'rid, 'g, 'd) runtime" where
  "note_activity kind pid message r = r\<lparr>rt_processes := record_activity
     \<lparr>av_kind = kind, av_process = Some pid, av_message = message\<rparr> (rt_processes r)\<rparr>"

definition drain_guest_log_messages ::
    "('st, 'rid, 'g, 'd) host \<Rightarrow> u64 \<Rightarrow> ('st, 'rid, 'g, 'd) runtime \<Rightarrow> string list \<times> ('st, 'rid, 'g, 'd) runtime" where
  "drain_guest_log_messages ho pid r =
    (case on_log_channels (drain_log_channel (ho_engine ho) pid) r of
       (Ok frames, r') \<Rightarrow>
         (List.map_filter (\<lambda>f. map_option (\<lambda>(_, _, message). message) (ho_log_record ho f)) frames, r')
     | (Err _, r') \<Rightarrow> ([], r'))"

definition give_up ::
    "('st, 'rid, 'g, 'd) host \<Rightarrow> u64 \<Rightarrow> runtime_error \<Rightarrow> (('st, 'rid, 'g, 'd) runtime, runtime_error, 'a) comp" where
  "give_up ho pid e = bindR (update (cleanup_failed_process ho pid)) (\<lambda>_. fail e)"

definition load_guest ::
    "('st, 'rid, 'g, 'd) host \<Rightarrow> u64 \<Rightarrow> u8 list \<Rightarrow> (('st, 'rid, 'g, 'd) runtime, runtime_error, 'g) comp" where
  "load_guest ho pid bytes r =
    (case ho_load ho pid bytes r of
       (Ok g, r') \<Rightarrow> (Ok g, r')
     | (Err e, r') \<Rightarrow> give_up ho pid e r')"

definition execute_entrypoint ::
    "('st, 'rid, 'g, 'd) host \<Rightarrow> u64 \<Rightarrow> system_guest \<Rightarrow> 'g \<Rightarrow> (('st, 'rid, 'g, 'd) runtime, runtime_error, 'g) comp" where
  "execute_entrypoint ho pid d g r =
    (case ho_run ho pid d g r of
       (Ok (g', failed), r') \<Rightarrow>
         if \<not> failed then (Ok g', r')
         else give_up ho pid (EntrypointFailed (sg_name d))
           (note_activity ProcessExited pid (''guest '' @ sg_name d @ '' entrypoint returned error'')
             (snd (drain_guest_log_messages ho pid r')))
     | (Err e, r') \<Rightarrow>
         give_up ho pid e (note_activity ProcessExited pid (''guest '' @ sg_name d @ '' trapped'')
           (snd (drain_guest_log_messages ho pid r'))))"

definition start_workers ::
    "('st, 'rid, 'g, 'd) host \<Rightarrow> u64 \<Rightarrow> system_guest \<Rightarrow> (('st, 'rid, 'g, 'd) runtime, runtime_error, unit) comp" where
  "start_workers ho pid d r =
    (case map_of (rt_guests r) pid of
       None \<Rightarrow> (Ok (), r)
     | Some g \<Rightarrow>
         if \<not> multithreaded (probe (sg_bytes d)) then (Ok (), r)
         else (case ho_start_workers ho g of
           Ok g' \<Rightarrow> (Ok (), r\<lparr>rt_guests := AList.update pid g' (rt_guests r)\<rparr>)
         | Err e \<Rightarrow> give_up ho pid e r))"

definition register_process_node ::
    "('st, 'rid, 'g, 'd) host \<Rightarrow> u64 \<Rightarrow> string option \<Rightarrow> (('st, 'rid, 'g, 'd) runtime, runtime_error, unit) comp" where
  "register_process_node ho pid tenant =
    (let uri = process_registration_uri (case tenant of None \<Rightarrow> [] | Some t \<Rightarrow> t) pid
     in publish_discovery_event ho (Register uri
          \<lparr>tg_uri = uri, tg_host = [], tg_resource = pid, tg_interface = None, tg_tenant = tenant,
           tg_class = ProcessClass, tg_labels = []\<rparr> (Some pid) False))"

definition begin_guest ::
    "system_guest \<Rightarrow> (('st, 'rid, 'g, 'd) runtime, runtime_error, u64) comp" where
  "begin_guest d r =
    (case start_process (sg_module d) (sg_entrypoint d) (sg_grants d) (rt_processes r) of
       (desc, t) \<Rightarrow>
         (Ok (pd_local desc), record_process_fastpath (pd_local desc) (fast_path_capable (probe (sg_bytes d)))
            (r\<lparr>rt_processes := t, rt_auths := persist_process_authority (pd_local desc) (sg_grants d)
                 (sg_tenant d) None (rt_auths r)\<rparr>)))"

definition spawn_system_guest ::
    "('st, 'rid, 'g, 'd) host \<Rightarrow> u64 \<Rightarrow> system_guest \<Rightarrow> (('st, 'rid, 'g, 'd) runtime, runtime_error, u64) comp" where
  "spawn_system_guest ho window_index d =
    bindR (lift_result (validate_grants (sg_grants d))) (\<lambda>_.
    bindR (begin_guest d) (\<lambda>pid.
    bindR (load_guest ho pid (sg_bytes d)) (\<lambda>loaded.
    bindR (\<lambda>r. case anchor_cpu_budget ho pid (sg_tenant d) window_index loaded r of (g, r') \<Rightarrow> (Ok g, r')) (\<lambda>anchored.
    bindR (execute_entrypoint ho pid d anchored) (\<lambda>executed.
    bindR (update (\<lambda>r. r\<lparr>rt_guests := AList.update pid executed (rt_guests r)\<rparr>)) (\<lambda>_.
    bindR (start_workers ho pid d) (\<lambda>_.
    bindR (update (claim_local_handle pid ProcessClass pid)) (\<lambda>_.
    bindR (register_module_bytes (sg_module d) (sg_bytes d)) (\<lambda>_.
    bindR (update (note_activity GuestBootstrapped pid (''guest '' @ sg_name d @ '' bootstrapped''))) (\<lambda>_.
    bindR (update (\<lambda>r. if sg_name d = ''discovery'' then r\<lparr>rt_discovery := Some pid\<rparr> else r)) (\<lambda>_.
    bindR (\<lambda>r. case register_process_node ho pid (sg_tenant d) r of
                 (Ok _, r') \<Rightarrow> (Ok (), r') | (Err e, r') \<Rightarrow> give_up ho pid e r') (\<lambda>_.
    bindR (update (\<lambda>r. if sg_handlers d = [] then r
                       else r\<lparr>rt_handlers := AList.update pid (sg_handlers d) (rt_handlers r)\<rparr>)) (\<lambda>_.
    ret pid)))))))))))))"

end
