(* ===== verification/Multi_Memory.thy ===== *)
theory Multi_Memory
  imports Mapping_Backend
begin

text \<open>
  The header of a region that holds several sub-memories (\<^verbatim>\<open>crates/memory/src/multi_memory.rs\<close>): a
  magic number, the capacity, the number of entries and the table of offsets and lengths.
\<close>

definition HEADER_CAPACITY_OFFSET :: u64 where "HEADER_CAPACITY_OFFSET = 8"
definition HEADER_COUNT_OFFSET :: u64 where "HEADER_COUNT_OFFSET = 16"
definition HEADER_ENTRY_OFFSET :: u64 where "HEADER_ENTRY_OFFSET = 24"
definition HEADER_ENTRY_SIZE :: u64 where "HEADER_ENTRY_SIZE = 8"
definition HEADER_SIZE_TWO_ENTRIES :: u64 where
  "HEADER_SIZE_TWO_ENTRIES = HEADER_ENTRY_OFFSET + 2 * HEADER_ENTRY_SIZE"

lemmas header_offsets = HEADER_CAPACITY_OFFSET_def HEADER_COUNT_OFFSET_def HEADER_ENTRY_OFFSET_def
  HEADER_ENTRY_SIZE_def HEADER_SIZE_TWO_ENTRIES_def

record memory_entry =
  en_offset :: u64
  en_length :: u64

record memory_header =
  mh_capacity :: u64
  mh_count :: u32
  mh_entries :: "memory_entry list"

definition entry_at :: "u64 \<Rightarrow> nat \<Rightarrow> u64" where
  "entry_at off i = off + HEADER_ENTRY_OFFSET + of_nat i * HEADER_ENTRY_SIZE"

definition write_entry :: "'s mapping_backend \<Rightarrow> u64 \<Rightarrow> nat \<times> u64 \<times> u64 \<Rightarrow> unit \<Rightarrow> ('s, memory_error, unit) comp" where
  "write_entry B off = (\<lambda>(i, start, n) _.
    bindR (mb_write B (entry_at off i) (to_le 4 (ucast start :: u32))) (\<lambda>_.
    mb_write B (entry_at off i + 4) (to_le 4 (ucast n :: u32))))"

definition write_two_entries ::
    "'s mapping_backend \<Rightarrow> u64 \<Rightarrow> u64 \<Rightarrow> u64 \<times> u64 \<Rightarrow> u64 \<times> u64 \<Rightarrow> ('s, memory_error, unit) comp" where
  "write_two_entries B off capacity e0 e1 =
    bindR (mb_write B off (to_le 8 SHARED_REGION_MAGIC)) (\<lambda>_.
    bindR (mb_write B (off + HEADER_CAPACITY_OFFSET) (to_le 8 capacity)) (\<lambda>_.
    bindR (mb_write B (off + HEADER_COUNT_OFFSET) (to_le 4 (2 :: u32))) (\<lambda>_.
    for_each (write_entry B off) [(0, e0), (1, e1)] ())))"

definition read_word :: "'s mapping_backend \<Rightarrow> u64 \<Rightarrow> nat \<Rightarrow> ('s, memory_error, 'w::len word) comp" where
  "read_word B a n =
    bindR (mb_read B a (of_nat n)) (\<lambda>bs. if length bs = n then ret (from_le bs) else fail MemInvalidLayout)"

definition read_entry ::
    "'s mapping_backend \<Rightarrow> u64 \<Rightarrow> nat \<Rightarrow> memory_entry list \<Rightarrow> ('s, memory_error, memory_entry list) comp" where
  "read_entry B off i es =
    bindR (read_word B (entry_at off i) 4) (\<lambda>start :: u32.
    bindR (read_word B (entry_at off i + 4) 4) (\<lambda>n :: u32.
    ret (es @ [\<lparr>en_offset = ucast start, en_length = ucast n\<rparr>])))"

definition parse_header :: "'s mapping_backend \<Rightarrow> u64 \<Rightarrow> ('s, memory_error, memory_header) comp" where
  "parse_header B off =
    bindR (read_word B off 8) (\<lambda>magic :: u64.
    if magic \<noteq> SHARED_REGION_MAGIC then fail MemInvalidLayout
    else bindR (read_word B (off + HEADER_CAPACITY_OFFSET) 8) (\<lambda>capacity :: u64.
    bindR (read_word B (off + HEADER_COUNT_OFFSET) 4) (\<lambda>count :: u32.
    bindR (for_each (read_entry B off) [0..<unat count] []) (\<lambda>es.
    ret \<lparr>mh_capacity = capacity, mh_count = count, mh_entries = es\<rparr>))))"

definition header_entry :: "memory_header \<Rightarrow> u32 \<Rightarrow> (memory_error, memory_entry) result" where
  "header_entry h index =
    (if unat index < length (mh_entries h) then Ok (mh_entries h ! unat index) else Err MemInvalidLayout)"

section \<open>Round trip\<close>

lemma unat_offset:
  assumes "unat off + 40 < 2 ^ 64" "unat k \<le> 40"
  shows "unat (off + k :: u64) = unat off + unat k"
  using assms by (intro unat_add_lt) simp

lemma unat_fields:
  assumes lt: "unat off + 40 < 2 ^ 64"
  shows "unat (off + 8) = unat off + 8" "unat (off + 16) = unat off + 16"
    "unat (entry_at off 0) = unat off + 24" "unat (entry_at off 0 + 4) = unat off + 28"
    "unat (entry_at off (Suc 0)) = unat off + 32" "unat (entry_at off (Suc 0) + 4) = unat off + 36"
  using unat_offset [OF lt, of 8] unat_offset [OF lt, of 16] unat_offset [OF lt, of 24]
    unat_offset [OF lt, of 28] unat_offset [OF lt, of 32] unat_offset [OF lt, of 36]
  by (simp_all add: entry_at_def header_offsets add.assoc)

context mapping_access
begin

lemma read_word_ok:
  assumes "good s" "unat a + n \<le> extent"
  shows "read_word B a n s = (Ok (from_le (bytes_at (view s) (unat a) n)), s)"
proof -
  have "n < 2 ^ 64" using assms(2) extent_bound by linarith
  then have "unat (of_nat n :: u64) = n" by (simp add: unat_of_nat take_bit_nat_eq_self)
  then show ?thesis using assms by (simp add: read_word_def read_ok)
qed

lemma two_entries_written:
  assumes g: "good s" and fits: "unat off + 40 \<le> extent"
  shows "\<exists>t. write_two_entries B off capacity (o0, l0) (o1, l1) s = (Ok (), t) \<and> good t \<and>
    bytes_at (view t) (unat off) 8 = to_le 8 SHARED_REGION_MAGIC \<and>
    bytes_at (view t) (unat off + 8) 8 = to_le 8 capacity \<and>
    bytes_at (view t) (unat off + 16) 4 = to_le 4 (2 :: u32) \<and>
    bytes_at (view t) (unat off + 24) 4 = to_le 4 (ucast o0 :: u32) \<and>
    bytes_at (view t) (unat off + 28) 4 = to_le 4 (ucast l0 :: u32) \<and>
    bytes_at (view t) (unat off + 32) 4 = to_le 4 (ucast o1 :: u32) \<and>
    bytes_at (view t) (unat off + 36) 4 = to_le 4 (ucast l1 :: u32)"
proof -
  have lt: "unat off + 40 < 2 ^ 64" using fits extent_bound by linarith
  have same: "bytes_at (upd_bytes m i (to_le n w)) i n = to_le n w" for m i n and w :: "'w::len word"
    using bytes_at_upd_same [of m i "to_le n w"] by simp
  have other: "i + n \<le> j \<or> j + k \<le> i \<Longrightarrow> bytes_at (upd_bytes m j (to_le k w)) i n = bytes_at m i n"
    for m i j n k and w :: "'w::len word"
    using bytes_at_upd_disjoint [of i n j "to_le k w" m] by simp
  show ?thesis
    using g fits
    by (simp add: write_two_entries_def write_entry_def write_ok good_put view_put header_offsets
        unat_fields [OF lt] same other)
qed

end

text \<open>A two-entry header reads back as it was written: parsing at the same offset returns the
  capacity, the count of two and both entries in order, for offsets and lengths below 4 GiB, on every
  region that holds the forty bytes.\<close>

theorem two_entry_header_round_trip:
  assumes fits: "unat off + 40 \<le> unat (pb_size b)"
    and small: "unat o0 < 2 ^ 32" "unat l0 < 2 ^ 32" "unat o1 < 2 ^ 32" "unat l1 < 2 ^ 32"
  shows "\<exists>t. write_two_entries (pointer_ops b) off capacity (o0, l0) (o1, l1) s = (Ok (), t) \<and>
    parse_header (pointer_ops b) off t = (Ok \<lparr>mh_capacity = capacity, mh_count = 2,
      mh_entries = [\<lparr>en_offset = o0, en_length = l0\<rparr>, \<lparr>en_offset = o1, en_length = l1\<rparr>]\<rparr>, t)"
proof -
  have lt: "unat off + 40 < 2 ^ 64" using fits unat_u64_lt [of "pb_size b"] by linarith
  have narrow: "ucast (ucast x :: u32) = x" if "unat x < 2 ^ 32" for x :: u64
    using that by (intro word_unat_eq_iff [THEN iffD2]) (simp add: unsigned_ucast_eq unsigned_take_bit_eq take_bit_nat_eq_self)
  from raw.two_entries_written [OF TrueI fits, of capacity o0 l0 o1 l1 s]
  obtain t where t: "write_two_entries (pointer_ops b) off capacity (o0, l0) (o1, l1) s = (Ok (), t)"
    "bytes_at (pb_view b t) (unat off) 8 = to_le 8 SHARED_REGION_MAGIC"
    "bytes_at (pb_view b t) (unat off + 8) 8 = to_le 8 capacity"
    "bytes_at (pb_view b t) (unat off + 16) 4 = to_le 4 (2 :: u32)"
    "bytes_at (pb_view b t) (unat off + 24) 4 = to_le 4 (ucast o0 :: u32)"
    "bytes_at (pb_view b t) (unat off + 28) 4 = to_le 4 (ucast l0 :: u32)"
    "bytes_at (pb_view b t) (unat off + 32) 4 = to_le 4 (ucast o1 :: u32)"
    "bytes_at (pb_view b t) (unat off + 36) 4 = to_le 4 (ucast l1 :: u32)"
    by auto
  have two: "[0..<2] = [0, Suc 0]" by (simp add: upt_rec)
  have "parse_header (pointer_ops b) off t = (Ok \<lparr>mh_capacity = capacity, mh_count = 2,
      mh_entries = [\<lparr>en_offset = o0, en_length = l0\<rparr>, \<lparr>en_offset = o1, en_length = l1\<rparr>]\<rparr>, t)"
    using fits t small
    by (simp add: parse_header_def two read_entry_def raw.read_word_ok header_offsets unat_fields [OF lt]
        from_le_to_le64 from_le_to_le32 narrow)
  then show ?thesis using t(1) by blast
qed

theorem two_entry_header_round_trip_witness:
  "\<exists>t. write_two_entries (pointer_ops \<lparr>pb_base = 0, pb_size = 8192\<rparr>) 0 8192 (1024, 2048) (3072, 2048)
      blank_memory = (Ok (), t) \<and>
    parse_header (pointer_ops \<lparr>pb_base = 0, pb_size = 8192\<rparr>) 0 t = (Ok \<lparr>mh_capacity = 8192, mh_count = 2,
      mh_entries = [\<lparr>en_offset = 1024, en_length = 2048\<rparr>, \<lparr>en_offset = 3072, en_length = 2048\<rparr>]\<rparr>, t)"
  by (rule two_entry_header_round_trip) simp_all

end
