(* ===== verification/Network_Ops.thy ===== *)
theory Network_Ops
  imports Lifecycle Multi_Memory
begin

text \<open>
  Network resources of the runtime (\<^verbatim>\<open>crates/runtime/src/network.rs\<close>): the region a socket shares with
  its guest, the bind and connect operations, and what happens to an accepted connection.  Sockets
  belong to the operating system; whether each of its calls succeeds is an argument.  The threads that
  move bytes between rings and sockets are not modelled.
\<close>

section \<open>Stream regions\<close>

definition DEFAULT_RING_CAPACITY :: u64 where "DEFAULT_RING_CAPACITY = 64 * 1024"

definition align_up :: "u32 \<Rightarrow> u32 \<Rightarrow> u32" where
  "align_up value alignment =
    (let r = value mod alignment in if r = 0 then value else value + alignment - r)"

definition ring_region_len :: u32 where
  "ring_region_len = ucast RING_HEADER_SIZE + ucast DEFAULT_RING_CAPACITY"

definition stream_header_size :: u32 where
  "stream_header_size = ucast HEADER_ENTRY_OFFSET + 2 * ucast HEADER_ENTRY_SIZE"

definition stream_capacity :: u32 where
  "stream_capacity = align_up (stream_header_size + align_up (stream_header_size + ring_region_len) 8 + ring_region_len) 8"

definition inbound_offset :: u64 where
  "inbound_offset = ucast (align_up stream_header_size 8)"

definition outbound_offset :: u64 where
  "outbound_offset = ucast (align_up (ucast inbound_offset + ring_region_len) 8)"

definition host_kernel :: "('s, kernel_error, 'a) comp \<Rightarrow> ('s, runtime_error, 'a) comp" where
  "host_kernel = map_err (\<lambda>e. HostFailed (show_kernel_error e))"

definition host_memory :: "('s, memory_error, 'a) comp \<Rightarrow> ('s, runtime_error, 'a) comp" where
  "host_memory = map_err (\<lambda>e. HostFailed (show_memory_error e))"

definition host_wire :: "('s, wire_error, 'a) comp \<Rightarrow> ('s, runtime_error, 'a) comp" where
  "host_wire = map_err (\<lambda>e. HostFailed (show_wire_error e))"

definition create_stream_region ::
    "('st, 'rid) region_engine \<Rightarrow> (('st, 'rid) memory_registry, runtime_error, u64 \<times> u64 \<times> u64 \<times> u64) comp" where
  "create_stream_region en =
    bindR (host_kernel (allocate_shared_region en stream_capacity)) (\<lambda>(shared, _).
    bindR (host_kernel (attach_backend en shared)) (\<lambda>parent.
    bindR (host_memory (write_two_entries (kernel_ops en parent) 0 (ucast stream_capacity)
             (inbound_offset, ucast ring_region_len) (outbound_offset, ucast ring_region_len))) (\<lambda>_.
    bindR (host_memory (lift_result (kb_sub_region parent inbound_offset (ucast ring_region_len)))) (\<lambda>inbound.
    bindR (host_memory (lift_result (kb_sub_region parent outbound_offset (ucast ring_region_len)))) (\<lambda>outbound.
    bindR (host_wire (init_ring (kernel_ops en inbound))) (\<lambda>_.
    bindR (host_wire (init_ring (kernel_ops en outbound))) (\<lambda>_.
    bindR (host_wire (store_shared_capacity (kernel_ops en inbound) DEFAULT_RING_CAPACITY)) (\<lambda>_.
    bindR (host_wire (store_shared_capacity (kernel_ops en outbound) DEFAULT_RING_CAPACITY)) (\<lambda>_.
    bindR (host_wire (lift_result (ring_writer_open DEFAULT_RING_CAPACITY))) (\<lambda>_.
    bindR (host_wire (increment_writer_count (kernel_ops en inbound))) (\<lambda>_.
    bindR (host_wire (ring_reader_open (kernel_ops en outbound) DEFAULT_RING_CAPACITY True)) (\<lambda>_.
    ret (shared, ucast stream_capacity, outbound_offset, kb_local parent)))))))))))))"

section \<open>Binding and connecting\<close>

record socket_outcome =
  so_open :: bool
  so_clone :: bool
  so_register :: bool

definition tcp_bind ::
    "socket_outcome \<Rightarrow> u64 \<Rightarrow> (('st, 'rid, 'g, 'd) runtime, runtime_error, queue_descriptor) comp" where
  "tcp_bind so pid =
    bindR (ensure (so_open so) (HostFailed ''tcp bind failed'')) (\<lambda>_.
    bindR (\<lambda>r. case create_host_queue (rt_memory r) (rt_queues r) of
                 (desc, m, q) \<Rightarrow> (Ok desc, r\<lparr>rt_memory := m, rt_queues := q\<rparr>)) (\<lambda>desc.
    bindR (update (register_queue_waiter (qd_local desc) pid)) (\<lambda>_.
    bindR (ensure (so_clone so) (HostFailed ''listener clone failed'')) (\<lambda>_.
    bindR (update (\<lambda>r. r\<lparr>rt_network := (rt_network r)\<lparr>ns_listeners :=
             (ns_listeners (rt_network r))(qd_local desc \<mapsto> qd_shared desc)\<rparr>\<rparr>)) (\<lambda>_.
    bindR (ensure (so_register so) (HostFailed ''poller register listener'')) (\<lambda>_.
    ret desc))))))"

definition tcp_connect ::
    "('st, 'rid, 'g, 'd) host \<Rightarrow> socket_outcome \<Rightarrow> (('st, 'rid, 'g, 'd) runtime, runtime_error, u64 \<times> u64) comp" where
  "tcp_connect ho so =
    bindR (ensure (so_open so) (HostFailed ''tcp connect failed'')) (\<lambda>_.
    bindR (ensure (so_clone so) (HostFailed ''tcp stream clone failed'')) (\<lambda>_.
    bindR (on_memory (create_stream_region (ho_engine ho))) (\<lambda>(shared, total, ring_offset, _).
    bindR (update (\<lambda>r. r\<lparr>rt_network := (rt_network r)\<lparr>ns_streams := insert shared (ns_streams (rt_network r))\<rparr>\<rparr>)) (\<lambda>_.
    bindR (ensure (so_register so) (HostFailed ''poller register stream'')) (\<lambda>_.
    bindR (update (\<lambda>r. r\<lparr>rt_network_keys := rt_network_keys r @ [(shared, ring_offset + GENERATION_COUNTER_OFFSET)]\<rparr>)) (\<lambda>_.
    ret (shared, total)))))))"

definition udp_bind ::
    "('st, 'rid, 'g, 'd) host \<Rightarrow> socket_outcome \<Rightarrow> (('st, 'rid, 'g, 'd) runtime, runtime_error, u64 \<times> u64) comp" where
  "udp_bind ho so =
    bindR (ensure (so_open so) (HostFailed ''udp bind failed'')) (\<lambda>_.
    bindR (ensure (so_clone so) (HostFailed ''udp socket clone failed'')) (\<lambda>_.
    bindR (on_memory (create_stream_region (ho_engine ho))) (\<lambda>(shared, total, ring_offset, _).
    bindR (update (\<lambda>r. r\<lparr>rt_network := (rt_network r)\<lparr>ns_sockets := insert shared (ns_sockets (rt_network r))\<rparr>\<rparr>)) (\<lambda>_.
    bindR (ensure (so_register so) (HostFailed ''poller register udp'')) (\<lambda>_.
    bindR (update (\<lambda>r. r\<lparr>rt_network_keys := rt_network_keys r @ [(shared, ring_offset + GENERATION_COUNTER_OFFSET)]\<rparr>)) (\<lambda>_.
    ret (shared, total)))))))"

section \<open>Accepting\<close>

definition drop_stream ::
    "u64 \<Rightarrow> u64 \<Rightarrow> ('st, 'rid, 'g, 'd) runtime \<Rightarrow> ('st, 'rid, 'g, 'd) runtime" where
  "drop_stream parent shared r =
    (snd (on_memory (detach_shared_region parent) r))\<lparr>rt_network :=
       (rt_network r)\<lparr>ns_streams := ns_streams (rt_network r) - {shared}\<rparr>\<rparr>"

text \<open>An accepted connection: a slot is charged, a stream region made and the region queued as item of process 0.\<close>

definition accept_connection ::
    "('st, 'rid, 'g, 'd) host \<Rightarrow> socket_outcome \<Rightarrow> u64 \<Rightarrow> ('st, 'rid, 'g, 'd) runtime \<Rightarrow> ('st, 'rid, 'g, 'd) runtime" where
  "accept_connection ho so local r =
    (let (charged, r1) = (case host_queue_shared_id (rt_queues r) local of
                            Err _ \<Rightarrow> (Ok (), r)
                          | Ok shared \<Rightarrow> charge_queue_item shared r)
     in (case charged of
          Err _ \<Rightarrow> r1
        | Ok _ \<Rightarrow>
            (case on_memory (create_stream_region (ho_engine ho)) r1 of
               (Err _, r2) \<Rightarrow> r2
             | (Ok (shared, _, ring_offset, parent), r2) \<Rightarrow>
                 let r3 = r2\<lparr>rt_network := (rt_network r2)\<lparr>ns_streams := insert shared (ns_streams (rt_network r2))\<rparr>\<rparr>
                 in if \<not> so_clone so \<or> \<not> so_register so then drop_stream parent shared r3
                    else
                      let r4 = r3\<lparr>rt_network_keys := rt_network_keys r3 @ [(shared, ring_offset + GENERATION_COUNTER_OFFSET)]\<rparr>
                      in (case on_queues (host_queue_send local (0, shared, [])) r4 of
                           (Err _, r5) \<Rightarrow> r5
                         | (Ok _, r5) \<Rightarrow> wake_queue_waiter local r5))))"

end
