(* ===== verification/Hostcalls.thy ===== *)
theory Hostcalls
  imports Network_Ops
begin

text \<open>
  The hostcalls of guests (\<^verbatim>\<open>crates/runtime/src/hostcall.rs\<close>): one definition per request, the
  dispatcher, and the life of an operation from begin through poll to drop.  What the operating system
  answers during a call (clocks, entropy, sockets) is the record \<open>host_inputs\<close>.  Instants are
  nanoseconds.  \<^verbatim>\<open>AttachRegion\<close> is modelled for the calling guest's loaded instance.
\<close>

section \<open>Requests\<close>

datatype hostcall_request =
    TcpBind string
  | TcpConnect string
  | UdpBind string
  | StorageOpenLog string
  | StorageLogClose u64
  | StorageLogAppend u64 u64 "(string \<times> string) list" "u8 list"
  | StorageLogReplay u64 "u64 option" u32
  | StorageLogCheckpoint u64 string u64
  | StorageLogCheckpointRead u64 string
  | StorageOpenBlobStore string
  | StorageBlobStoreClose u64
  | StorageBlobPut u64 "u8 list"
  | StorageBlobGet u64 string
  | StorageBlobSetManifest u64 string string
  | StorageBlobGetManifest u64 string
  | ProcessStart string string "u8 list list" "capability_grant list" "string option"
  | ProcessStop u64
  | ActivityReadCall nat
  | MeteringReadCall u64
  | QuotaSet string resource_class u64
  | QuotaClear string resource_class
  | GuestLogWriteCall guest_log_entry
  | GuestLogReadCall nat "u64 option"
  | HostQueueCreate "string option"
  | HostQueueAttach u64
  | HostQueueSend u64 u64 "u8 list"
  | HostQueueRecv u64
  | SelfInfo
  | ResolveProtocolHandler string
  | AllocRegion u32 region_prot resource_kind "string option"
  | ProcessTenant u64
  | ProcessCapability u64 capability
  | RecordRegistration u64 string
  | FreeRegion u64
  | AttachRegion u64 "u32 option" region_prot
  | TimeNow
  | TimeMonotonic
  | Sleep u64
  | RandomBytes u32
  | GuestLogRegister u64
  | WaitRegister u64 u64
  | GenerationAdvance u64 u64
  | RecordResolvedQueueFor u64 u64
  | RecordResolvedRegionFor u64 u64
  | SignTenantCa string
  | SignUserCert string "u8 list"
  | RevokeCa string

record host_inputs =
  in_now :: nat
  in_wall :: u64
  in_monotonic :: u64
  in_minute :: u64
  in_random :: "nat \<Rightarrow> u8 list option"
  in_key :: "u8 list"
  in_sockets :: socket_outcome
  in_attach :: "(string, u32) result option"

type_synonym ('st, 'rid, 'g, 'd) handler =
  "(('st, 'rid, 'g, 'd) runtime, abi_error_code, host_operation_state) comp"

definition ready :: "hostcall_output \<Rightarrow> ('st, 'rid, 'g, 'd) handler" where
  "ready out = ret (ReadyState out)"

definition internal :: "('s, 'e, 'a) comp \<Rightarrow> ('s, abi_error_code, 'a) comp" where
  "internal = map_err (\<lambda>_. Internal)"

definition discovery_only :: "u64 \<Rightarrow> (('st, 'rid, 'g, 'd) runtime, abi_error_code, unit) comp" where
  "discovery_only pid = check (\<lambda>r. if rt_discovery r = Some pid then Ok () else Err PermissionDenied)"

section \<open>Regions\<close>

definition register_resource ::
    "('st, 'rid, 'g, 'd) host \<Rightarrow> u64 \<Rightarrow> string \<Rightarrow> string \<Rightarrow> resource_class \<Rightarrow> u64 \<Rightarrow>
     (('st, 'rid, 'g, 'd) runtime, abi_error_code, unit) comp" where
  "register_resource ho pid tenant uri class ident =
    internal (publish_discovery_event ho (Register uri
      \<lparr>tg_uri = uri, tg_host = [], tg_resource = ident, tg_interface = None,
       tg_tenant = (if tenant = [] then None else Some tenant), tg_class = class, tg_labels = []\<rparr>
      (Some pid) False))"

definition alloc_region ::
    "('st, 'rid, 'g, 'd) host \<Rightarrow> u64 \<Rightarrow> u32 \<Rightarrow> string option \<Rightarrow> ('st, 'rid, 'g, 'd) handler" where
  "alloc_region ho pid pages serving =
    bindR (requireR pid SharedMemory SharedRegion None) (\<lambda>_.
    bindR (check (\<lambda>r. authorize_serving_tenant (rt_auths r) pid serving)) (\<lambda>tenant.
    let bytes = ucast pages * 65536 :: u64
    in bindR (ensure (bytes < 2 ^ 32) MalformedPayload) (\<lambda>_.
    bindR (enforce_quota tenant SharedRegion bytes) (\<lambda>_.
    bindR (kernel_call (on_memory (allocate_shared_region (ho_engine ho) (ucast bytes)))) (\<lambda>(shared, _).
    bindR (update (claim_shared_resource pid SharedRegion shared)) (\<lambda>_.
    bindR (register_resource ho pid tenant (region_registration_uri tenant shared) SharedRegion shared) (\<lambda>_.
    bindR (update (\<lambda>r. r\<lparr>rt_region_tenants := AList.update (pid, shared) tenant (rt_region_tenants r)\<rparr>)) (\<lambda>_.
    ready (RegionAllocOut shared 0)))))))))"

definition free_region ::
    "('st, 'rid, 'g, 'd) host \<Rightarrow> u64 \<Rightarrow> u64 \<Rightarrow> ('st, 'rid, 'g, 'd) handler" where
  "free_region ho pid region =
    bindR (ensure_shared_resource_owner pid SharedRegion region) (\<lambda>_.
    bindR (kernel_call (check (\<lambda>r. shared_region_len (ho_engine ho) region (rt_memory r)))) (\<lambda>region_len.
    bindR (gets (\<lambda>r. map_of (rt_region_tenants r) (pid, region))) (\<lambda>serving.
    bindR (kernel_call (check (\<lambda>r. region_of region (rt_memory r)))) (\<lambda>rid.
    bindR (update (\<lambda>r. r\<lparr>rt_guests := map (\<lambda>(p, g). (p, ho_detach ho rid g)) (rt_guests r)\<rparr>)) (\<lambda>_.
    bindR (update (\<lambda>r. r\<lparr>rt_memory := detach_all_shared_mappings region (rt_memory r)\<rparr>)) (\<lambda>_.
    bindR (kernel_call (on_memory (destroy_shared_region (ho_engine ho) region))) (\<lambda>_.
    bindR (update (clear_fast_path_attachments region)) (\<lambda>_.
    bindR (update (\<lambda>r. snd (release_shared_resource pid SharedRegion region r))) (\<lambda>_.
    bindR (update (\<lambda>r. case serving of None \<Rightarrow> r
             | Some tenant \<Rightarrow> release_quota tenant SharedRegion (ucast region_len) r)) (\<lambda>_.
    bindR (gets (\<lambda>r. map_of (rt_region_tenants r) (pid, region))) (\<lambda>recorded.
    bindR (update (\<lambda>r. r\<lparr>rt_region_tenants := AList.delete (pid, region) (rt_region_tenants r)\<rparr>)) (\<lambda>_.
    bindR (case recorded of None \<Rightarrow> ret ()
           | Some tenant \<Rightarrow> internal (publish_discovery_event ho (Revoke (region_registration_uri tenant region)))) (\<lambda>_.
    ready EmptyOut)))))))))))))"

text \<open>
  A guest that calls from inside its own execution supplies its memory, and the region is mapped there;
  the outcome of that mapping is an input.  Otherwise the region is mapped through the loaded guest.
\<close>

definition attach_into_guest ::
    "('st, 'rid, 'g, 'd) host \<Rightarrow> u64 \<Rightarrow> 'rid \<Rightarrow> region_prot \<Rightarrow> u32 option \<Rightarrow>
     (('st, 'rid, 'g, 'd) runtime, abi_error_code, u32) comp" where
  "attach_into_guest ho pid rid prot slot r =
    (case map_of (rt_guests r) pid of
       None \<Rightarrow> (Err InvalidHandle, r)
     | Some g \<Rightarrow>
         (case ho_attach ho rid prot slot g of
            (Err _, g') \<Rightarrow> (Err Internal, r\<lparr>rt_guests := AList.update pid g' (rt_guests r)\<rparr>)
          | (Ok page, g') \<Rightarrow> (Ok page, r\<lparr>rt_guests := AList.update pid g' (rt_guests r)\<rparr>)))"

definition map_region ::
    "('st, 'rid, 'g, 'd) host \<Rightarrow> (string, u32) result option \<Rightarrow> u64 \<Rightarrow> u64 \<Rightarrow> region_prot \<Rightarrow> u32 option \<Rightarrow>
     (('st, 'rid, 'g, 'd) runtime, abi_error_code, u32) comp" where
  "map_region ho own_memory pid region prot slot =
    (case own_memory of
       Some outcome \<Rightarrow>
         bindR (internal (check (\<lambda>r. region_of region (rt_memory r)))) (\<lambda>_.
         internal (lift_result outcome))
     | None \<Rightarrow>
         bindR (kernel_call (check (\<lambda>r. region_of region (rt_memory r)))) (\<lambda>rid.
         attach_into_guest ho pid rid prot slot))"

definition attach_region ::
    "('st, 'rid, 'g, 'd) host \<Rightarrow> (string, u32) result option \<Rightarrow> u64 \<Rightarrow> u64 \<Rightarrow> u32 option \<Rightarrow> region_prot \<Rightarrow>
     ('st, 'rid, 'g, 'd) handler" where
  "attach_region ho own_memory pid region slot prot =
    bindR (requireR pid SharedMemory SharedRegion (Some (SharedId region))) (\<lambda>_.
    bindR (ensure_attach_authorised pid region) (\<lambda>_.
    bindR (map_region ho own_memory pid region prot slot) (\<lambda>page_offset.
    bindR (update (\<lambda>r. record_fast_path_attachment region pid
             (ho_registry ho \<and> process_fastpath_capable r pid) r)) (\<lambda>_.
    bindR (kernel_call (on_memory (attach_shared_region region))) (\<lambda>local.
    bindR (update (claim_local_handle pid SharedMapping local)) (\<lambda>_.
    bindR (update (record_region_attachment pid region)) (\<lambda>_.
    bindR (kernel_call (check (\<lambda>r. shared_region_len (ho_engine ho) region (rt_memory r)))) (\<lambda>l.
    ready (RegionAttachOut page_offset l)))))))))"

section \<open>Sockets\<close>

definition socket_address ::
    "('st, 'rid, 'g, 'd) host \<Rightarrow> string \<Rightarrow> (('st, 'rid, 'g, 'd) runtime, abi_error_code, string) comp" where
  "socket_address ho address = lift_result (ok_or (ho_socket_addr ho address) MalformedPayload)"

definition tcp_bind_call ::
    "('st, 'rid, 'g, 'd) host \<Rightarrow> socket_outcome \<Rightarrow> u64 \<Rightarrow> string \<Rightarrow> ('st, 'rid, 'g, 'd) handler" where
  "tcp_bind_call ho so pid address =
    bindR (socket_address ho address) (\<lambda>addr.
    bindR (check (\<lambda>r. require_with_uri (rt_auths r) pid Network TcpListener None (''tcp://'' @ addr))) (\<lambda>_.
    bindR (internal (tcp_bind so pid)) (\<lambda>desc.
    bindR (update (claim_local_handle pid TcpListener (qd_local desc))) (\<lambda>_.
    bindR (update (claim_local_handle pid HostQueueClass (qd_local desc))) (\<lambda>_.
    bindR (update (claim_shared_resource pid TcpListener (qd_shared desc))) (\<lambda>_.
    ready (HostQueueOut desc)))))))"

definition tcp_connect_call ::
    "('st, 'rid, 'g, 'd) host \<Rightarrow> socket_outcome \<Rightarrow> u64 \<Rightarrow> string \<Rightarrow> ('st, 'rid, 'g, 'd) handler" where
  "tcp_connect_call ho so pid address =
    bindR (socket_address ho address) (\<lambda>addr.
    bindR (check (\<lambda>r. require_with_uri (rt_auths r) pid Network TcpStream None (''tcp://'' @ addr))) (\<lambda>_.
    bindR (internal (tcp_connect ho so)) (\<lambda>(shared, total).
    bindR (update (claim_local_handle pid TcpStream shared)) (\<lambda>_.
    bindR (update (claim_shared_resource pid TcpStream shared)) (\<lambda>_.
    bindR (update (claim_shared_resource pid SharedRegion shared)) (\<lambda>_.
    ready (SharedRegionOut shared total)))))))"

definition udp_bind_call ::
    "('st, 'rid, 'g, 'd) host \<Rightarrow> socket_outcome \<Rightarrow> u64 \<Rightarrow> string \<Rightarrow> ('st, 'rid, 'g, 'd) handler" where
  "udp_bind_call ho so pid address =
    bindR (socket_address ho address) (\<lambda>addr.
    bindR (check (\<lambda>r. require_with_uri (rt_auths r) pid Network UdpSocket None (''udp://'' @ addr))) (\<lambda>_.
    bindR (internal (udp_bind ho so)) (\<lambda>(shared, total).
    bindR (update (claim_local_handle pid UdpSocket shared)) (\<lambda>_.
    bindR (update (claim_shared_resource pid UdpSocket shared)) (\<lambda>_.
    bindR (update (claim_shared_resource pid SharedRegion shared)) (\<lambda>_.
    ready (SharedRegionOut shared total)))))))"

section \<open>Storage\<close>

definition owned_log_id ::
    "u64 \<Rightarrow> u64 \<Rightarrow> (('st, 'rid, 'g, 'd) runtime, abi_error_code, u64) comp" where
  "owned_log_id pid local =
    bindR (ensure_local_handle_owner pid DurableLog local) (\<lambda>_.
    kernel_call (check (\<lambda>r. log_shared_id (rt_storage r) local)))"

definition owned_store_id ::
    "u64 \<Rightarrow> u64 \<Rightarrow> (('st, 'rid, 'g, 'd) runtime, abi_error_code, u64) comp" where
  "owned_store_id pid local =
    bindR (ensure_local_handle_owner pid BlobStore local) (\<lambda>_.
    kernel_call (check (\<lambda>r. blob_store_shared_id (rt_storage r) local)))"

definition on_owned_log ::
    "u64 \<Rightarrow> u64 \<Rightarrow> ('st, 'rid, 'g, 'd) handler \<Rightarrow> ('st, 'rid, 'g, 'd) handler" where
  "on_owned_log pid local act =
    bindR (owned_log_id pid local) (\<lambda>shared.
    bindR (requireR pid Storage DurableLog (Some (SharedId shared))) (\<lambda>_. act))"

definition on_owned_store ::
    "u64 \<Rightarrow> u64 \<Rightarrow> ('st, 'rid, 'g, 'd) handler \<Rightarrow> ('st, 'rid, 'g, 'd) handler" where
  "on_owned_store pid local act =
    bindR (owned_store_id pid local) (\<lambda>shared.
    bindR (requireR pid Storage BlobStore (Some (SharedId shared))) (\<lambda>_. act))"

definition storage_open_log :: "u64 \<Rightarrow> string \<Rightarrow> ('st, 'rid, 'g, 'd) handler" where
  "storage_open_log pid name =
    bindR (requireR pid Storage DurableLog None) (\<lambda>_.
    bindR (\<lambda>r. case open_log (rt_memory r) (rt_storage r) name of
                 (desc, m, s) \<Rightarrow> (Ok desc, r\<lparr>rt_memory := m, rt_storage := s\<rparr>)) (\<lambda>desc.
    bindR (update (claim_local_handle pid DurableLog (sd_local desc))) (\<lambda>_.
    ready (DurableLogOut desc))))"

definition storage_log_close :: "u64 \<Rightarrow> u64 \<Rightarrow> ('st, 'rid, 'g, 'd) handler" where
  "storage_log_close pid local =
    bindR (ensure_local_handle_owner pid DurableLog local) (\<lambda>_.
    bindR (kernel_call (on_storage (close_log local))) (\<lambda>_.
    bindR (update (\<lambda>r. snd (release_local_handle pid DurableLog local r))) (\<lambda>_.
    ready EmptyOut)))"

definition storage_log_append ::
    "u64 \<Rightarrow> u64 \<Rightarrow> u64 \<Rightarrow> (string \<times> string) list \<Rightarrow> u8 list \<Rightarrow> ('st, 'rid, 'g, 'd) handler" where
  "storage_log_append pid local timestamp headers payload = on_owned_log pid local (
    bindR (gets (\<lambda>r. tenant_name r pid)) (\<lambda>tenant.
    bindR (enforce_quota tenant DurableLog (of_nat (length payload))) (\<lambda>_.
    bindR (kernel_call (on_storage (append_log local timestamp headers payload))) (\<lambda>sequence.
    bindR (update (note_storage_usage pid (of_nat (length payload)))) (\<lambda>_.
    ready (SequenceOut (Some sequence)))))))"

definition storage_log_replay ::
    "u64 \<Rightarrow> u64 \<Rightarrow> u64 option \<Rightarrow> u32 \<Rightarrow> ('st, 'rid, 'g, 'd) handler" where
  "storage_log_replay pid local first_sequence limit = on_owned_log pid local (
    bindR (kernel_call (check (\<lambda>r. replay_log local first_sequence (unat limit) (rt_storage r)))) (\<lambda>records.
    ready (StorageRecordsOut records)))"

definition storage_log_checkpoint :: "u64 \<Rightarrow> u64 \<Rightarrow> string \<Rightarrow> u64 \<Rightarrow> ('st, 'rid, 'g, 'd) handler" where
  "storage_log_checkpoint pid local name sequence = on_owned_log pid local (
    bindR (kernel_call (on_storage (checkpoint_log local name sequence))) (\<lambda>_. ready EmptyOut))"

definition storage_log_checkpoint_read :: "u64 \<Rightarrow> u64 \<Rightarrow> string \<Rightarrow> ('st, 'rid, 'g, 'd) handler" where
  "storage_log_checkpoint_read pid local name = on_owned_log pid local (
    bindR (kernel_call (check (\<lambda>r. checkpoint_sequence local name (rt_storage r)))) (\<lambda>sequence.
    ready (SequenceOut sequence)))"

definition storage_open_blob_store :: "u64 \<Rightarrow> string \<Rightarrow> ('st, 'rid, 'g, 'd) handler" where
  "storage_open_blob_store pid name =
    bindR (requireR pid Storage BlobStore None) (\<lambda>_.
    bindR (\<lambda>r. case open_blob_store (rt_memory r) (rt_storage r) name of
                 (desc, m, s) \<Rightarrow> (Ok desc, r\<lparr>rt_memory := m, rt_storage := s\<rparr>)) (\<lambda>desc.
    bindR (update (claim_local_handle pid BlobStore (sd_local desc))) (\<lambda>_.
    ready (BlobStoreOut desc))))"

definition storage_blob_store_close :: "u64 \<Rightarrow> u64 \<Rightarrow> ('st, 'rid, 'g, 'd) handler" where
  "storage_blob_store_close pid local =
    bindR (ensure_local_handle_owner pid BlobStore local) (\<lambda>_.
    bindR (kernel_call (on_storage (close_blob_store local))) (\<lambda>_.
    bindR (update (\<lambda>r. snd (release_local_handle pid BlobStore local r))) (\<lambda>_.
    ready EmptyOut)))"

definition storage_blob_put ::
    "('st, 'rid, 'g, 'd) host \<Rightarrow> u64 \<Rightarrow> u64 \<Rightarrow> u8 list \<Rightarrow> ('st, 'rid, 'g, 'd) handler" where
  "storage_blob_put ho pid local bytes = on_owned_store pid local (
    bindR (gets (\<lambda>r. tenant_name r pid)) (\<lambda>tenant.
    bindR (enforce_quota tenant BlobStore (of_nat (length bytes))) (\<lambda>_.
    bindR (kernel_call (on_storage (put_blob (ho_digest ho) local bytes))) (\<lambda>blob.
    bindR (update (note_storage_usage pid (of_nat (length bytes)))) (\<lambda>_.
    ready (BlobIdOut blob))))))"

definition storage_blob_get :: "u64 \<Rightarrow> u64 \<Rightarrow> string \<Rightarrow> ('st, 'rid, 'g, 'd) handler" where
  "storage_blob_get pid local blob = on_owned_store pid local (
    bindR (kernel_call (check (\<lambda>r. get_blob local blob (rt_storage r)))) (\<lambda>found.
    ready (case found of Some bytes \<Rightarrow> BytesOut bytes | None \<Rightarrow> EmptyOut)))"

definition storage_blob_set_manifest :: "u64 \<Rightarrow> u64 \<Rightarrow> string \<Rightarrow> string \<Rightarrow> ('st, 'rid, 'g, 'd) handler" where
  "storage_blob_set_manifest pid local name blob = on_owned_store pid local (
    bindR (kernel_call (on_storage (set_manifest local name blob))) (\<lambda>_. ready EmptyOut))"

definition storage_blob_get_manifest :: "u64 \<Rightarrow> u64 \<Rightarrow> string \<Rightarrow> ('st, 'rid, 'g, 'd) handler" where
  "storage_blob_get_manifest pid local name = on_owned_store pid local (
    bindR (kernel_call (check (\<lambda>r. get_manifest local name (rt_storage r)))) (\<lambda>found.
    ready (case found of Some blob \<Rightarrow> BlobIdOut blob | None \<Rightarrow> EmptyOut)))"

section \<open>Processes\<close>

definition charge_spawn :: "string option \<Rightarrow> (('st, 'rid, 'g, 'd) runtime, abi_error_code, unit) comp" where
  "charge_spawn tenant = (case tenant of None \<Rightarrow> ret () | Some t \<Rightarrow> enforce_quota t ProcessClass 1)"

definition refund_spawn ::
    "string option \<Rightarrow> ('st, 'rid, 'g, 'd) runtime \<Rightarrow> ('st, 'rid, 'g, 'd) runtime" where
  "refund_spawn tenant r = (case tenant of None \<Rightarrow> r | Some t \<Rightarrow> release_quota t ProcessClass 1 r)"

definition spawn_charged ::
    "('st, 'rid, 'g, 'd) host \<Rightarrow> u64 \<Rightarrow> string option \<Rightarrow> system_guest \<Rightarrow>
     (('st, 'rid, 'g, 'd) runtime, abi_error_code, u64) comp" where
  "spawn_charged ho minute tenant d r =
    (case spawn_system_guest ho minute d r of
       (Ok child, r') \<Rightarrow> (Ok child, r')
     | (Err _, r') \<Rightarrow> (Err Internal, refund_spawn tenant r'))"

definition adopt_child ::
    "u64 \<Rightarrow> u64 \<Rightarrow> string option \<Rightarrow> ('st, 'rid, 'g, 'd) runtime \<Rightarrow> ('st, 'rid, 'g, 'd) runtime" where
  "adopt_child pid child tenant r =
    (let r1 = (case tenant of None \<Rightarrow> r
               | Some t \<Rightarrow> r\<lparr>rt_quota_tenants := (rt_quota_tenants r)(child \<mapsto> t)\<rparr>)
     in claim_local_handle pid ProcessClass child (r1\<lparr>rt_auths :=
          (case map_of (rt_auths r1) child of
             None \<Rightarrow> rt_auths r1
           | Some a \<Rightarrow> AList.update child (a\<lparr>pa_parent := Some pid\<rparr>) (rt_auths r1))\<rparr>))"

definition process_start ::
    "('st, 'rid, 'g, 'd) host \<Rightarrow> u64 \<Rightarrow> u64 \<Rightarrow> string \<Rightarrow> string \<Rightarrow> u8 list list \<Rightarrow> capability_grant list \<Rightarrow>
     string option \<Rightarrow> ('st, 'rid, 'g, 'd) handler" where
  "process_start ho minute pid ident entry arguments grants requested =
    bindR (requireR pid ProcessLifecycle ProcessClass None) (\<lambda>_.
    bindR (check (\<lambda>r. resolve_spawn_tenant (rt_auths r) pid requested)) (\<lambda>tenant.
    bindR (check (\<lambda>r. validate_child_grants (rt_auths r) pid grants)) (\<lambda>_.
    bindR (map_err (\<lambda>_. NotFound) (check (\<lambda>r. module_bytes r ident))) (\<lambda>bytes.
    bindR (lift_result (ok_or (ho_arguments ho arguments) MalformedPayload)) (\<lambda>args.
    bindR (charge_spawn tenant) (\<lambda>_.
    bindR (spawn_charged ho minute tenant
             \<lparr>sg_name = ident, sg_module = ident, sg_bytes = bytes, sg_entrypoint = entry, sg_arguments = args,
              sg_grants = grants, sg_dependencies = [], sg_readiness = Immediate, sg_tenant = tenant,
              sg_role = None, sg_handlers = []\<rparr>) (\<lambda>child.
    bindR (update (adopt_child pid child tenant)) (\<lambda>_.
    bindR (kernel_call (check (\<lambda>r. inspect_process (rt_processes r) child))) (\<lambda>desc.
    ready (ProcessOut desc))))))))))"

definition process_stop ::
    "('st, 'rid, 'g, 'd) host \<Rightarrow> u64 \<Rightarrow> u64 \<Rightarrow> ('st, 'rid, 'g, 'd) handler" where
  "process_stop ho pid target =
    bindR (ensure_local_handle_owner pid ProcessClass target) (\<lambda>_.
    bindR (requireR pid ProcessLifecycle ProcessClass (Some (LocalId target))) (\<lambda>_.
    bindR (internal (stop_process ho target)) (\<lambda>_.
    ready EmptyOut)))"

definition activity_read :: "u64 \<Rightarrow> nat \<Rightarrow> ('st, 'rid, 'g, 'd) handler" where
  "activity_read pid cursor =
    bindR (requireR pid ActivityRead ActivityLog None) (\<lambda>_.
    bindR (gets (\<lambda>r. read_activity_from (rt_processes r) cursor)) (\<lambda>events.
    ready (ActivityEventsOut events)))"

definition metering_read :: "u64 \<Rightarrow> u64 \<Rightarrow> ('st, 'rid, 'g, 'd) handler" where
  "metering_read pid target =
    bindR (requireR pid MeteringRead MeteringStream (Some (LocalId target))) (\<lambda>_.
    bindR (gets (\<lambda>r. metering_of (rt_processes r) target)) (\<lambda>found.
    ready (case found of Some observation \<Rightarrow> MeteringOut observation | None \<Rightarrow> EmptyOut)))"

definition quota_set_call :: "u64 \<Rightarrow> string \<Rightarrow> resource_class \<Rightarrow> u64 \<Rightarrow> ('st, 'rid, 'g, 'd) handler" where
  "quota_set_call pid tenant class limit =
    bindR (check (\<lambda>r. require_capability (rt_auths r) pid QuotaWrite)) (\<lambda>_.
    bindR (update (\<lambda>r. r\<lparr>rt_quota := quota_set tenant class limit (rt_quota r)\<rparr>)) (\<lambda>_.
    ready EmptyOut))"

definition quota_clear_call :: "u64 \<Rightarrow> string \<Rightarrow> resource_class \<Rightarrow> ('st, 'rid, 'g, 'd) handler" where
  "quota_clear_call pid tenant class =
    bindR (check (\<lambda>r. require_capability (rt_auths r) pid QuotaWrite)) (\<lambda>_.
    bindR (update (\<lambda>r. r\<lparr>rt_quota := quota_clear tenant class (rt_quota r)\<rparr>)) (\<lambda>_.
    ready EmptyOut))"

section \<open>Logs of guests\<close>

definition authorise_guest_log_process ::
    "u64 \<Rightarrow> guest_log_entry \<Rightarrow> (('st, 'rid, 'g, 'd) runtime, abi_error_code, unit) comp" where
  "authorise_guest_log_process pid entry =
    (case gl_process entry of None \<Rightarrow> ret () | Some p \<Rightarrow> ensure_local_handle_owner pid ProcessClass p)"

definition guest_log_write :: "u64 \<Rightarrow> guest_log_entry \<Rightarrow> ('st, 'rid, 'g, 'd) handler" where
  "guest_log_write pid entry =
    bindR (if gl_process entry = Some pid then requireR pid GuestLogWrite GuestLog None
           else bindR (authorise_guest_log_process pid entry) (\<lambda>_.
             requireR pid GuestLogWrite GuestLog (map_option LocalId (gl_process entry)))) (\<lambda>_.
    bindR (update (\<lambda>r. r\<lparr>rt_processes := write_guest_log entry (rt_processes r)\<rparr>)) (\<lambda>_.
    ready EmptyOut))"

definition channel_entries ::
    "('st, 'rid, 'g, 'd) host \<Rightarrow> u64 \<Rightarrow> u8 list list \<Rightarrow> guest_log_entry list" where
  "channel_entries ho target frames = List.map_filter (\<lambda>f. map_option (\<lambda>(level, source, message).
     \<lparr>gl_process = Some target, gl_level = level, gl_target = source, gl_message = message\<rparr>)
     (ho_log_record ho f)) frames"

definition guest_log_read ::
    "('st, 'rid, 'g, 'd) host \<Rightarrow> u64 \<Rightarrow> nat \<Rightarrow> u64 option \<Rightarrow> ('st, 'rid, 'g, 'd) handler" where
  "guest_log_read ho pid cursor target =
    bindR (case target of None \<Rightarrow> ret () | Some t \<Rightarrow> ensure_local_handle_owner pid ProcessClass t) (\<lambda>_.
    bindR (requireR pid GuestLogRead GuestLog (map_option LocalId target)) (\<lambda>_.
    bindR (gets (\<lambda>r. filter (\<lambda>e. target = None \<or> gl_process e = target)
             (read_guest_logs_from (rt_processes r) cursor))) (\<lambda>logs.
    bindR (\<lambda>r. case target of
                 None \<Rightarrow> (Ok [], r)
               | Some t \<Rightarrow>
                   (case on_log_channels (drain_log_channel (ho_engine ho) t) r of
                      (Ok frames, r') \<Rightarrow> (Ok (channel_entries ho t frames), r')
                    | (Err _, r') \<Rightarrow> (Ok [], r'))) (\<lambda>drained.
    ready (GuestLogEntriesOut (logs @ drained))))))"

definition guest_log_register ::
    "('st, 'rid, 'g, 'd) host \<Rightarrow> u64 \<Rightarrow> u64 \<Rightarrow> ('st, 'rid, 'g, 'd) handler" where
  "guest_log_register ho pid shared =
    bindR (check (\<lambda>r. if owns_shared r pid SharedRegion shared then Ok () else Err DetachedResource)) (\<lambda>_.
    bindR (kernel_call (on_log_channels (register_log_channel (ho_engine ho) pid shared))) (\<lambda>_.
    ready EmptyOut))"

section \<open>Host queues\<close>

definition METADATA_MAX_BYTES :: nat where "METADATA_MAX_BYTES = 4096"

definition host_queue_create ::
    "('st, 'rid, 'g, 'd) host \<Rightarrow> u64 \<Rightarrow> string option \<Rightarrow> ('st, 'rid, 'g, 'd) handler" where
  "host_queue_create ho pid serving =
    bindR (requireR pid HostQueue HostQueueClass None) (\<lambda>_.
    bindR (check (\<lambda>r. authorize_serving_tenant (rt_auths r) pid serving)) (\<lambda>tenant.
    bindR (\<lambda>r. case create_host_queue (rt_memory r) (rt_queues r) of
                 (desc, m, q) \<Rightarrow> (Ok desc, r\<lparr>rt_memory := m, rt_queues := q\<rparr>)) (\<lambda>desc.
    bindR (update (claim_local_handle pid HostQueueClass (qd_local desc))) (\<lambda>_.
    bindR (update (claim_shared_resource pid HostQueueClass (qd_shared desc))) (\<lambda>_.
    bindR (register_resource ho pid tenant (queue_registration_uri tenant (qd_shared desc)) HostQueueClass
             (qd_shared desc)) (\<lambda>_.
    bindR (update (\<lambda>r. r\<lparr>rt_queue_tenants := AList.update (pid, qd_shared desc) tenant (rt_queue_tenants r)\<rparr>)) (\<lambda>_.
    ready (HostQueueOut desc))))))))"

definition host_queue_attach :: "u64 \<Rightarrow> u64 \<Rightarrow> ('st, 'rid, 'g, 'd) handler" where
  "host_queue_attach pid shared =
    bindR (check (\<lambda>r. if owns_shared r pid HostQueueClass shared \<or>
                        has_explicit_grant (rt_auths r) pid HostQueue shared \<or>
                        resolved_queue (rt_auths r) pid shared
                     then Ok () else Err PermissionDenied)) (\<lambda>_.
    bindR (kernel_call (\<lambda>r. case attach_host_queue (rt_memory r) (rt_queues r) shared of
                 (x, m, q) \<Rightarrow> (x, r\<lparr>rt_memory := m, rt_queues := q\<rparr>))) (\<lambda>desc.
    bindR (update (claim_local_handle pid HostQueueClass (qd_local desc))) (\<lambda>_.
    ready (HostQueueOut desc))))"

definition host_queue_send_call ::
    "('st, 'rid, 'g, 'd) host \<Rightarrow> u64 \<Rightarrow> u64 \<Rightarrow> u64 \<Rightarrow> u8 list \<Rightarrow> ('st, 'rid, 'g, 'd) handler" where
  "host_queue_send_call ho pid local v metadata =
    bindR (ensure_local_handle_owner pid HostQueueClass local) (\<lambda>_.
    bindR (ensure (length metadata \<le> METADATA_MAX_BYTES) MalformedPayload) (\<lambda>_.
    bindR (kernel_call (check (\<lambda>r. host_queue_shared_id (rt_queues r) local))) (\<lambda>shared.
    bindR (requireR pid HostQueue HostQueueClass (Some (SharedId shared))) (\<lambda>_.
    bindR (charge_queue_item shared) (\<lambda>_.
    bindR (kernel_call (on_queues (host_queue_send local (pid, v, metadata)))) (\<lambda>_.
    bindR (update (wake_host_queue_waiters ho shared)) (\<lambda>_.
    ready EmptyOut)))))))"

definition host_queue_recv_call ::
    "('st, 'rid, 'g, 'd) host \<Rightarrow> nat \<Rightarrow> u64 \<Rightarrow> u64 \<Rightarrow> ('st, 'rid, 'g, 'd) handler" where
  "host_queue_recv_call ho now pid local =
    bindR (ensure_local_handle_owner pid HostQueueClass local) (\<lambda>_.
    bindR (kernel_call (check (\<lambda>r. host_queue_shared_id (rt_queues r) local))) (\<lambda>shared.
    bindR (requireR pid HostQueue HostQueueClass (Some (SharedId shared))) (\<lambda>_.
    bindR (kernel_call (on_queues (try_host_queue_recv local))) (\<lambda>item.
    case item of
      Some (client, v, metadata) \<Rightarrow>
        bindR (update (release_queue_item shared)) (\<lambda>_.
        bindR (update (transfer_region_ownership_on_recv ho pid client v)) (\<lambda>_.
        ready (ConnectionInfoOut client v metadata)))
    | None \<Rightarrow> ret (HostQueueRecvWait local (now + 30 * 10 ^ 9))))))"

section \<open>Reports of discovery, identities and certificates\<close>

definition record_resolved_queue_for :: "u64 \<Rightarrow> u64 \<Rightarrow> u64 \<Rightarrow> ('st, 'rid, 'g, 'd) handler" where
  "record_resolved_queue_for pid client shared =
    bindR (discovery_only pid) (\<lambda>_.
    bindR (update (\<lambda>r. case map_of (rt_auths r) client of
             None \<Rightarrow> r
           | Some a \<Rightarrow> r\<lparr>rt_auths := AList.update client (a\<lparr>pa_queues := insert shared (pa_queues a)\<rparr>) (rt_auths r)\<rparr>)) (\<lambda>_.
    ready EmptyOut))"

definition record_resolved_region_for :: "u64 \<Rightarrow> u64 \<Rightarrow> u64 \<Rightarrow> ('st, 'rid, 'g, 'd) handler" where
  "record_resolved_region_for pid client shared =
    bindR (discovery_only pid) (\<lambda>_.
    bindR (update (\<lambda>r. case map_of (rt_auths r) client of
             None \<Rightarrow> r
           | Some a \<Rightarrow> r\<lparr>rt_auths := AList.update client (a\<lparr>pa_regions := insert shared (pa_regions a)\<rparr>) (rt_auths r)\<rparr>)) (\<lambda>_.
    ready EmptyOut))"

definition record_registration_call :: "u64 \<Rightarrow> u64 \<Rightarrow> string \<Rightarrow> ('st, 'rid, 'g, 'd) handler" where
  "record_registration_call pid registered uri =
    bindR (discovery_only pid) (\<lambda>_.
    bindR (update (record_registration registered uri)) (\<lambda>_.
    ready EmptyOut))"

definition process_capability :: "u64 \<Rightarrow> u64 \<Rightarrow> capability \<Rightarrow> ('st, 'rid, 'g, 'd) handler" where
  "process_capability pid target cap =
    bindR (discovery_only pid) (\<lambda>_.
    bindR (gets (\<lambda>r. authorises (rt_auths r) target cap default_context)) (\<lambda>held.
    ready (U64Out (if held then 1 else 0))))"

definition resolve_protocol_handler :: "string \<Rightarrow> ('st, 'rid, 'g, 'd) handler" where
  "resolve_protocol_handler scheme =
    bindR (gets (\<lambda>r. find (\<lambda>(_, schemes). scheme \<in> set schemes) (rt_handlers r))) (\<lambda>found.
    ready (case found of Some (p, _) \<Rightarrow> U64Out p | None \<Rightarrow> EmptyOut))"

definition on_keyring ::
    "(keyring, keyring_error, 'a) comp \<Rightarrow> (('st, 'rid, 'g, 'd) runtime, abi_error_code, 'a) comp" where
  "on_keyring c r =
    (case rt_keyring r of
       None \<Rightarrow> (Err Internal, r)
     | Some k \<Rightarrow>
         (case c k of
            (Err _, k') \<Rightarrow> (Err Internal, r\<lparr>rt_keyring := Some k'\<rparr>)
          | (Ok a, k') \<Rightarrow> (Ok a, r\<lparr>rt_keyring := Some k'\<rparr>)))"

definition mint_only :: "u64 \<Rightarrow> (('st, 'rid, 'g, 'd) runtime, abi_error_code, unit) comp" where
  "mint_only pid = check (\<lambda>r. require_capability (rt_auths r) pid MintCertificate)"

definition sign_tenant_ca_call ::
    "('st, 'rid, 'g, 'd) host \<Rightarrow> u8 list \<Rightarrow> u64 \<Rightarrow> string \<Rightarrow> ('st, 'rid, 'g, 'd) handler" where
  "sign_tenant_ca_call ho entropy pid tenant =
    bindR (mint_only pid) (\<lambda>_.
    bindR (on_keyring (sign_tenant_ca (ho_certs ho) entropy tenant)) (\<lambda>cert.
    ready (CertificateOut cert)))"

definition sign_user_cert_call ::
    "('st, 'rid, 'g, 'd) host \<Rightarrow> u64 \<Rightarrow> string \<Rightarrow> u8 list \<Rightarrow> ('st, 'rid, 'g, 'd) handler" where
  "sign_user_cert_call ho pid tenant spki =
    bindR (mint_only pid) (\<lambda>_.
    bindR (on_keyring (check (\<lambda>k. sign_user_cert (ho_certs ho) k tenant spki))) (\<lambda>cert.
    ready (CertificateOut cert)))"

definition revoke_ca_call :: "u64 \<Rightarrow> string \<Rightarrow> ('st, 'rid, 'g, 'd) handler" where
  "revoke_ca_call pid tenant =
    bindR (mint_only pid) (\<lambda>_.
    bindR (on_keyring (revoke_ca tenant)) (\<lambda>_.
    ready EmptyOut))"

section \<open>Entropy, waits and generations\<close>

definition random_bytes :: "host_inputs \<Rightarrow> u32 \<Rightarrow> ('st, 'rid, 'g, 'd) handler" where
  "random_bytes inp n =
    (if n > 4096 then fail MalformedPayload
     else case in_random inp (unat n) of
       None \<Rightarrow> fail Internal
     | Some bytes \<Rightarrow> ready (RandomBytesOut bytes))"

definition wait_register :: "u64 \<Rightarrow> u64 \<Rightarrow> ('st, 'rid, 'g, 'd) handler" where
  "wait_register pid region =
    bindR (check (\<lambda>r. if owns_or_attached_region r pid region then Ok () else Err PermissionDenied)) (\<lambda>_.
    ready EmptyOut)"

definition generation_advance :: "u64 \<Rightarrow> u64 \<Rightarrow> u64 \<Rightarrow> ('st, 'rid, 'g, 'd) handler" where
  "generation_advance pid region generation =
    bindR (check (\<lambda>r. if owns_or_attached_region r pid region then Ok () else Err PermissionDenied)) (\<lambda>_.
    bindR (update (note_generation_advance region generation)) (\<lambda>_.
    ready EmptyOut))"

section \<open>Dispatch\<close>

fun handle_hostcall ::
    "('st, 'rid, 'g, 'd) host \<Rightarrow> host_inputs \<Rightarrow> u64 \<Rightarrow> hostcall_request \<Rightarrow> ('st, 'rid, 'g, 'd) handler" where
  "handle_hostcall ho inp pid (AllocRegion pages _ _ serving) = alloc_region ho pid pages serving"
| "handle_hostcall ho inp pid (FreeRegion region) = free_region ho pid region"
| "handle_hostcall ho inp pid (AttachRegion region slot prot) =
    attach_region ho (in_attach inp) pid region slot prot"
| "handle_hostcall ho inp pid (TcpBind address) = tcp_bind_call ho (in_sockets inp) pid address"
| "handle_hostcall ho inp pid (TcpConnect address) = tcp_connect_call ho (in_sockets inp) pid address"
| "handle_hostcall ho inp pid (UdpBind address) = udp_bind_call ho (in_sockets inp) pid address"
| "handle_hostcall ho inp pid (StorageOpenLog name) = storage_open_log pid name"
| "handle_hostcall ho inp pid (StorageLogClose local) = storage_log_close pid local"
| "handle_hostcall ho inp pid (StorageLogAppend local ts headers payload) =
    storage_log_append pid local ts headers payload"
| "handle_hostcall ho inp pid (StorageLogReplay local sequence limit) = storage_log_replay pid local sequence limit"
| "handle_hostcall ho inp pid (StorageLogCheckpoint local name sequence) =
    storage_log_checkpoint pid local name sequence"
| "handle_hostcall ho inp pid (StorageLogCheckpointRead local name) = storage_log_checkpoint_read pid local name"
| "handle_hostcall ho inp pid (StorageOpenBlobStore name) = storage_open_blob_store pid name"
| "handle_hostcall ho inp pid (StorageBlobStoreClose local) = storage_blob_store_close pid local"
| "handle_hostcall ho inp pid (StorageBlobPut local bytes) = storage_blob_put ho pid local bytes"
| "handle_hostcall ho inp pid (StorageBlobGet local blob) = storage_blob_get pid local blob"
| "handle_hostcall ho inp pid (StorageBlobSetManifest local name blob) = storage_blob_set_manifest pid local name blob"
| "handle_hostcall ho inp pid (StorageBlobGetManifest local name) = storage_blob_get_manifest pid local name"
| "handle_hostcall ho inp pid (ProcessStart ident entry arguments grants tenant) =
    process_start ho (in_minute inp) pid ident entry arguments grants tenant"
| "handle_hostcall ho inp pid (ProcessStop target) = process_stop ho pid target"
| "handle_hostcall ho inp pid (ActivityReadCall cursor) = activity_read pid cursor"
| "handle_hostcall ho inp pid (MeteringReadCall target) = metering_read pid target"
| "handle_hostcall ho inp pid (QuotaSet tenant class limit) = quota_set_call pid tenant class limit"
| "handle_hostcall ho inp pid (QuotaClear tenant class) = quota_clear_call pid tenant class"
| "handle_hostcall ho inp pid (GuestLogWriteCall entry) = guest_log_write pid entry"
| "handle_hostcall ho inp pid (HostQueueCreate serving) = host_queue_create ho pid serving"
| "handle_hostcall ho inp pid (HostQueueAttach shared) = host_queue_attach pid shared"
| "handle_hostcall ho inp pid (RandomBytes n) = random_bytes inp n"
| "handle_hostcall ho inp pid (RecordResolvedQueueFor client shared) = record_resolved_queue_for pid client shared"
| "handle_hostcall ho inp pid (RecordResolvedRegionFor client shared) = record_resolved_region_for pid client shared"
| "handle_hostcall ho inp pid (SignTenantCa tenant) = sign_tenant_ca_call ho (in_key inp) pid tenant"
| "handle_hostcall ho inp pid (SignUserCert tenant spki) = sign_user_cert_call ho pid tenant spki"
| "handle_hostcall ho inp pid (RevokeCa tenant) = revoke_ca_call pid tenant"
| "handle_hostcall ho inp pid (RecordRegistration registered uri) = record_registration_call pid registered uri"
| "handle_hostcall ho inp pid SelfInfo =
    bindR (gets (\<lambda>r. process_tenant (rt_auths r) pid)) (\<lambda>tenant. ready (SelfInfoOut pid tenant))"
| "handle_hostcall ho inp pid (ProcessTenant target) =
    bindR (gets (\<lambda>r. process_tenant (rt_auths r) target)) (\<lambda>tenant. ready (TenantOut tenant))"
| "handle_hostcall ho inp pid (ProcessCapability target cap) = process_capability pid target cap"
| "handle_hostcall ho inp pid (ResolveProtocolHandler scheme) = resolve_protocol_handler scheme"
| "handle_hostcall ho inp pid (HostQueueSend local v metadata) = host_queue_send_call ho pid local v metadata"
| "handle_hostcall ho inp pid (HostQueueRecv local) = host_queue_recv_call ho (in_now inp) pid local"
| "handle_hostcall ho inp pid (GuestLogReadCall cursor target) = guest_log_read ho pid cursor target"
| "handle_hostcall ho inp pid TimeNow = ready (U64Out (in_wall inp))"
| "handle_hostcall ho inp pid TimeMonotonic = ready (U64Out (in_monotonic inp))"
| "handle_hostcall ho inp pid (Sleep millis) = ret (SleepWait (in_now inp + unat millis * 10 ^ 6))"
| "handle_hostcall ho inp pid (GuestLogRegister shared) = guest_log_register ho pid shared"
| "handle_hostcall ho inp pid (WaitRegister region _) = wait_register pid region"
| "handle_hostcall ho inp pid (GenerationAdvance region generation) = generation_advance pid region generation"

definition dispatch_hostcall ::
    "('st, 'rid, 'g, 'd) host \<Rightarrow> host_inputs \<Rightarrow> u64 \<Rightarrow> hostcall_request \<Rightarrow> ('st, 'rid, 'g, 'd) handler" where
  "dispatch_hostcall ho inp pid request =
    bindR (check (\<lambda>r. if map_of (rt_auths r) pid = None then Err InvalidHandle else Ok ())) (\<lambda>_.
    handle_hostcall ho inp pid request)"

section \<open>Operations: begin, poll, drop\<close>

definition HOSTCALL_STATUS_READY :: u32 where "HOSTCALL_STATUS_READY = 0"
definition HOSTCALL_STATUS_PENDING :: u32 where "HOSTCALL_STATUS_PENDING = 1"
definition HOSTCALL_STATUS_FAILED :: u32 where "HOSTCALL_STATUS_FAILED = 2"

fun initial_status :: "host_operation_state \<Rightarrow> u32" where
  "initial_status (ReadyState _) = HOSTCALL_STATUS_READY"
| "initial_status (FailedState _) = HOSTCALL_STATUS_FAILED"
| "initial_status (HostQueueRecvWait _ _) = HOSTCALL_STATUS_PENDING"
| "initial_status (SleepWait _) = HOSTCALL_STATUS_PENDING"

definition dispatched ::
    "('st, 'rid, 'g, 'd) host \<Rightarrow> host_inputs \<Rightarrow> u64 \<Rightarrow> hostcall_request \<Rightarrow> ('st, 'rid, 'g, 'd) runtime \<Rightarrow>
     host_operation_state \<times> ('st, 'rid, 'g, 'd) runtime" where
  "dispatched ho inp pid request r =
    (case dispatch_hostcall ho inp pid request r of
       (Ok st, r') \<Rightarrow> (st, r')
     | (Err e, r') \<Rightarrow> (FailedState e, r'))"

definition park_wait ::
    "u64 \<Rightarrow> hostcall_request \<Rightarrow> u32 option \<Rightarrow> host_operation_state \<Rightarrow>
     ('st, 'rid, 'g, 'd) runtime \<Rightarrow> ('st, 'rid, 'g, 'd) runtime" where
  "park_wait pid request task st r =
    (case (st, task, request) of
       (ReadyState _, Some t, WaitRegister region generation) \<Rightarrow> register_wait pid t region generation r
     | _ \<Rightarrow> r)"

text \<open>Beginning a hostcall is \<open>None\<close> where the code panics or loops: no operation id is left.\<close>

definition begin_hostcall_with_task ::
    "('st, 'rid, 'g, 'd) host \<Rightarrow> host_inputs \<Rightarrow> u64 \<Rightarrow> hostcall_request \<Rightarrow> u32 option \<Rightarrow>
     ('st, 'rid, 'g, 'd) runtime \<Rightarrow> ((u32 \<times> u64) \<times> ('st, 'rid, 'g, 'd) runtime) option" where
  "begin_hostcall_with_task ho inp pid request task r =
    (case dispatched ho inp pid request r of
       (st, r1) \<Rightarrow>
         let r2 = park_wait pid request task st r1
         in (case next_operation_id r2 of
              Some (Allocated ident succ) \<Rightarrow>
                Some ((initial_status st, ident),
                  r2\<lparr>rt_next_op := succ,
                     rt_ops := AList.update ident \<lparr>op_process = pid, op_task = task, op_state = st\<rparr> (rt_ops r2)\<rparr>)
            | _ \<Rightarrow> None))"

definition set_operation ::
    "u64 \<Rightarrow> host_operation_state \<Rightarrow> ('st, 'rid, 'g, 'd) runtime \<Rightarrow> ('st, 'rid, 'g, 'd) runtime" where
  "set_operation ident st r =
    (case map_of (rt_ops r) ident of
       None \<Rightarrow> r
     | Some op \<Rightarrow> r\<lparr>rt_ops := AList.update ident (op\<lparr>op_state := st\<rparr>) (rt_ops r)\<rparr>)"

text \<open>The timer of a sleep, when its deadline arrives.\<close>

definition fire_timer ::
    "u64 \<Rightarrow> u32 \<Rightarrow> u64 \<Rightarrow> ('st, 'rid, 'g, 'd) runtime \<Rightarrow> ('st, 'rid, 'g, 'd) runtime" where
  "fire_timer pid task ident r = wake_process_task pid task (set_operation ident (ReadyState EmptyOut) r)"

datatype completion_state = CompletedReady hostcall_output | CompletedPending u64 | CompletedFailed abi_error_code

definition deliver_item ::
    "('st, 'rid, 'g, 'd) host \<Rightarrow> u64 \<Rightarrow> u64 \<Rightarrow> u64 \<times> u64 \<times> u8 list \<Rightarrow>
     ('st, 'rid, 'g, 'd) runtime \<Rightarrow> ('st, 'rid, 'g, 'd) runtime" where
  "deliver_item ho pid local item r =
    (case item of (client, v, _) \<Rightarrow>
       let shared = (case host_queue_shared_id (rt_queues r) local of Ok s \<Rightarrow> s | Err _ \<Rightarrow> 0);
           r1 = transfer_region_ownership_on_recv ho pid client v (release_queue_item shared r)
       in if client = 0 then claim_shared_resource pid SharedRegion v r1 else r1)"

definition poll_receive ::
    "('st, 'rid, 'g, 'd) host \<Rightarrow> nat \<Rightarrow> u64 \<Rightarrow> u64 \<Rightarrow> u64 \<Rightarrow> nat \<Rightarrow>
     ('st, 'rid, 'g, 'd) runtime \<Rightarrow> completion_state \<times> ('st, 'rid, 'g, 'd) runtime" where
  "poll_receive ho now pid ident local deadline r =
    (case on_queues (try_host_queue_recv local) r of
       (Ok (Some (client, v, metadata)), r1) \<Rightarrow>
         let out = ConnectionInfoOut client v metadata
         in (CompletedReady out,
             set_operation ident (ReadyState out) (deliver_item ho pid local (client, v, metadata) r1))
     | (Ok None, r1) \<Rightarrow>
         if deadline \<le> now then (CompletedFailed Timeout, set_operation ident (FailedState Timeout) r1)
         else (CompletedPending ident, r1)
     | (Err e, r1) \<Rightarrow> (CompletedFailed (kernel_code e), r1))"

definition poll_hostcall ::
    "('st, 'rid, 'g, 'd) host \<Rightarrow> nat \<Rightarrow> u64 \<Rightarrow> u64 \<Rightarrow>
     ('st, 'rid, 'g, 'd) runtime \<Rightarrow> completion_state \<times> ('st, 'rid, 'g, 'd) runtime" where
  "poll_hostcall ho now pid ident r =
    (case map_of (rt_ops r) ident of
       None \<Rightarrow> (CompletedFailed InvalidHandle, r)
     | Some op \<Rightarrow>
         if op_process op \<noteq> pid then (CompletedFailed PermissionDenied, r)
         else (case op_state op of
             ReadyState out \<Rightarrow> (CompletedReady out, r)
           | FailedState e \<Rightarrow> (CompletedFailed e, r)
           | HostQueueRecvWait local deadline \<Rightarrow> poll_receive ho now (op_process op) ident local deadline r
           | SleepWait deadline \<Rightarrow>
               if deadline \<le> now
               then (CompletedReady EmptyOut, set_operation ident (ReadyState EmptyOut) r)
               else (CompletedPending ident, r)))"

definition drop_hostcall ::
    "u64 \<Rightarrow> u64 \<Rightarrow> ('st, 'rid, 'g, 'd) runtime \<Rightarrow> bool \<times> ('st, 'rid, 'g, 'd) runtime" where
  "drop_hostcall pid ident r =
    (case map_of (rt_ops r) ident of
       None \<Rightarrow> (False, r)
     | Some op \<Rightarrow>
         if op_process op = pid then (True, r\<lparr>rt_ops := AList.delete ident (rt_ops r)\<rparr>) else (False, r))"

end
