(* ===== verification/Runtime_Frame.thy ===== *)
theory Runtime_Frame
  imports Hostcalls
begin

text \<open>
  A small calculus for the effects of computations, used to follow one aspect of the state through the
  whole dispatcher: \<open>keeps f c\<close> says that \<open>c\<close> never changes the observation \<open>f\<close>, and \<open>denies P c\<close>
  that \<open>c\<close> fails without an effect in every state that satisfies \<open>P\<close>.  The rules follow the
  combinators that the handlers of \<^verbatim>\<open>crates/runtime/src/hostcall.rs\<close> are written with.
\<close>

named_theorems keep_rules \<open>computations that leave an observation alone\<close>
named_theorems deny_rules \<open>computations that fail without an effect\<close>

definition keeps :: "('s \<Rightarrow> 'b) \<Rightarrow> ('s, 'e, 'a) comp \<Rightarrow> bool" where
  "keeps f c \<longleftrightarrow> (\<forall>s. f (snd (c s)) = f s)"

definition denies :: "('s \<Rightarrow> bool) \<Rightarrow> ('s, 'e, 'a) comp \<Rightarrow> bool" where
  "denies P c \<longleftrightarrow> (\<forall>s. P s \<longrightarrow> (\<exists>e. c s = (Err e, s)))"

section \<open>Rules for the combinators\<close>

lemma keepsD: "keeps f c \<Longrightarrow> f (snd (c s)) = f s"
  by (simp add: keeps_def)

lemma keeps_run: "keeps f c \<Longrightarrow> c s = (x, t) \<Longrightarrow> f t = f s"
  by (metis keepsD snd_conv)

lemma bind_Ok_iff: "bindR m k s = (Ok b, t) \<longleftrightarrow> (\<exists>a s'. m s = (Ok a, s') \<and> k a s' = (Ok b, t))"
  by (auto simp: bindR_def split: prod.split sum.split)

lemma keeps_basic [keep_rules]:
  "keeps f (ret a)" "keeps f (fail e)" "keeps f (lift_result x)" "keeps f (gets g)" "keeps f (check h)"
  "keeps f (ensure b e)"
  by (simp_all add: keeps_def)

lemma keeps_update [keep_rules]: "(\<And>s. f (g s) = f s) \<Longrightarrow> keeps f (update g)"
  by (simp add: keeps_def)

lemma keeps_bind [keep_rules]: "keeps f m \<Longrightarrow> (\<And>a. keeps f (k a)) \<Longrightarrow> keeps f (bindR m k)"
  by (auto simp: keeps_def bindR_def split: prod.split sum.split) (metis snd_conv)+

lemma keeps_map_err [keep_rules]: "keeps f m \<Longrightarrow> keeps f (map_err g m)"
  by (auto simp: keeps_def map_err_def split: prod.split sum.split) (metis snd_conv)+

lemma keeps_internal [keep_rules]: "keeps f m \<Longrightarrow> keeps f (internal m)"
  by (simp add: internal_def keep_rules)

lemma keeps_through [keep_rules]: "(\<And>t s. f (put t s) = f s) \<Longrightarrow> keeps f (through get put c)"
  by (simp add: keeps_def)

lemma keeps_for_each [keep_rules]: "(\<And>x a. keeps f (c x a)) \<Longrightarrow> keeps f (for_each c xs a)"
  by (induction xs arbitrary: a) (simp_all add: keep_rules)

lemma keeps_if [keep_rules]: "(b \<Longrightarrow> keeps f c) \<Longrightarrow> (\<not> b \<Longrightarrow> keeps f d) \<Longrightarrow> keeps f (if b then c else d)"
  by simp

lemma keeps_option [keep_rules]:
  "(x = None \<Longrightarrow> keeps f c) \<Longrightarrow> (\<And>a. x = Some a \<Longrightarrow> keeps f (d a)) \<Longrightarrow> keeps f (case x of None \<Rightarrow> c | Some a \<Rightarrow> d a)"
  by (cases x) auto

lemma keeps_prod [keep_rules]: "(\<And>a b. keeps f (c a b)) \<Longrightarrow> keeps f (case p of (a, b) \<Rightarrow> c a b)"
  by (cases p) auto

lemma keeps_let [keep_rules]: "keeps f (c x) \<Longrightarrow> keeps f (let y = x in c y)"
  by simp

lemma denies_check [deny_rules]: "(\<And>s. P s \<Longrightarrow> \<exists>e. h s = Err e) \<Longrightarrow> denies P (check h)"
  by (simp add: denies_def)

lemma denies_first: "denies P m \<Longrightarrow> denies P (bindR m k)"
  by (fastforce simp: denies_def bindR_def)

lemma denies_later: "keeps id m \<Longrightarrow> (\<And>a. denies P (k a)) \<Longrightarrow> denies P (bindR m k)"
  by (auto simp: denies_def keeps_def bindR_def split: prod.split sum.split) (metis snd_conv)+

lemma denies_map_err [deny_rules]: "denies P m \<Longrightarrow> denies P (map_err g m)"
  by (fastforce simp: denies_def map_err_def)

lemma deniesD: "denies P c \<Longrightarrow> P s \<Longrightarrow> \<exists>e. c s = (Err e, s)"
  by (simp add: denies_def)

end
