(* ===== verification/Runtime_Sample.thy ===== *)
theory Runtime_Sample
  imports Hostcalls
begin

text \<open>
  A small concrete runtime, on which the hypotheses of the theorems about the runtime hold: a tenant's
  process 5 that may start processes and use host queues, and a listener queue with a connection that
  the kernel has queued.  The host runs every guest without a hostcall and without an error.
\<close>

definition sample_authority :: process_authority where
  "sample_authority =
    \<lparr>pa_grants = [\<lparr>cg_capability = ProcessLifecycle, cg_selectors = []\<rparr>,
                  \<lparr>cg_capability = HostQueue, cg_selectors = []\<rparr>],
     pa_tenant = Some ''acme'', pa_parent = None, pa_queues = {}, pa_regions = {}\<rparr>"

definition sample_runtime :: "(sample_store, nat, nat, unit) runtime" where
  "sample_runtime = (runtime_new sample_registry (pt_new 42))\<lparr>rt_auths := [(5, sample_authority)],
     rt_local_owners := [((HostQueueClass, 1), {5})],
     rt_modules := (\<lambda>_. None)(''discovery'' \<mapsto> []),
     rt_queues := \<lparr>hq_queues = (\<lambda>_. None)(9 \<mapsto> [(0, 77, [])]), hq_local = (\<lambda>_. None)(1 \<mapsto> 9)\<rparr>\<rparr>"

definition sample_certificates :: certificates where
  "sample_certificates =
    \<lparr>ce_validate = (\<lambda>_. Ok ()), ce_mint_ca = (\<lambda>_ entropy _. Ok \<lparr>km_cert = entropy, km_key = entropy\<rparr>),
     ce_sign_leaf = (\<lambda>_ _ spki. Ok spki)\<rparr>"

definition sample_host :: "(sample_store, nat, nat, unit) host" where
  "sample_host =
    \<lparr>ho_engine = sample_engine, ho_publish = (\<lambda>_ d. (Ok (), d)), ho_digest = (\<lambda>bs. take 32 bs),
     ho_certs = sample_certificates, ho_attach = (\<lambda>_ _ _ g. (Ok 0, g)), ho_registry = True,
     ho_detach = (\<lambda>_ g. g), ho_stats = (\<lambda>_. None), ho_budget = (\<lambda>_ g. g), ho_start_workers = Ok,
     ho_socket_addr = Some, ho_arguments = (\<lambda>_. Some []), ho_log_record = (\<lambda>_. None),
     ho_load = (\<lambda>_ _ r. (Ok 0, r)), ho_run = (\<lambda>_ _ g r. (Ok (g, False), r))\<rparr>"

definition sample_inputs :: host_inputs where
  "sample_inputs = \<lparr>in_now = 0, in_wall = 0, in_monotonic = 0, in_minute = 0, in_random = (\<lambda>_. None), in_key = [],
     in_sockets = \<lparr>so_open = True, so_clone = True, so_register = True\<rparr>, in_attach = None\<rparr>"

end
