(* ===== verification/Mediation.thy ===== *)
theory Mediation
  imports Runtime_Frame Runtime_Sample
begin

text \<open>
  Authority over the whole dispatcher of \<^verbatim>\<open>crates/runtime/src/hostcall.rs\<close>: which capability each request
  needs, that a request without it has no effect, and which requests can change what processes may do.
\<close>

section \<open>The capability a request needs\<close>

fun guarded_by :: "hostcall_request \<Rightarrow> capability option" where
  "guarded_by (AllocRegion _ _ _ _) = Some SharedMemory"
| "guarded_by (AttachRegion _ _ _) = Some SharedMemory"
| "guarded_by (TcpBind _) = Some Network"
| "guarded_by (TcpConnect _) = Some Network"
| "guarded_by (UdpBind _) = Some Network"
| "guarded_by (StorageOpenLog _) = Some Storage"
| "guarded_by (StorageLogAppend _ _ _ _) = Some Storage"
| "guarded_by (StorageLogReplay _ _ _) = Some Storage"
| "guarded_by (StorageLogCheckpoint _ _ _) = Some Storage"
| "guarded_by (StorageLogCheckpointRead _ _) = Some Storage"
| "guarded_by (StorageOpenBlobStore _) = Some Storage"
| "guarded_by (StorageBlobPut _ _) = Some Storage"
| "guarded_by (StorageBlobGet _ _) = Some Storage"
| "guarded_by (StorageBlobSetManifest _ _ _) = Some Storage"
| "guarded_by (StorageBlobGetManifest _ _) = Some Storage"
| "guarded_by (ProcessStart _ _ _ _ _) = Some ProcessLifecycle"
| "guarded_by (ProcessStop _) = Some ProcessLifecycle"
| "guarded_by (ActivityReadCall _) = Some ActivityRead"
| "guarded_by (MeteringReadCall _) = Some MeteringRead"
| "guarded_by (QuotaSet _ _ _) = Some QuotaWrite"
| "guarded_by (QuotaClear _ _) = Some QuotaWrite"
| "guarded_by (GuestLogWriteCall _) = Some GuestLogWrite"
| "guarded_by (GuestLogReadCall _ _) = Some GuestLogRead"
| "guarded_by (HostQueueCreate _) = Some HostQueue"
| "guarded_by (HostQueueSend _ _ _) = Some HostQueue"
| "guarded_by (HostQueueRecv _) = Some HostQueue"
| "guarded_by (SignTenantCa _) = Some MintCertificate"
| "guarded_by (SignUserCert _ _) = Some MintCertificate"
| "guarded_by (RevokeCa _) = Some MintCertificate"
| "guarded_by _ = None"

definition lacks :: "u64 \<Rightarrow> capability \<Rightarrow> ('st, 'rid, 'g, 'd) runtime \<Rightarrow> bool" where
  "lacks pid cap r \<longleftrightarrow> (\<forall>c. \<not> authorises (rt_auths r) pid cap c)"

lemma denies_requirement [deny_rules]:
  "denies (lacks pid cap) (requireR pid cap class ident)"
  "denies (lacks pid cap) (check (\<lambda>r. require_capability (rt_auths r) pid cap))"
  "denies (lacks pid cap) (check (\<lambda>r. require_with_uri (rt_auths r) pid cap class ident uri))"
  by (auto simp: denies_def lacks_def requireR_def require_def require_capability_def require_with_uri_def)

lemmas guard_steps = ensure_local_handle_owner_def ensure_shared_resource_owner_def socket_address_def
  authorise_guest_log_process_def owned_log_id_def owned_store_id_def

lemma pure_guards [keep_rules]:
  "keeps id (ensure_local_handle_owner pid class local)" "keeps id (socket_address ho address)"
  "keeps id (requireR pid cap class ident)" "keeps id (owned_log_id pid local)" "keeps id (owned_store_id pid local)"
  "keeps id (authorise_guest_log_process pid entry)"
  by (auto simp: guard_steps requireR_def intro!: keep_rules)

lemma denies_owned [deny_rules]:
  "denies (lacks pid Storage) (on_owned_log pid local act)"
  "denies (lacks pid Storage) (on_owned_store pid local act)"
  unfolding on_owned_log_def on_owned_store_def
  by (rule denies_later [OF pure_guards(4) denies_first [OF denies_requirement(1)]],
      rule denies_later [OF pure_guards(5) denies_first [OF denies_requirement(1)]])

lemmas guarded_handlers = alloc_region_def attach_region_def tcp_bind_call_def tcp_connect_call_def
  udp_bind_call_def storage_open_log_def storage_log_append_def storage_log_replay_def
  storage_log_checkpoint_def storage_log_checkpoint_read_def storage_open_blob_store_def
  storage_blob_put_def storage_blob_get_def storage_blob_set_manifest_def storage_blob_get_manifest_def
  process_start_def activity_read_def metering_read_def quota_set_call_def quota_clear_call_def
  host_queue_create_def sign_tenant_ca_call_def sign_user_cert_call_def revoke_ca_call_def mint_only_def

lemma denies_late_guards:
  "denies (lacks pid ProcessLifecycle) (process_stop ho pid target)"
  "denies (lacks pid GuestLogWrite) (guest_log_write pid entry)"
  "denies (lacks pid GuestLogRead) (guest_log_read ho pid cursor t)"
  "denies (lacks pid HostQueue) (host_queue_send_call ho pid local v metadata)"
  "denies (lacks pid HostQueue) (host_queue_recv_call ho now pid local)"
proof -
  have own: "denies (lacks pid GuestLogWrite)
      (if gl_process entry = Some pid then requireR pid GuestLogWrite GuestLog None
       else bindR (authorise_guest_log_process pid entry) (\<lambda>_.
         requireR pid GuestLogWrite GuestLog (map_option LocalId (gl_process entry))))"
    by (auto intro!: denies_later deny_rules keep_rules)
  show "denies (lacks pid GuestLogWrite) (guest_log_write pid entry)"
    unfolding guest_log_write_def by (rule denies_first [OF own])
qed (unfold process_stop_def guest_log_read_def host_queue_send_call_def host_queue_recv_call_def,
     (rule denies_later denies_first [OF denies_requirement(1)] keep_rules | assumption)+)

section \<open>Requests without their capability\<close>

lemma denies_handler:
  assumes "guarded_by request = Some cap"
  shows "denies (lacks pid cap) (handle_hostcall ho inp pid request)"
  using assms
  by (cases request)
     (auto simp: guarded_handlers intro!: denies_late_guards denies_owned denies_first [OF denies_requirement(1)]
        denies_first [OF denies_requirement(2)]
        denies_later [OF pure_guards(2) denies_first [OF denies_requirement(3)]])

text \<open>C5. Every guarded request is mediated completely.  A process that holds no grant under which the
  capability of its request is authorised, in whatever scope, gets an error, and the runtime is left
  exactly as it was: no quota is charged, no identifier drawn, nothing published, no guest run.\<close>

theorem unauthorised_request_has_no_effect:
  assumes "guarded_by request = Some cap" "\<forall>c. \<not> authorises (rt_auths r) pid cap c"
  shows "\<exists>e. dispatch_hostcall ho inp pid request r = (Err e, r)"
proof -
  have "denies (lacks pid cap) (dispatch_hostcall ho inp pid request)"
    unfolding dispatch_hostcall_def
    by (rule denies_later [OF keeps_basic(5) denies_handler [OF assms(1)]])
  then show ?thesis using assms(2) by (simp add: deniesD lacks_def)
qed

theorem unauthorised_request_has_no_effect_witness:
  "\<exists>e. dispatch_hostcall sample_host sample_inputs 5 (QuotaSet ''acme'' HostQueueClass 0) sample_runtime =
    (Err e, sample_runtime)"
proof (rule unauthorised_request_has_no_effect)
  show "\<forall>c. \<not> authorises (rt_auths sample_runtime) 5 QuotaWrite c"
    by (simp add: authorises_def sample_runtime_def sample_authority_def)
qed simp

section \<open>What changes authority\<close>

lemma component_auths [keep_rules]:
  "keeps rt_auths (on_memory c1)" "keeps rt_auths (on_queues c2)" "keeps rt_auths (on_storage c3)"
  "keeps rt_auths (on_quota c4)" "keeps rt_auths (on_log_channels c5)"
  by (auto simp: on_memory_def on_queues_def on_storage_def on_quota_def on_log_channels_def intro!: keep_rules
      split: prod.split)

lemma bookkeeping_auths [simp]:
  "rt_auths (claim_local_handle pid class i r) = rt_auths r"
  "rt_auths (claim_shared_resource pid class i r) = rt_auths r"
  "rt_auths (snd (release_local_handle pid class i r)) = rt_auths r"
  "rt_auths (snd (release_shared_resource pid class i r)) = rt_auths r"
  "rt_auths (record_region_attachment pid i r) = rt_auths r"
  "rt_auths (record_fast_path_attachment i pid b r) = rt_auths r"
  "rt_auths (clear_fast_path_attachments i r) = rt_auths r"
  "rt_auths (release_quota tenant class n r) = rt_auths r"
  "rt_auths (register_queue_waiter i pid r) = rt_auths r"
  "rt_auths (note_storage_usage pid bytes r) = rt_auths r"
  "rt_auths (record_registration pid uri r) = rt_auths r"
  "rt_auths (wake_process_task pid t r) = rt_auths r"
  "rt_auths (cancel_waits_for_task pid t r) = rt_auths r"
  by (simp_all add: claim_local_handle_def claim_shared_resource_def release_local_handle_def
      release_shared_resource_def record_region_attachment_def record_fast_path_attachment_def
      clear_fast_path_attachments_def release_quota_def register_queue_waiter_def note_storage_usage_def
      record_registration_def wake_process_task_def cancel_waits_for_task_def Let_def split: prod.split)

lemma release_queue_item_auths [simp]: "rt_auths (release_queue_item q r) = rt_auths r"
  by (simp add: release_queue_item_def split: option.split)

lemma move_reservation_auths [simp]: "rt_auths (move_reservation ho a b i r) = rt_auths r"
  by (simp add: move_reservation_def split: sum.split)

lemma transfer_auths [simp]: "rt_auths (transfer_region_ownership_on_recv ho p q v r) = rt_auths r"
  by (simp add: transfer_region_ownership_on_recv_def Let_def split: option.split)

lemma wake_once_auths [simp]: "rt_auths (wake_once seen ws r) = rt_auths r"
  by (induction seen ws r rule: wake_once.induct) simp_all

lemma note_generation_auths [simp]: "rt_auths (note_generation_advance i n r) = rt_auths r"
  by (simp add: note_generation_advance_def)

lemma wake_each_auths: "wake_each_waiter ho q ops r = (ops', ws, r') \<Longrightarrow> rt_auths r' = rt_auths r"
proof (induction ops arbitrary: ops' ws r r')
  case (Cons entry ops)
  obtain i op where entry: "entry = (i, op)" by (cases entry)
  obtain op1 ws1 r1 where step: "(case waits_on (rt_queues r) q op of
          None \<Rightarrow> (op, [], r)
        | Some local \<Rightarrow>
            (case try_host_queue_recv local (rt_queues r) of
               (Ok (Some (client, v, metadata)), q') \<Rightarrow>
                 (op\<lparr>op_state := ReadyState (ConnectionInfoOut client v metadata)\<rparr>,
                  (case op_task op of None \<Rightarrow> [] | Some t \<Rightarrow> [(op_process op, t)]),
                  transfer_region_ownership_on_recv ho (op_process op) client v
                    (release_queue_item q (r\<lparr>rt_queues := q'\<rparr>)))
             | (_, q') \<Rightarrow> (op, [], r\<lparr>rt_queues := q'\<rparr>))) = (op1, ws1, r1)"
    by (rule prod_cases3)
  have "rt_auths r1 = rt_auths r"
    using step by (auto split: option.splits prod.splits sum.splits)
  moreover obtain ops2 ws2 where "wake_each_waiter ho q ops r1 = (ops2, ws2, r')"
    using Cons.prems unfolding entry wake_each_waiter.simps step Let_def by (auto split: prod.splits)
  ultimately show ?case using Cons.IH by simp
qed simp

lemma wake_all_auths: "rt_auths (foldl (\<lambda>r (pid, t). wake_process_task pid t r) r ws) = rt_auths r"
  by (induction ws arbitrary: r) (auto split: prod.split)

lemma wake_waiters_auths [simp]: "rt_auths (wake_host_queue_waiters ho q r) = rt_auths r"
  by (auto simp: wake_host_queue_waiters_def wake_all_auths dest: wake_each_auths split: prod.split)

lemma guards_auths [keep_rules]:
  "keeps rt_auths (requireR pid cap class ident)" "keeps rt_auths (ensure_local_handle_owner pid class i)"
  "keeps rt_auths (ensure_shared_resource_owner pid class i)" "keeps rt_auths (ensure_attach_authorised pid i)"
  "keeps rt_auths (socket_address ho address)" "keeps rt_auths (owned_log_id pid i)"
  "keeps rt_auths (owned_store_id pid i)" "keeps rt_auths (authorise_guest_log_process pid entry)"
  "keeps rt_auths (discovery_only pid)" "keeps rt_auths (mint_only pid)" "keeps rt_auths (ready out)"
  "keeps rt_auths (enforce_quota tenant class n)"
  by (auto simp: guard_steps requireR_def ensure_attach_authorised_def discovery_only_def mint_only_def
      ready_def enforce_quota_def intro!: keep_rules)

lemma charge_queue_item_auths [keep_rules]: "keeps rt_auths (charge_queue_item q)"
  by (auto simp: keeps_def charge_queue_item_def split: option.split intro: keepsD [OF guards_auths(12)])

lemma publish_auths [keep_rules]: "keeps rt_auths (publish_discovery_event ho req)"
  by (auto simp: keeps_def publish_discovery_event_def split: option.split prod.split sum.split)

lemma register_resource_auths [keep_rules]: "keeps rt_auths (register_resource ho pid tenant uri class ident)"
  unfolding register_resource_def by (intro keep_rules)

lemma on_keyring_auths [keep_rules]: "keeps rt_auths (on_keyring c)"
  by (auto simp: keeps_def on_keyring_def split: option.split prod.split sum.split)

lemma map_region_auths [keep_rules]: "keeps rt_auths (map_region ho own pid region prot slot)"
proof -
  have "keeps rt_auths (attach_into_guest ho pid rid prot slot)" for rid
    by (auto simp: keeps_def attach_into_guest_def split: option.split prod.split sum.split)
  then show ?thesis unfolding map_region_def by (intro keep_rules)
qed

lemma opening_auths [keep_rules]:
  "keeps rt_auths (\<lambda>r. case create_host_queue (rt_memory r) (rt_queues r) of
     (desc, m, q) \<Rightarrow> (Ok desc, r\<lparr>rt_memory := m, rt_queues := q\<rparr>))"
  "keeps rt_auths (\<lambda>r. case open_log (rt_memory r) (rt_storage r) name of
     (log, m, st) \<Rightarrow> (Ok log, r\<lparr>rt_memory := m, rt_storage := st\<rparr>))"
  "keeps rt_auths (\<lambda>r. case open_blob_store (rt_memory r) (rt_storage r) name of
     (store, m, st) \<Rightarrow> (Ok store, r\<lparr>rt_memory := m, rt_storage := st\<rparr>))"
  "keeps rt_auths (\<lambda>r. case attach_host_queue (rt_memory r) (rt_queues r) shared of
     (x, m, q) \<Rightarrow> (x, r\<lparr>rt_memory := m, rt_queues := q\<rparr>))"
  by (simp_all add: keeps_def split: prod.split)

lemma socket_auths [keep_rules]:
  "keeps rt_auths (tcp_bind so pid)" "keeps rt_auths (tcp_connect ho so)" "keeps rt_auths (udp_bind ho so)"
  by (auto simp: tcp_bind_def tcp_connect_def udp_bind_def intro!: keep_rules)

fun lifecycle_request :: "hostcall_request \<Rightarrow> bool" where
  "lifecycle_request (ProcessStart _ _ _ _ _) = True"
| "lifecycle_request (ProcessStop _) = True"
| "lifecycle_request _ = False"

fun resolve_report :: "hostcall_request \<Rightarrow> bool" where
  "resolve_report (RecordResolvedQueueFor _ _) = True"
| "resolve_report (RecordResolvedRegionFor _ _) = True"
| "resolve_report _ = False"

lemma owned_auths [keep_rules]:
  "keeps rt_auths act \<Longrightarrow> keeps rt_auths (on_owned_log pid local act)"
  "keeps rt_auths act \<Longrightarrow> keeps rt_auths (on_owned_store pid local act)"
  unfolding on_owned_log_def on_owned_store_def by (auto intro!: keep_rules)

lemma region_auths [keep_rules]:
  "keeps rt_auths (alloc_region ho pid pages serving)" "keeps rt_auths (free_region ho pid region)"
  "keeps rt_auths (attach_region ho own pid region slot prot)"
  unfolding alloc_region_def free_region_def attach_region_def Let_def
  by (auto intro!: keep_rules split: option.split)

lemma network_auths [keep_rules]:
  "keeps rt_auths (tcp_bind_call ho so pid address)" "keeps rt_auths (tcp_connect_call ho so pid address)"
  "keeps rt_auths (udp_bind_call ho so pid address)"
  unfolding tcp_bind_call_def tcp_connect_call_def udp_bind_call_def by (auto intro!: keep_rules)

lemma storage_auths [keep_rules]:
  "keeps rt_auths (storage_open_log pid name)" "keeps rt_auths (storage_log_close pid local)"
  "keeps rt_auths (storage_log_append pid local ts headers payload)"
  "keeps rt_auths (storage_log_replay pid local start limit)"
  "keeps rt_auths (storage_log_checkpoint pid local name sequence)"
  "keeps rt_auths (storage_log_checkpoint_read pid local name)"
  "keeps rt_auths (storage_open_blob_store pid name)" "keeps rt_auths (storage_blob_store_close pid local)"
  "keeps rt_auths (storage_blob_put ho pid local bytes)" "keeps rt_auths (storage_blob_get pid local blob)"
  "keeps rt_auths (storage_blob_set_manifest pid local name blob)"
  "keeps rt_auths (storage_blob_get_manifest pid local name)"
  unfolding storage_open_log_def storage_log_close_def storage_log_append_def storage_log_replay_def
    storage_log_checkpoint_def storage_log_checkpoint_read_def storage_open_blob_store_def
    storage_blob_store_close_def storage_blob_put_def storage_blob_get_def storage_blob_set_manifest_def
    storage_blob_get_manifest_def
  by (auto intro!: keep_rules)

lemma log_auths [keep_rules]:
  "keeps rt_auths (activity_read pid cursor)" "keeps rt_auths (metering_read pid target)"
  "keeps rt_auths (quota_set_call pid tenant class limit)" "keeps rt_auths (quota_clear_call pid tenant class)"
  "keeps rt_auths (guest_log_write pid entry)" "keeps rt_auths (guest_log_register ho pid shared)"
  unfolding activity_read_def metering_read_def quota_set_call_def quota_clear_call_def guest_log_write_def
    guest_log_register_def
  by (auto intro!: keep_rules)

lemma guest_log_read_auths [keep_rules]: "keeps rt_auths (guest_log_read ho pid cursor target)"
proof -
  have "keeps rt_auths (\<lambda>r. case target of
                 None \<Rightarrow> (Ok [], r)
               | Some t \<Rightarrow>
                   (case on_log_channels (drain_log_channel (ho_engine ho) t) r of
                      (Ok frames, r') \<Rightarrow> (Ok (channel_entries ho t frames), r')
                    | (Err _, r') \<Rightarrow> (Ok [], r')))"
    unfolding keeps_def
    by (auto split: option.split prod.split sum.split dest: keeps_run [OF component_auths(5)])
  then show ?thesis unfolding guest_log_read_def by (auto intro!: keep_rules)
qed

lemma queue_auths [keep_rules]:
  "keeps rt_auths (host_queue_create ho pid serving)" "keeps rt_auths (host_queue_attach pid shared)"
  "keeps rt_auths (host_queue_send_call ho pid local v metadata)"
  "keeps rt_auths (host_queue_recv_call ho now pid local)"
  unfolding host_queue_create_def host_queue_attach_def host_queue_send_call_def host_queue_recv_call_def
  by (auto intro!: keep_rules)

lemma other_auths [keep_rules]:
  "keeps rt_auths (record_registration_call pid registered uri)" "keeps rt_auths (process_capability pid target cap)"
  "keeps rt_auths (resolve_protocol_handler scheme)" "keeps rt_auths (sign_tenant_ca_call ho entropy pid tenant)"
  "keeps rt_auths (sign_user_cert_call ho pid tenant spki)" "keeps rt_auths (revoke_ca_call pid tenant)"
  "keeps rt_auths (random_bytes inp n)" "keeps rt_auths (wait_register pid region)"
  "keeps rt_auths (generation_advance pid region generation)"
  unfolding record_registration_call_def process_capability_def resolve_protocol_handler_def
    sign_tenant_ca_call_def sign_user_cert_call_def revoke_ca_call_def random_bytes_def wait_register_def
    generation_advance_def
  by (auto intro!: keep_rules)

lemma handler_auths:
  "\<not> lifecycle_request request \<Longrightarrow> \<not> resolve_report request \<Longrightarrow>
    keeps rt_auths (handle_hostcall ho inp pid request)"
  by (cases request) (auto intro!: keep_rules)

lemma resolve_report_denied:
  "resolve_report request \<Longrightarrow> denies (\<lambda>r. rt_discovery r \<noteq> Some pid) (handle_hostcall ho inp pid request)"
  by (cases request)
     (auto simp: record_resolved_queue_for_def record_resolved_region_for_def discovery_only_def
       intro!: denies_first deny_rules)

text \<open>C6. No process can widen what it may do.  Apart from starting and stopping processes, a hostcall
  leaves the table of authorities (grants, tenants, parents and the resources resolved for a process)
  exactly as it was; only the discovery service can add a resolved queue or region, and the same report
  from any other process changes nothing.\<close>

theorem authority_is_not_self_granted:
  assumes "\<not> lifecycle_request request" "resolve_report request \<longrightarrow> rt_discovery r \<noteq> Some pid"
  shows "rt_auths (snd (dispatch_hostcall ho inp pid request r)) = rt_auths r"
proof (cases "resolve_report request")
  case True
  have "denies (\<lambda>r. rt_discovery r \<noteq> Some pid) (dispatch_hostcall ho inp pid request)"
    unfolding dispatch_hostcall_def by (rule denies_later [OF keeps_basic(5) resolve_report_denied [OF True]])
  then show ?thesis using assms(2) True by (auto dest: deniesD)
next
  case False
  have "keeps rt_auths (dispatch_hostcall ho inp pid request)"
    unfolding dispatch_hostcall_def by (rule keeps_bind [OF keeps_basic(5) handler_auths [OF assms(1) False]])
  then show ?thesis by (rule keepsD)
qed

theorem authority_is_not_self_granted_witness:
  "rt_auths (snd (dispatch_hostcall sample_host sample_inputs 5 (RecordResolvedRegionFor 5 7) sample_runtime)) =
    rt_auths sample_runtime"
  by (rule authority_is_not_self_granted) (simp_all add: sample_runtime_def runtime_new_def)

end
