(* ===== verification/Operation_Ids.thy ===== *)
theory Operation_Ids
  imports Runtime_Sample
begin

text \<open>
  The identifiers of pending operations (\<^verbatim>\<open>Runtime::next_operation_id\<close> in
  \<^verbatim>\<open>crates/runtime/src/hostcall.rs\<close>).  The search starts at a counter that skips zero and wraps, and stops
  when it comes round; the lemmas number the identifiers in the order the search visits them.
\<close>

definition id_count :: nat where
  "id_count = 2 ^ 64 - 1"

definition cyc :: "u64 \<Rightarrow> nat \<Rightarrow> u64" where
  "cyc first i = of_nat ((unat first - 1 + i) mod id_count + 1)"

definition id_succ :: "u64 \<Rightarrow> u64" where
  "id_succ current = (if current = u64_max then 1 else current + 1)"

lemma unat_cyc: "unat (cyc first i) = (unat first - 1 + i) mod id_count + 1"
proof -
  have "(unat first - 1 + i) mod id_count < id_count" by (simp add: id_count_def)
  then show ?thesis unfolding cyc_def by (simp add: unsigned_of_nat take_bit_nat_eq_self id_count_def)
qed

lemma cyc_nonzero: "cyc first i \<noteq> 0"
  using unat_cyc [of first i] by auto

lemma unat_nonzero_range: "(w :: u64) \<noteq> 0 \<Longrightarrow> 1 \<le> unat w \<and> unat w \<le> id_count"
  using unat_u64_lt [of w] by (simp add: id_count_def unat_gt_0 Suc_le_eq)

lemma id_mod: "1 \<le> n \<Longrightarrow> n \<le> id_count \<Longrightarrow> (n - 1) mod id_count + 1 = n"
  by (simp add: mod_less)

lemma cyc_start: "first \<noteq> 0 \<Longrightarrow> cyc first 0 = first"
  using unat_nonzero_range [of first] id_mod [of "unat first"]
  by (intro word_unat_eq_iff [THEN iffD2]) (simp only: unat_cyc add_0_right simp_thms)

lemma cyc_round: "first \<noteq> 0 \<Longrightarrow> cyc first id_count = first"
  using unat_nonzero_range [of first] id_mod [of "unat first"]
  by (intro word_unat_eq_iff [THEN iffD2]) (simp only: unat_cyc mod_add_self2 simp_thms)

lemma id_succ_cyc: "id_succ (cyc first i) = cyc first (Suc i)"
proof (rule word_unat_eq_iff [THEN iffD2])
  let ?m = "(unat first - 1 + i) mod id_count"
  have lt: "?m < id_count" by (simp add: id_count_def)
  have top: "cyc first i = u64_max \<longleftrightarrow> Suc ?m = id_count"
    by (simp only: word_unat_eq_iff unat_cyc unat_u64_max) (simp add: id_count_def)
  show "unat (id_succ (cyc first i)) = unat (cyc first (Suc i))"
  proof (cases "Suc ?m = id_count")
    case True
    then show ?thesis using top by (simp add: id_succ_def unat_cyc mod_Suc)
  next
    case False
    then have "unat (cyc first i + 1) = unat (cyc first i) + 1"
      using lt unat_cyc [of first i] by (simp add: unat_word_ariths id_count_def)
    then show ?thesis using top False by (simp add: id_succ_def unat_cyc mod_Suc)
  qed
qed

lemma cyc_round_only:
  assumes "first \<noteq> 0" "i < id_count" "cyc first (Suc i) = first"
  shows "Suc i = id_count"
proof -
  have range: "1 \<le> unat first" "unat first \<le> id_count" using unat_nonzero_range [OF assms(1)] by auto
  have "(unat first - 1 + Suc i) mod id_count + 1 = unat first" using unat_cyc assms(3) by metis
  then have "(unat first - 1 + Suc i) mod id_count = unat first - 1" using range by simp
  moreover have "unat first - 1 < id_count" using range by simp
  ultimately have "Suc i mod id_count = 0"
    by (metis add.right_neutral mod_add_left_eq mod_less mod_add_eq nat_add_left_cancel_less add_diff_cancel_left' mod_eq_dvd_iff_nat le_add1 dvd_imp_mod_0)
  then show ?thesis using assms(2) by (metis Suc_leI dvd_imp_le le_antisym mod_0_imp_dvd zero_less_Suc)
qed

lemma cyc_onto:
  assumes "first \<noteq> 0" "ident \<noteq> 0"
  shows "\<exists>i<id_count. cyc first i = ident"
proof -
  have rf: "1 \<le> unat first" "unat first \<le> id_count" using unat_nonzero_range [OF assms(1)] by auto
  have ri: "1 \<le> unat ident" "unat ident \<le> id_count" using unat_nonzero_range [OF assms(2)] by auto
  let ?i = "if unat first \<le> unat ident then unat ident - unat first else id_count + unat ident - unat first"
  have "?i < id_count" using rf ri by auto
  moreover have "unat (cyc first ?i) = unat ident"
  proof (cases "unat first \<le> unat ident")
    case False
    then have "unat first - 1 + ?i = id_count + (unat ident - 1)" using rf ri by simp
    then show ?thesis using id_mod [OF ri] unfolding unat_cyc by (simp only: mod_add_self1)
  next
    case True
    then have "unat first - 1 + ?i = unat ident - 1" using rf ri by simp
    then show ?thesis using id_mod [OF ri] unfolding unat_cyc by (simp only:)
  qed
  ultimately show ?thesis by (metis word_unat_eq_iff)
qed

section \<open>The search\<close>

lemma next_op_step:
  "next_op_from first_candidate ops current =
    (if current \<noteq> 0 \<and> map_of ops current = None then Some (Allocated current (id_succ current))
     else if id_succ current = first_candidate then Some Exhausted
     else next_op_from first_candidate ops (id_succ current))"
  by (subst next_op_from.simps) (simp add: id_succ_def Let_def)

lemma next_op_search:
  assumes "first \<noteq> 0"
  shows "i < id_count \<Longrightarrow>
    (\<exists>j. next_op_from first ops (cyc first i) = Some (Allocated (cyc first j) (cyc first (Suc j))) \<and>
       map_of ops (cyc first j) = None) \<or>
    (next_op_from first ops (cyc first i) = Some Exhausted \<and>
       (\<forall>j. i \<le> j \<and> j < id_count \<longrightarrow> map_of ops (cyc first j) \<noteq> None))"
proof (induction "id_count - i" arbitrary: i rule: less_induct)
  case less
  show ?case
  proof (cases "map_of ops (cyc first i) = None")
    case True
    then show ?thesis by (subst next_op_step) (auto simp: cyc_nonzero id_succ_cyc)
  next
    case used: False
    show ?thesis
    proof (cases "Suc i = id_count")
      case True
      then have "next_op_from first ops (cyc first i) = Some Exhausted"
        by (subst next_op_step) (simp add: used id_succ_cyc cyc_round [OF assms])
      moreover have "j = i" if "i \<le> j" "j < id_count" for j using that True by simp
      ultimately show ?thesis using used by blast
    next
      case False
      then have "cyc first (Suc i) \<noteq> first" using cyc_round_only [OF assms less.prems] by blast
      then have step: "next_op_from first ops (cyc first i) = next_op_from first ops (cyc first (Suc i))"
        by (subst next_op_step) (simp add: used id_succ_cyc)
      have "Suc i < id_count" using less.prems False by simp
      moreover have "j = i \<or> Suc i \<le> j" if "i \<le> j" for j :: nat using that by auto
      ultimately show ?thesis using less.hyps [of "Suc i"] less.prems used unfolding step
        by (metis diff_less_mono2 lessI)
    qed
  qed
qed

text \<open>C19. Allocating an operation id always comes to an end.  With a counter that is not zero, either an
  id is returned that is not zero and belongs to no pending operation, and the counter moves to a value
  that is again not zero, or every id is in use and the exhaustion is reported.\<close>

theorem operation_ids_are_fresh:
  assumes "rt_next_op r \<noteq> 0"
  shows "(\<exists>ident succ. next_operation_id r = Some (Allocated ident succ) \<and> ident \<noteq> 0 \<and> succ \<noteq> 0 \<and>
      map_of (rt_ops r) ident = None) \<or>
    (next_operation_id r = Some Exhausted \<and> (\<forall>ident. ident \<noteq> 0 \<longrightarrow> map_of (rt_ops r) ident \<noteq> None))"
proof -
  have "0 < id_count" by (simp add: id_count_def)
  from next_op_search [OF assms this, of "rt_ops r"] consider
      j where "next_operation_id r = Some (Allocated (cyc (rt_next_op r) j) (cyc (rt_next_op r) (Suc j)))"
        "map_of (rt_ops r) (cyc (rt_next_op r) j) = None"
    | "next_operation_id r = Some Exhausted"
        "\<forall>j<id_count. map_of (rt_ops r) (cyc (rt_next_op r) j) \<noteq> None"
    unfolding next_operation_id_def cyc_start [OF assms] by blast
  then show ?thesis
  proof cases
    case 1
    then show ?thesis using cyc_nonzero by blast
  next
    case 2
    then show ?thesis using cyc_onto [OF assms] by metis
  qed
qed

theorem operation_ids_are_fresh_witness:
  "\<exists>ident succ. next_operation_id sample_runtime = Some (Allocated ident succ) \<and> ident \<noteq> 0 \<and> succ \<noteq> 0"
proof -
  have "rt_next_op sample_runtime \<noteq> 0" "rt_ops sample_runtime = []"
    by (simp_all add: sample_runtime_def runtime_new_def)
  moreover have "(1 :: u64) \<noteq> 0" by simp
  ultimately show ?thesis using operation_ids_are_fresh [of sample_runtime] by (metis map_of.simps(1))
qed

end
