(* ===== verification/Ownership.thy ===== *)
theory Ownership
  imports Runtime_Ops
begin

text \<open>
  Ownership of handles and shared resources, and the waits on generations
  (\<^verbatim>\<open>crates/runtime/src/process.rs\<close>, \<^verbatim>\<open>crates/runtime/src/hostcall.rs\<close>).  The interface \<open>owner_table\<close> is
  what the teardown of a process relies on; the tables of local handles and of shared resources both
  provide it.
\<close>

section \<open>Owner tables\<close>

locale owner_table =
  fixes owner :: "'r \<Rightarrow> 'p \<Rightarrow> 'k \<Rightarrow> bool"
    and claim :: "'p \<Rightarrow> 'k \<Rightarrow> 'r \<Rightarrow> 'r"
    and release :: "'p \<Rightarrow> 'k \<Rightarrow> 'r \<Rightarrow> 'r"
  assumes owner_claim: "owner (claim p k r) q j \<longleftrightarrow> (q = p \<and> j = k) \<or> owner r q j"
    and owner_release: "owner (release p k r) q j \<longleftrightarrow> owner r q j \<and> \<not> (q = p \<and> j = k)"
begin

lemma release_claim: "\<not> owner r p k \<Longrightarrow> owner (release p k (claim p k r)) q j \<longleftrightarrow> owner r q j"
  by (auto simp: owner_claim owner_release)

lemma fold_releases:
  assumes "\<And>r k q j. owner (f r k) q j \<longleftrightarrow> owner (release p k r) q j"
  shows "owner (foldl f r ks) q j \<longleftrightarrow> owner r q j \<and> \<not> (q = p \<and> j \<in> set ks)"
  by (induction ks arbitrary: r) (auto simp: assms owner_release)

lemma fold_drains:
  assumes "\<And>r k q j. owner (f r k) q j \<longleftrightarrow> owner (release p k r) q j" "\<And>k. owner r p k \<Longrightarrow> k \<in> set ks"
  shows "\<not> owner (foldl f r ks) p j"
  using assms(2) by (auto simp: fold_releases [OF assms(1)])

end

lemma owners_of_claim [simp]:
  "owners_of (claim_owner pid class i os) k =
    (if k = (class, i) then insert pid (owners_of os k) else owners_of os k)"
  by (auto simp: owners_of_def claim_owner_def update_conv')

lemma owners_of_release [simp]:
  "owners_of (snd (release_owner pid class i os)) k =
    (if k = (class, i) then owners_of os k - {pid} else owners_of os k)"
  by (auto simp: owners_of_def release_owner_def update_conv' delete_conv' split: option.split)

definition local_owner :: "('st, 'rid, 'g, 'd) runtime \<Rightarrow> u64 \<Rightarrow> resource_class \<times> u64 \<Rightarrow> bool" where
  "local_owner r pid k = owns_local r pid (fst k) (snd k)"

definition shared_owner :: "('st, 'rid, 'g, 'd) runtime \<Rightarrow> u64 \<Rightarrow> resource_class \<times> u64 \<Rightarrow> bool" where
  "shared_owner r pid k = owns_shared r pid (fst k) (snd k)"

interpretation handles: owner_table local_owner
  "\<lambda>pid k. claim_local_handle pid (fst k) (snd k)" "\<lambda>pid k r. snd (release_local_handle pid (fst k) (snd k) r)"
  by unfold_locales
     (auto simp: local_owner_def owns_local_def claim_local_handle_def release_local_handle_def case_prod_beta)

interpretation resources: owner_table shared_owner
  "\<lambda>pid k. claim_shared_resource pid (fst k) (snd k)" "\<lambda>pid k r. snd (release_shared_resource pid (fst k) (snd k) r)"
  by unfold_locales
     (auto simp: shared_owner_def owns_shared_def claim_shared_resource_def release_shared_resource_def
       case_prod_beta Let_def)

section \<open>Handing a region over\<close>

lemma shared_owners_moved [simp]: "rt_shared_owners (move_reservation ho a b i r) = rt_shared_owners r"
  by (simp add: move_reservation_def split: sum.split)


section \<open>Waits on generations\<close>

abbreviation all_waits :: "('st, 'rid, 'g, 'd) runtime \<Rightarrow> wait_entry list" where
  "all_waits r \<equiv> concat (map snd (rt_waits r))"

abbreviation waiter_of :: "wait_entry \<Rightarrow> u64 \<times> u32" where
  "waiter_of e \<equiv> (we_process e, we_task e)"

lemma concat_retain: "concat (map snd (retain_entries keep ws)) = filter keep (concat (map snd ws))"
proof -
  have drop: "concat (map snd (filter (\<lambda>(_, es). es \<noteq> []) xs)) = concat (map snd xs)"
    for xs :: "((u64 \<times> u64) \<times> wait_entry list) list"
    by (induction xs) auto
  show ?thesis by (simp add: retain_entries_def drop filter_concat comp_def case_prod_beta)
qed

lemma wake_once_effect:
  "\<exists>new. rt_wakes (wake_once seen ws r) = rt_wakes r @ new \<and> distinct new \<and> set new = set ws - seen \<and>
    all_waits (wake_once seen ws r) = filter (\<lambda>e. waiter_of e \<notin> set ws - seen) (all_waits r)"
proof (induction ws arbitrary: seen r)
  case (Cons w ws)
  show ?case
  proof (cases "w \<in> seen")
    case True
    then show ?thesis using Cons.IH [of seen r] by (simp add: insert_Diff_if)
  next
    case False
    let ?r = "wake_process_task (fst w) (snd w) (cancel_waits_for_task (fst w) (snd w) r)"
    obtain new where new: "rt_wakes (wake_once (insert w seen) ws ?r) = rt_wakes ?r @ new" "distinct new"
        "set new = set ws - insert w seen"
        "all_waits (wake_once (insert w seen) ws ?r) =
          filter (\<lambda>e. waiter_of e \<notin> set ws - insert w seen) (all_waits ?r)"
      using Cons.IH by blast
    have "all_waits ?r = filter (\<lambda>e. waiter_of e \<noteq> w) (all_waits r)"
      by (cases w) (auto simp: wake_process_task_def cancel_waits_for_task_def concat_retain intro!: filter_cong)
    then have "all_waits (wake_once seen (w # ws) r) = filter (\<lambda>e. waiter_of e \<notin> set (w # ws) - seen) (all_waits r)"
      using False new(4) by (auto intro!: filter_cong)
    moreover have "rt_wakes (wake_once seen (w # ws) r) = rt_wakes r @ w # new"
      using False new(1) by (simp add: wake_process_task_def cancel_waits_for_task_def)
    moreover have "distinct (w # new)" "set (w # new) = set (w # ws) - seen" using new(2,3) False by auto
    ultimately show ?thesis by blast
  qed
qed simp

text \<open>C20. Advancing a generation wakes exactly the tasks whose awaited generation was surpassed.  Each such
  task is woken once, however many of its registrations match; afterwards none of its registrations is
  left, and the registrations of every other task are kept in order.\<close>

theorem generation_advance_wakes_surpassed:
  "\<exists>new. rt_wakes (note_generation_advance region generation r) = rt_wakes r @ new \<and> distinct new \<and>
    set new = waiter_of ` {e \<in> set (all_waits r). surpassed region generation e} \<and>
    all_waits (note_generation_advance region generation r) = filter (\<lambda>e. waiter_of e \<notin> set new) (all_waits r)"
proof -
  let ?ws = "map waiter_of (filter (surpassed region generation) (all_waits r))"
  let ?r = "r\<lparr>rt_waits := retain_entries (\<lambda>e. \<not> surpassed region generation e) (rt_waits r)\<rparr>"
  from wake_once_effect [of "{}" ?ws ?r] obtain new where new:
    "rt_wakes (note_generation_advance region generation r) = rt_wakes r @ new" "distinct new" "set new = set ?ws"
    "all_waits (note_generation_advance region generation r) = filter (\<lambda>e. waiter_of e \<notin> set ?ws) (all_waits ?r)"
    unfolding note_generation_advance_def by auto
  have "all_waits (note_generation_advance region generation r) = filter (\<lambda>e. waiter_of e \<notin> set new) (all_waits r)"
    unfolding new(3,4) by (auto simp: concat_retain intro!: filter_cong)
  then show ?thesis using new(1-3) by auto
qed

end
