(* ===== verification/Teardown.thy ===== *)
theory Teardown
  imports Ownership Runtime_Frame Runtime_Sample
begin

text \<open>
  What is left of a process after it was stopped (\<^verbatim>\<open>Runtime::stop_process\<close> and
  \<^verbatim>\<open>Runtime::cleanup_process_resources\<close> in \<^verbatim>\<open>crates/runtime/src/process.rs\<close>).  The lemmas follow, step by
  step, the part of the state that each step of the teardown empties.
\<close>

section \<open>What the reclaiming leaves alone\<close>

definition stopped_view :: "('st, 'rid, 'g, 'd) runtime \<Rightarrow>
    authorities \<times> (u64 \<times> host_operation) list \<times> (u64 \<times> 'g) list \<times> (u64 \<Rightarrow> u32 option)" where
  "stopped_view r = (rt_auths r, rt_ops r, rt_guests r, rt_mailboxes r)"

definition tables_view :: "('st, 'rid, 'g, 'd) runtime \<Rightarrow>
    (u64 \<times> u64 set) list \<times> ((u64 \<times> u64) \<times> string) list \<times> ((u64 \<times> u64) \<times> string) list \<times> (u64 \<Rightarrow> string option) \<times> 'd option" where
  "tables_view r = (rt_attachments r, rt_region_tenants r, rt_queue_tenants r, rt_quota_tenants r, rt_publisher r)"

lemmas views = stopped_view_def tables_view_def

lemma stopped_view_updates [simp]:
  "stopped_view (r\<lparr>rt_publisher := d\<rparr>) = stopped_view r"
  "stopped_view (r\<lparr>rt_registrations := g\<rparr>) = stopped_view r"
  "stopped_view (r\<lparr>rt_handlers := h\<rparr>) = stopped_view r"
  by (simp_all add: views)

lemma release_views [simp]:
  "stopped_view (release_quota t c n r) = stopped_view r" "tables_view (release_quota t c n r) = tables_view r"
  "stopped_view (snd (release_local_handle pid class i r)) = stopped_view r"
  "tables_view (snd (release_local_handle pid class i r)) = tables_view r"
  "stopped_view (snd (release_shared_resource pid class i r)) = stopped_view r"
  "tables_view (snd (release_shared_resource pid class i r)) = tables_view r"
  by (simp_all add: views release_quota_def release_local_handle_def release_shared_resource_def Let_def
      split: prod.split)

lemma on_component_views [simp]:
  "stopped_view (snd (on_memory c r)) = stopped_view r" "tables_view (snd (on_memory c r)) = tables_view r"
  "stopped_view (snd (on_storage d r)) = stopped_view r" "tables_view (snd (on_storage d r)) = tables_view r"
  "rt_local_owners (snd (on_memory c r)) = rt_local_owners r" "rt_shared_owners (snd (on_memory c r)) = rt_shared_owners r"
  "rt_local_owners (snd (on_storage d r)) = rt_local_owners r" "rt_shared_owners (snd (on_storage d r)) = rt_shared_owners r"
  by (simp_all add: views on_memory_def on_storage_def)

lemma close_views [simp]:
  "stopped_view (snd (close_tcp_listener i r)) = stopped_view r" "tables_view (snd (close_tcp_listener i r)) = tables_view r"
  "stopped_view (snd (close_tcp_stream i r)) = stopped_view r" "tables_view (snd (close_tcp_stream i r)) = tables_view r"
  "stopped_view (snd (close_udp_socket i r)) = stopped_view r" "tables_view (snd (close_udp_socket i r)) = tables_view r"
  "rt_local_owners (snd (close_tcp_listener i r)) = rt_local_owners r"
  "rt_local_owners (snd (close_tcp_stream i r)) = rt_local_owners r"
  "rt_local_owners (snd (close_udp_socket i r)) = rt_local_owners r"
  "rt_shared_owners (snd (close_tcp_listener i r)) = rt_shared_owners r"
  "rt_shared_owners (snd (close_tcp_stream i r)) = rt_shared_owners r"
  "rt_shared_owners (snd (close_udp_socket i r)) = rt_shared_owners r"
  by (simp_all add: views close_tcp_listener_def close_tcp_stream_def close_udp_socket_def split: option.split)

lemma release_quota_owners [simp]:
  "rt_local_owners (release_quota t c n r) = rt_local_owners r"
  "rt_shared_owners (release_quota t c n r) = rt_shared_owners r"
  by (simp_all add: release_quota_def)

section \<open>Reclaiming handles and regions\<close>

text \<open>After its release a handle is only closed in the kernel, which touches no table of the runtime.\<close>

lemma reclaim_handle_cases:
  obtains r' where "reclaim_handle facts pid r h = r'"
    "rt_local_owners r' = rt_local_owners (snd (release_local_handle pid (fst h) (snd h) r))"
    "rt_shared_owners r' = rt_shared_owners r" "stopped_view r' = stopped_view r" "tables_view r' = tables_view r"
proof -
  obtain cl i where h: "h = (cl, i)" by (cases h)
  obtain b r1 where rel: "release_local_handle pid cl i r = (b, r1)"
    by (cases "release_local_handle pid cl i r")
  have views: "stopped_view r1 = stopped_view r" "tables_view r1 = tables_view r"
    using release_views(3,4) [of pid cl i r] rel by simp_all
  have owners: "rt_shared_owners r1 = rt_shared_owners r"
    using rel by (auto simp: release_local_handle_def split: prod.splits)
  have "let r' = reclaim_handle facts pid r h in rt_local_owners r' = rt_local_owners r1 \<and>
      rt_shared_owners r' = rt_shared_owners r1 \<and> stopped_view r' = stopped_view r1 \<and> tables_view r' = tables_view r1"
    unfolding Let_def reclaim_handle_def h fst_conv snd_conv rel
    by (cases b; cases cl) (auto split: sum.split option.split)
  then show thesis using that [OF refl] views owners by (simp add: h rel Let_def)
qed

lemma reclaim_handle_views [simp]:
  "stopped_view (reclaim_handle facts pid r h) = stopped_view r"
  "tables_view (reclaim_handle facts pid r h) = tables_view r"
  "rt_shared_owners (reclaim_handle facts pid r h) = rt_shared_owners r"
  by (rule reclaim_handle_cases [of facts pid r h]; simp)+

lemma reclaim_handle_owner:
  "local_owner (reclaim_handle facts pid r h) q j \<longleftrightarrow> local_owner (snd (release_local_handle pid (fst h) (snd h) r)) q j"
  by (rule reclaim_handle_cases [of facts pid r h]) (simp add: local_owner_def owns_local_def)

lemma reclaim_region_owners:
  "rt_shared_owners (reclaim_region ho facts pid r i) = rt_shared_owners (snd (release_shared_resource pid SharedRegion i r))"
  "rt_local_owners (reclaim_region ho facts pid r i) = rt_local_owners r"
  "stopped_view (reclaim_region ho facts pid r i) = stopped_view r"
  "tables_view (reclaim_region ho facts pid r i) = tables_view r"
proof -
  have "rt_local_owners (snd (release_shared_resource pid SharedRegion i r)) = rt_local_owners r"
    by (simp add: release_shared_resource_def Let_def split: prod.split)
  then show "rt_shared_owners (reclaim_region ho facts pid r i) = rt_shared_owners (snd (release_shared_resource pid SharedRegion i r))"
    "rt_local_owners (reclaim_region ho facts pid r i) = rt_local_owners r"
    "stopped_view (reclaim_region ho facts pid r i) = stopped_view r"
    "tables_view (reclaim_region ho facts pid r i) = tables_view r"
    by (simp_all add: reclaim_region_def Let_def split: sum.split option.split prod.split)
qed

lemma fold_handles_views [simp]:
  "stopped_view (foldl (reclaim_handle facts pid) r hs) = stopped_view r"
  "tables_view (foldl (reclaim_handle facts pid) r hs) = tables_view r"
  by (induction hs arbitrary: r) simp_all

lemma fold_regions_views [simp]:
  "stopped_view (foldl (reclaim_region ho facts pid) r js) = stopped_view r"
  "tables_view (foldl (reclaim_region ho facts pid) r js) = tables_view r"
  "rt_local_owners (foldl (reclaim_region ho facts pid) r js) = rt_local_owners r"
  by (induction js arbitrary: r) (simp_all add: reclaim_region_owners)

section \<open>Revoking registrations\<close>

lemma keys_delete: "fst ` set (AList.delete k xs) = fst ` set xs - {k}"
  by (simp add: delete_keys flip: set_map)

lemma publish_keeps [keep_rules]:
  assumes "\<And>d r. f (r\<lparr>rt_publisher := d\<rparr>) = f r"
  shows "keeps f (publish_discovery_event ho req)"
  by (auto simp: keeps_def publish_discovery_event_def assms split: option.split prod.split sum.split)

definition other_tables :: "('st, 'rid, 'g, 'd) runtime \<Rightarrow> _" where
  "other_tables r = (stopped_view r, rt_attachments r, rt_quota_tenants r, rt_local_owners r, rt_shared_owners r)"

lemmas revoke_defs = revoke_region_def revoke_queue_def

lemma revoke_keeps [keep_rules]:
  "keeps other_tables (revoke_region ho key facts)" "keeps other_tables (revoke_queue ho key facts)"
  "keeps rt_queue_tenants (revoke_region ho key facts)" "keeps rt_region_tenants (revoke_queue ho key facts)"
  unfolding revoke_defs
  by (rule keeps_bind keeps_basic keeps_option keeps_update publish_keeps | simp add: other_tables_def views)+

lemma revoke_removes:
  assumes "revoke_region ho key facts r = (Ok facts', r')"
  shows "fst ` set (rt_region_tenants r') = fst ` set (rt_region_tenants r) - {key}"
proof (cases "map_of (rt_region_tenants r) key")
  case None
  then have "r' = r" using assms by (simp add: revoke_region_def)
  then show ?thesis using None by (simp add: map_of_eq_None_iff)
next
  case (Some tenant)
  obtain x r1 where pub: "publish_discovery_event ho (Revoke (region_registration_uri tenant (snd key))) r = (x, r1)"
    by fastforce
  have "rt_region_tenants r1 = rt_region_tenants r"
    by (rule keeps_run [OF publish_keeps pub]) simp
  then have "rt_region_tenants r' = AList.delete key (rt_region_tenants r)"
    using assms Some pub by (cases x) (auto simp: revoke_region_def)
  then show ?thesis by (simp only: keys_delete)
qed

lemma revoke_queue_removes:
  assumes "revoke_queue ho key facts r = (Ok facts', r')"
  shows "fst ` set (rt_queue_tenants r') = fst ` set (rt_queue_tenants r) - {key}"
proof (cases "map_of (rt_queue_tenants r) key")
  case None
  then have "r' = r" using assms by (simp add: revoke_queue_def)
  then show ?thesis using None by (simp add: map_of_eq_None_iff)
next
  case (Some tenant)
  obtain x r1 where pub: "publish_discovery_event ho (Revoke (queue_registration_uri tenant (snd key))) r = (x, r1)"
    by fastforce
  have "rt_queue_tenants r1 = rt_queue_tenants r"
    by (rule keeps_run [OF publish_keeps pub]) simp
  then have "rt_queue_tenants r' = AList.delete key (rt_queue_tenants r)"
    using assms Some pub by (cases x) (auto simp: revoke_queue_def)
  then show ?thesis by (simp only: keys_delete)
qed

text \<open>A loop whose every step removes its key from a table removes all of them.\<close>

lemma for_each_removes:
  assumes "\<And>k a r a' r'. step k a r = (Ok a', r') \<Longrightarrow> fst ` set (table r') = fst ` set (table r) - {k}"
  shows "for_each step ks a r = (Ok a', r') \<Longrightarrow> fst ` set (table r') = fst ` set (table r) - set ks"
proof (induction ks arbitrary: a r)
  case (Cons k ks)
  from Cons.prems obtain a1 r1 where st: "step k a r = (Ok a1, r1)" "for_each step ks a1 r1 = (Ok a', r')"
    by (auto elim: bindR_OkE)
  show ?case using assms [OF st(1)] Cons.IH [OF st(2)] by auto
qed simp

lemma revoke_all:
  "for_each (revoke_region ho) ks a r = (Ok a', r') \<Longrightarrow>
    fst ` set (rt_region_tenants r') = fst ` set (rt_region_tenants r) - set ks"
  "for_each (revoke_queue ho) ks a r = (Ok a', r') \<Longrightarrow>
    fst ` set (rt_queue_tenants r') = fst ` set (rt_queue_tenants r) - set ks"
  by (rule for_each_removes [where table = rt_region_tenants and step = "revoke_region ho"],
      erule revoke_removes, assumption,
      rule for_each_removes [where table = rt_queue_tenants and step = "revoke_queue ho"],
      erule revoke_queue_removes, assumption)

lemma keys_of_empty: "keys_of pid ts = [] \<longleftrightarrow> (\<forall>k\<in>fst ` set ts. fst k \<noteq> pid)"
  by (auto simp: keys_of_def filter_empty_conv)

lemma set_keys_of: "set (keys_of pid ts) = {k \<in> fst ` set ts. fst k = pid}"
  by (auto simp: keys_of_def)

lemma owned_by_complete: "pid \<in> owners_of os k \<Longrightarrow> k \<in> set (owned_by pid os)"
proof -
  assume "pid \<in> owners_of os k"
  then obtain ps where "map_of os k = Some ps" "pid \<in> ps" by (auto simp: owners_of_def split: option.splits)
  then have "(k, ps) \<in> set os" by (simp add: map_of_SomeD)
  then show ?thesis using \<open>pid \<in> ps\<close> by (force simp: owned_by_def)
qed

section \<open>The teardown as a whole\<close>

definition holds_nothing :: "u64 \<Rightarrow> ('st, 'rid, 'g, 'd) runtime \<Rightarrow> bool" where
  "holds_nothing pid r \<longleftrightarrow>
     (\<forall>class i. \<not> owns_local r pid class i) \<and> (\<forall>i. \<not> owns_shared r pid SharedRegion i) \<and>
     (\<forall>i. pid \<notin> attachers (rt_attachments r) i) \<and>
     keys_of pid (rt_region_tenants r) = [] \<and> keys_of pid (rt_queue_tenants r) = [] \<and> rt_quota_tenants r pid = None"

lemma forget_process_effect:
  "stopped_view (forget_process pid r) = stopped_view r"
  "pid \<notin> attachers (rt_attachments (forget_process pid r)) i"
  "rt_quota_tenants (forget_process pid r) pid = None"
proof -
  have none: "pid \<notin> attachers (filter (\<lambda>(_, ps). ps \<noteq> {}) (map (\<lambda>(k, ps). (k, ps - {pid})) xs)) i" for xs
    by (induction xs) (auto simp: attachers_def split: option.splits)
  show "stopped_view (forget_process pid r) = stopped_view r"
    "pid \<notin> attachers (rt_attachments (forget_process pid r)) i" "rt_quota_tenants (forget_process pid r) pid = None"
    by (simp_all add: forget_process_def Let_def views release_quota_def none split: option.split)
qed

lemma cleanup_views: "keeps stopped_view (cleanup_process_resources ho pid tenant)"
proof -
  have "keeps stopped_view (revoke_region ho key facts)" "keeps stopped_view (revoke_queue ho key facts)" for key facts
    using revoke_keeps(1,2) [of ho key facts] by (simp_all add: keeps_def other_tables_def)
  then show ?thesis unfolding cleanup_process_resources_def
    by (intro keeps_bind keeps_update keeps_basic keeps_for_each publish_keeps)
       (simp_all add: forget_process_effect)
qed

lemma reclaim_all_handles:
  "\<not> owns_local (foldl (reclaim_handle facts pid) r (owned_by pid (rt_local_owners r))) pid class i"
proof -
  have "\<not> local_owner (foldl (reclaim_handle facts pid) r (owned_by pid (rt_local_owners r))) pid (class, i)"
  proof (rule handles.fold_drains [OF reclaim_handle_owner])
    fix k assume "local_owner r pid k"
    then show "k \<in> set (owned_by pid (rt_local_owners r))"
      by (intro owned_by_complete) (simp add: local_owner_def owns_local_def)
  qed
  then show ?thesis by (simp add: local_owner_def)
qed

lemma reclaim_all_regions:
  "\<not> owns_shared (foldl (reclaim_region ho facts pid) r
      (map snd (filter (\<lambda>k. fst k = SharedRegion) (owned_by pid (rt_shared_owners r))))) pid SharedRegion i"
proof -
  have "owns_shared (foldl (reclaim_region ho facts pid) r js) pid SharedRegion i \<longleftrightarrow>
      owns_shared r pid SharedRegion i \<and> i \<notin> set js" for js
  proof (induction js arbitrary: r)
    case (Cons j js)
    show ?case
      using Cons.IH [of "reclaim_region ho facts pid r j"]
        resources.owner_release [of pid "(SharedRegion, j)" r pid "(SharedRegion, i)"]
      by (auto simp: shared_owner_def owns_shared_def reclaim_region_owners)
  qed simp
  then show ?thesis using owned_by_complete [of pid "rt_shared_owners r" "(SharedRegion, i)"]
    by (force simp: owns_shared_def)
qed

lemma cleanup_steps:
  assumes "cleanup_process_resources ho pid tenant r = (Ok u, r')"
  obtains r2 r3 r4 r6 r8 region_facts queue_facts uri where
    "publish_discovery_event ho (Revoke uri) (forget_process pid r) = (Ok (), r2)"
    "for_each (revoke_region ho) (keys_of pid (rt_region_tenants r2)) [] r2 = (Ok region_facts, r3)"
    "publish_discovery_event ho (RevokeByOwner pid) r3 = (Ok (), r4)"
    "for_each (revoke_queue ho) (keys_of pid (rt_queue_tenants r4)) []
       (r4\<lparr>rt_registrations := (rt_registrations r4)(pid := None)\<rparr>) = (Ok queue_facts, r6)"
    "r8 = foldl (reclaim_handle queue_facts pid) (r6\<lparr>rt_handlers := AList.delete pid (rt_handlers r6)\<rparr>)
         (owned_by pid (rt_local_owners r6))"
    "r' = foldl (reclaim_region ho region_facts pid) r8
         (map snd (filter (\<lambda>k. fst k = SharedRegion) (owned_by pid (rt_shared_owners r8))))"
proof -
  show thesis
    using assms unfolding cleanup_process_resources_def bind_Ok_iff
    by clarsimp (rule that, assumption+, simp_all)
qed

lemma publish_kept:
  fixes r :: "('a, 'b, 'c, 'd) runtime"
  assumes "publish_discovery_event ho req r = (x, r')"
  shows "other_tables r' = other_tables r" "rt_region_tenants r' = rt_region_tenants r"
    "rt_queue_tenants r' = rt_queue_tenants r"
proof -
  have k: "keeps other_tables (publish_discovery_event ho req :: (('a, 'b, 'c, 'd) runtime, _, _) comp)"
    "keeps rt_region_tenants (publish_discovery_event ho req :: (('a, 'b, 'c, 'd) runtime, _, _) comp)"
    "keeps rt_queue_tenants (publish_discovery_event ho req :: (('a, 'b, 'c, 'd) runtime, _, _) comp)"
    by (rule publish_keeps, simp add: other_tables_def)+
  show "other_tables r' = other_tables r" by (rule keeps_run [OF k(1) assms])
  show "rt_region_tenants r' = rt_region_tenants r" by (rule keeps_run [OF k(2) assms])
  show "rt_queue_tenants r' = rt_queue_tenants r" by (rule keeps_run [OF k(3) assms])
qed

lemma loops_kept:
  "for_each (revoke_region ho) ks a r = (x, r') \<Longrightarrow> other_tables r' = other_tables r"
  "for_each (revoke_queue ho) ks a r = (x, r') \<Longrightarrow> other_tables r' = other_tables r"
  "for_each (revoke_region ho) ks a r = (x, r') \<Longrightarrow> rt_queue_tenants r' = rt_queue_tenants r"
  "for_each (revoke_queue ho) ks a r = (x, r') \<Longrightarrow> rt_region_tenants r' = rt_region_tenants r"
  by (rule keeps_run [OF keeps_for_each [where f = other_tables and c = "revoke_region ho", OF revoke_keeps(1)]], assumption,
      rule keeps_run [OF keeps_for_each [where f = other_tables and c = "revoke_queue ho", OF revoke_keeps(2)]], assumption,
      rule keeps_run [OF keeps_for_each [where f = rt_queue_tenants and c = "revoke_region ho", OF revoke_keeps(3)]], assumption,
      rule keeps_run [OF keeps_for_each [where f = rt_region_tenants and c = "revoke_queue ho", OF revoke_keeps(4)]], assumption)

lemma cleanup_complete:
  assumes "cleanup_process_resources ho pid tenant r = (Ok u, r')"
  shows "holds_nothing pid r'"
proof -
  obtain r2 r3 r4 r6 r8 region_facts queue_facts uri where st:
    "publish_discovery_event ho (Revoke uri) (forget_process pid r) = (Ok (), r2)"
    "for_each (revoke_region ho) (keys_of pid (rt_region_tenants r2)) [] r2 = (Ok region_facts, r3)"
    "publish_discovery_event ho (RevokeByOwner pid) r3 = (Ok (), r4)"
    "for_each (revoke_queue ho) (keys_of pid (rt_queue_tenants r4)) []
       (r4\<lparr>rt_registrations := (rt_registrations r4)(pid := None)\<rparr>) = (Ok queue_facts, r6)"
    "r8 = foldl (reclaim_handle queue_facts pid) (r6\<lparr>rt_handlers := AList.delete pid (rt_handlers r6)\<rparr>)
       (owned_by pid (rt_local_owners r6))"
    "r' = foldl (reclaim_region ho region_facts pid) r8
       (map snd (filter (\<lambda>k. fst k = SharedRegion) (owned_by pid (rt_shared_owners r8))))"
    by (rule cleanup_steps [OF assms])
  have tables: "tables_view r' = tables_view r6"
    unfolding st(5,6) by simp (simp add: views)
  have others: "(rt_attachments r6, rt_quota_tenants r6) = (rt_attachments r2, rt_quota_tenants r2)"
    using loops_kept(1) [OF st(2)] publish_kept(1) [OF st(3)] loops_kept(2) [OF st(4)] by (simp add: other_tables_def)
  have forgot: "(rt_attachments r2, rt_quota_tenants r2) =
      (rt_attachments (forget_process pid r), rt_quota_tenants (forget_process pid r))"
    using publish_kept(1) [OF st(1)] by (simp add: other_tables_def)
  have "keys_of pid (rt_region_tenants r3) = []"
    using revoke_all(1) [OF st(2)]
    unfolding keys_of_empty set_keys_of by blast
  moreover have "rt_region_tenants r6 = rt_region_tenants r3"
    using publish_kept(2) [OF st(3)] loops_kept(4) [OF st(4)] by simp
  moreover have "keys_of pid (rt_queue_tenants r6) = []"
    using revoke_all(2) [OF st(4)]
    unfolding keys_of_empty set_keys_of by simp
  moreover have "\<not> owns_local r8 pid cl i" for cl i
    using reclaim_all_handles [of queue_facts pid "r6\<lparr>rt_handlers := AList.delete pid (rt_handlers r6)\<rparr>"]
    unfolding st(5) by simp
  then have "\<not> owns_local r' pid cl i" for cl i unfolding st(6) owns_local_def by simp
  moreover have "\<not> owns_shared r' pid SharedRegion i" for i unfolding st(6) by (rule reclaim_all_regions)
  ultimately show ?thesis
    using tables others forgot forget_process_effect(2,3) [of pid r]
    by (simp add: holds_nothing_def tables_view_def)
qed

section \<open>Stopping a process\<close>

lemma same_processes: "r = r\<lparr>rt_processes := rt_processes r\<rparr>"
  by (cases r) simp

lemma kernel_stop_frame:
  "kernel_stop pid r = (x, r') \<Longrightarrow> \<exists>t. r' = r\<lparr>rt_processes := t\<rparr>"
  by (auto simp: kernel_stop_def on_processes_def split: prod.splits sum.splits if_splits)

lemma kernel_reap_effect:
  "kernel_reap pid r = (x, r') \<Longrightarrow>
    x = Ok () \<and> (\<exists>t. r' = r\<lparr>rt_processes := t\<rparr>) \<and> pt_processes (rt_processes r') pid = None"
  by (auto simp: kernel_reap_def on_processes_def reap_process_def process_not_found_def
      split: prod.splits sum.splits if_splits option.splits kernel_error.splits intro: same_processes)

lemma holds_nothing_kept [simp]:
  "holds_nothing pid (r\<lparr>rt_processes := t\<rparr>) = holds_nothing pid r"
  "holds_nothing pid (r\<lparr>rt_discovery := d\<rparr>) = holds_nothing pid r"
  by (simp_all add: holds_nothing_def owns_local_def owns_shared_def)

lemma holds_nothing_drop: "holds_nothing pid r \<Longrightarrow> holds_nothing pid (drop_process_handle pid r)"
  by (auto simp: holds_nothing_def drop_process_handle_def owns_local_def owns_shared_def owners_of_def
      delete_conv' split: option.splits if_splits)

lemma teardown_effect:
  assumes "map_of (rt_auths r) pid = Some a"
  shows "case teardown ho pid r of
      (Ok _, r') \<Rightarrow> holds_nothing pid r' \<and> map_of (rt_auths r') pid = None \<and> rt_guests r' = rt_guests r \<and>
        rt_mailboxes r' pid = None \<and> (\<forall>entry\<in>set (rt_ops r'). op_process (snd entry) \<noteq> pid)
    | (Err _, r') \<Rightarrow> map_of (rt_auths r') pid = Some a"
proof -
  let ?r = "(drop_operations pid (r\<lparr>rt_auths := AList.delete pid (rt_auths r)\<rparr>))\<lparr>rt_mailboxes :=
      (rt_mailboxes r)(pid := None)\<rparr>"
  obtain x r' where run: "cleanup_process_resources ho pid (pa_tenant a) ?r = (x, r')" by fastforce
  have view: "stopped_view r' = stopped_view ?r" by (rule keeps_run [OF cleanup_views run])
  show ?thesis
  proof (cases x)
    case (Inl e)
    then show ?thesis using assms run by (simp add: teardown_def update_conv')
  next
    case (Inr u)
    then have "teardown ho pid r = (Ok (), r')" using assms run by (simp add: teardown_def)
    moreover have "holds_nothing pid r'" using cleanup_complete run Inr by blast
    ultimately show ?thesis using view
      by (auto simp: stopped_view_def drop_operations_def delete_conv')
  qed
qed

lemma stop_effect:
  assumes "map_of (rt_auths r) pid = Some a"
  shows "case stop_process ho pid r of
      (Ok _, r') \<Rightarrow> holds_nothing pid r' \<and> map_of (rt_auths r') pid = None \<and> map_of (rt_guests r') pid = None \<and>
        rt_mailboxes r' pid = None \<and> (\<forall>entry\<in>set (rt_ops r'). op_process (snd entry) \<noteq> pid) \<and>
        rt_discovery r' \<noteq> Some pid \<and> pt_processes (rt_processes r') pid = None
    | (Err _, r') \<Rightarrow> map_of (rt_auths r') pid = Some a"
proof -
  obtain x r1 where stop: "kernel_stop pid r = (x, r1)" by fastforce
  then have auths: "rt_auths r1 = rt_auths r" using kernel_stop_frame by fastforce
  show ?thesis
  proof (cases x)
    case (Inl e)
    then show ?thesis using stop auths assms by (simp add: stop_process_def)
  next
    case (Inr u)
    let ?r2 = "r1\<lparr>rt_guests := AList.delete pid (rt_guests r1)\<rparr>"
    obtain y r3 where down: "teardown ho pid ?r2 = (y, r3)" by fastforce
    have effect: "case teardown ho pid ?r2 of
        (Ok _, r') \<Rightarrow> holds_nothing pid r' \<and> map_of (rt_auths r') pid = None \<and> rt_guests r' = rt_guests ?r2 \<and>
          rt_mailboxes r' pid = None \<and> (\<forall>entry\<in>set (rt_ops r'). op_process (snd entry) \<noteq> pid)
      | (Err _, r') \<Rightarrow> map_of (rt_auths r') pid = Some a"
      by (rule teardown_effect) (simp add: auths assms)
    show ?thesis
    proof (cases y)
      case (Inl e)
      then show ?thesis using stop Inr down effect by (simp add: stop_process_def)
    next
      case torn: (Inr v)
      let ?r4 = "drop_process_handle pid r3"
      let ?r5 = "if rt_discovery ?r4 = Some pid then ?r4\<lparr>rt_discovery := None\<rparr> else ?r4"
      obtain z r6 where reap: "kernel_reap pid ?r5 = (z, r6)" by fastforce
      then obtain t where r6: "z = Ok ()" "r6 = ?r5\<lparr>rt_processes := t\<rparr>" "pt_processes (rt_processes r6) pid = None"
        using kernel_reap_effect by blast
      have "stop_process ho pid r = (Ok (), r6)"
        using stop Inr down torn reap r6(1) by (simp add: stop_process_def)
      moreover have "holds_nothing pid r3" using effect down torn by simp
      then have "holds_nothing pid r6" using holds_nothing_drop r6(2) by auto
      ultimately show ?thesis
        using effect down torn r6 by (auto simp: drop_process_handle_def delete_conv')
    qed
  qed
qed



end
