(* ===== verification/Runtime_Properties.thy ===== *)
theory Runtime_Properties
  imports Mediation Operation_Ids Teardown
begin

text \<open>
  Properties that span the runtime's components: the identity of the discovery service across a spawn,
  and the two ways in which a receiver takes a connection from its listener queue
  (\<^verbatim>\<open>crates/runtime/src/hostcall.rs\<close>, \<^verbatim>\<open>crates/runtime/src/bootstrap.rs\<close>).
\<close>

section \<open>Connections queued by the kernel\<close>

lemma release_queue_item_owners [simp]: "rt_shared_owners (release_queue_item q r) = rt_shared_owners r"
  by (simp add: release_queue_item_def release_quota_def split: option.split)

lemma owns_shared_cong: "rt_shared_owners r = rt_shared_owners r' \<Longrightarrow> owns_shared r p c i = owns_shared r' p c i"
  by (simp add: owns_shared_def)

lemma set_operation_owners [simp]: "rt_shared_owners (set_operation i st r) = rt_shared_owners r"
  by (simp add: set_operation_def split: option.split)

text \<open>How a receiver comes by a connection decides whether it can use it.  An accepted connection is
  queued by the kernel as process 0.  A receive that finds the item already queued returns the
  connection but does not make the receiver an owner of its region; polling a receive that was waiting
  returns the same connection and does.\<close>

theorem queued_connection_is_not_claimed:
  assumes queue: "hq_local (rt_queues r) local = Some q" "hq_queues (rt_queues r) q = Some ((0, v, metadata) # items)"
    and allowed: "owns_local r pid HostQueueClass local" "require (rt_auths r) pid HostQueue HostQueueClass (Some (SharedId q)) = Ok ()"
    and fresh: "\<not> owns_shared r 0 SharedRegion v" "\<not> owns_shared r pid SharedRegion v"
  shows "fst (host_queue_recv_call ho now pid local r) = Ok (ReadyState (ConnectionInfoOut 0 v metadata)) \<and>
    \<not> owns_shared (snd (host_queue_recv_call ho now pid local r)) pid SharedRegion v \<and>
    fst (poll_receive ho now pid ident local deadline r) = CompletedReady (ConnectionInfoOut 0 v metadata) \<and>
    owns_shared (snd (poll_receive ho now pid ident local deadline r)) pid SharedRegion v"
proof -
  let ?r = "r\<lparr>rt_queues := (rt_queues r)\<lparr>hq_queues := (hq_queues (rt_queues r))(q \<mapsto> items)\<rparr>\<rparr>"
  have recv: "on_queues (try_host_queue_recv local) r = (Ok (Some (0, v, metadata)), ?r)"
    using queue by (simp add: on_queues_def try_host_queue_recv_def host_queue_shared_id_def queue_entries_def ok_or_def)
  have same: "transfer_region_ownership_on_recv ho pid 0 v (release_queue_item i ?r) = release_queue_item i ?r" for i
    using fresh(1) by (simp add: transfer_region_ownership_on_recv_def owns_shared_def)
  have "host_queue_recv_call ho now pid local r =
      (Ok (ReadyState (ConnectionInfoOut 0 v metadata)), release_queue_item q ?r)"
    using queue(1) allowed recv same
    by (simp add: host_queue_recv_call_def ensure_local_handle_owner_def requireR_def host_queue_shared_id_def
        ok_or_def ready_def)
  moreover have "fst (poll_receive ho now pid ident local deadline r) = CompletedReady (ConnectionInfoOut 0 v metadata)"
    using recv by (simp add: poll_receive_def Let_def)
  moreover have "owns_shared (snd (poll_receive ho now pid ident local deadline r)) pid SharedRegion v"
    using recv same
    by (simp add: poll_receive_def deliver_item_def owns_shared_def claim_shared_resource_def Let_def
        owners_of_def claim_owner_def update_conv')
  ultimately show ?thesis using fresh(2) by (simp add: owns_shared_def)
qed

theorem queued_connection_is_not_claimed_witness:
  "\<not> owns_shared (snd (host_queue_recv_call sample_host 0 5 1 sample_runtime)) 5 SharedRegion 77 \<and>
   owns_shared (snd (poll_receive sample_host 0 5 1 1 0 sample_runtime)) 5 SharedRegion 77"
proof -
  have "owns_local sample_runtime 5 HostQueueClass 1" "\<not> owns_shared sample_runtime p SharedRegion 77" for p
    by (simp_all add: sample_runtime_def runtime_new_def owns_local_def owns_shared_def owners_of_def)
  moreover have "require (rt_auths sample_runtime) 5 HostQueue HostQueueClass (Some (SharedId 9)) = Ok ()"
    by (simp add: require_def authorises_def sample_runtime_def sample_authority_def)
  ultimately show ?thesis
    using queued_connection_is_not_claimed [of sample_runtime 1 9 77 "[]" "[]" 5 sample_host 0 1 0]
    by (simp add: sample_runtime_def)
qed

section \<open>The identity of the discovery service\<close>

lemma register_node_discovery: "keeps rt_discovery (register_process_node ho pid tenant)"
  unfolding register_process_node_def Let_def by (rule publish_keeps) simp

lemma node_step_discovery:
  assumes "(case register_process_node ho pid tenant r of
      (Ok _, r') \<Rightarrow> (Ok (), r') | (Err e, r') \<Rightarrow> give_up ho pid e r') = (Ok u, t)"
  shows "rt_discovery t = rt_discovery r"
proof (cases "register_process_node ho pid tenant r")
  case (Pair x r1)
  then show ?thesis using assms keeps_run [OF register_node_discovery Pair]
    by (cases x) (auto simp: give_up_def)
qed

lemma spawn_discovery:
  assumes "spawn_system_guest ho minute d r = (Ok child, r')" "sg_name d = ''discovery''"
  shows "rt_discovery r' = Some child"
proof -
  obtain r1 r2 where "(case register_process_node ho child (sg_tenant d) (r1\<lparr>rt_discovery := Some child\<rparr>) of
        (Ok _, r') \<Rightarrow> (Ok (), r') | (Err e, r') \<Rightarrow> give_up ho child e r') = (Ok (), r2)"
      "rt_discovery r' = rt_discovery r2"
    using assms unfolding spawn_system_guest_def bind_Ok_iff run_steps run_ret prod.inject sum.inject
    by (elim exE conjE) (auto split: if_splits)
  from node_step_discovery [OF this(1)] this(2) show ?thesis by simp
qed

lemma spawn_charged_Ok:
  "spawn_charged ho minute tenant d r = (Ok child, r') \<longleftrightarrow> spawn_system_guest ho minute d r = (Ok child, r')"
  by (auto simp: spawn_charged_def split: prod.splits sum.splits)

lemma adopt_child_effect:
  "rt_discovery (adopt_child pid child tenant r) = rt_discovery r"
  "owns_local (adopt_child pid child tenant r) pid ProcessClass child"
  by (simp_all add: adopt_child_def Let_def claim_local_handle_def owns_local_def split: option.split)

text \<open>C22. The discovery service is recognised by the name of its module.  A process that may start
  processes and starts a module registered under the name \<open>discovery\<close> replaces the discovery service:
  when the start succeeds, reports of resolved resources are from then on accepted from its new child
  and from no one else, whatever process was the discovery service before.\<close>

theorem started_module_becomes_discovery:
  assumes "dispatch_hostcall ho inp pid (ProcessStart ''discovery'' entry arguments grants tenant) r = (Ok out, r')"
  shows "\<exists>child. rt_discovery r' = Some child \<and> owns_local r' pid ProcessClass child"
proof -
  obtain d t child r1 r2 where "spawn_system_guest ho (in_minute inp) d r1 = (Ok child, r2)"
      "sg_name d = ''discovery''" "r' = adopt_child pid child t r2"
    using assms unfolding dispatch_hostcall_def handle_hostcall.simps process_start_def bind_Ok_iff
    by (auto simp: spawn_charged_Ok ready_def elim!: map_err_OkE)
  then show ?thesis using spawn_discovery adopt_child_effect by metis
qed

text \<open>On the sample host a spawn goes through.\<close>

lemma probe_empty: "\<not> multithreaded (probe [])"
  by (simp add: probe_def section_cursor_def multithreaded_def)

lemma sample_spawn:
  assumes "validate_grants (sg_grants d) = Ok ()" "sg_bytes d = []" "rt_modules r (sg_module d) = Some []"
    "rt_publisher r = None"
  shows "\<exists>child r'. spawn_system_guest sample_host minute d r = (Ok child, r') \<and>
    pt_processes (rt_processes r') child \<noteq> None"
proof -
  obtain desc t where start: "start_process (sg_module d) (sg_entrypoint d) (sg_grants d) (rt_processes r) = (desc, t)"
    by fastforce
  then have "pt_processes t (pd_local desc) \<noteq> None"
    by (auto simp: start_process_def record_activity_def Let_def split: prod.splits)
  then show ?thesis
    by (simp add: spawn_system_guest_def begin_guest_def start assms sample_host_def load_guest_def
        anchor_cpu_budget_def execute_entrypoint_def start_workers_def probe_empty register_module_bytes_def
        register_process_node_def publish_discovery_event_def record_process_fastpath_def claim_local_handle_def
        note_activity_def record_activity_def update_conv' Let_def)
qed

lemma sample_start_succeeds:
  "\<exists>out r'. dispatch_hostcall sample_host sample_inputs 5 (ProcessStart ''discovery'' ''main'' [] [] None)
     sample_runtime = (Ok out, r')"
proof -
  let ?d = "\<lparr>sg_name = ''discovery'', sg_module = ''discovery'', sg_bytes = [], sg_entrypoint = ''main'',
    sg_arguments = [], sg_grants = [], sg_dependencies = [], sg_readiness = Immediate, sg_tenant = Some ''acme'',
    sg_role = None, sg_handlers = []\<rparr>"
  have charge: "\<exists>q. charge_spawn (Some ''acme'') sample_runtime = (Ok (), sample_runtime\<lparr>rt_quota := q\<rparr>)"
    by (simp add: charge_spawn_def enforce_quota_def on_quota_def sample_runtime_def runtime_new_def quota_new_def
        try_consume_def default_quota_def quota_entry_def saturating_sub_def Let_def map_err_def)
  then obtain q where q: "charge_spawn (Some ''acme'') sample_runtime = (Ok (), sample_runtime\<lparr>rt_quota := q\<rparr>)" by blast
  obtain child r' where spawn: "spawn_system_guest sample_host 0 ?d (sample_runtime\<lparr>rt_quota := q\<rparr>) = (Ok child, r')"
      "pt_processes (rt_processes r') child \<noteq> None"
    using sample_spawn [of ?d "sample_runtime\<lparr>rt_quota := q\<rparr>" 0]
    by (auto simp: sample_runtime_def runtime_new_def)
  have auth: "map_of (rt_auths sample_runtime) 5 = Some sample_authority"
      "rt_modules sample_runtime ''discovery'' = Some []" "ho_arguments sample_host = (\<lambda>_. Some [])"
    by (simp_all add: sample_runtime_def sample_host_def)
  have guards: "require (rt_auths sample_runtime) 5 ProcessLifecycle ProcessClass None = Ok ()"
      "resolve_spawn_tenant (rt_auths sample_runtime) 5 None = Ok (Some ''acme'')"
      "validate_child_grants (rt_auths sample_runtime) 5 [] = Ok ()"
    using auth(1)
    by (simp_all add: require_def authorises_def sample_authority_def resolve_spawn_tenant_def process_tenant_def
        validate_child_grants_def confers_def delegation_scope_def)
  have "rt_processes (adopt_child 5 child (Some ''acme'') r') = rt_processes r'"
    by (simp add: adopt_child_def claim_local_handle_def Let_def)
  then have "\<exists>out. inspect_process (rt_processes (adopt_child 5 child (Some ''acme'') r')) child = Ok out"
    using spawn(2) by (auto simp: inspect_process_def)
  then show ?thesis
    using q spawn(1) guards auth
    by (auto simp: dispatch_hostcall_def process_start_def requireR_def module_bytes_def ok_or_def
        spawn_charged_def sample_inputs_def ready_def)
qed

theorem started_module_becomes_discovery_witness:
  "\<exists>child. rt_discovery (snd (dispatch_hostcall sample_host sample_inputs 5
      (ProcessStart ''discovery'' ''main'' [] [] None) sample_runtime)) = Some child"
proof -
  obtain out r' where "dispatch_hostcall sample_host sample_inputs 5
      (ProcessStart ''discovery'' ''main'' [] [] None) sample_runtime = (Ok out, r')"
    using sample_start_succeeds by blast
  from started_module_becomes_discovery [OF this] this show ?thesis by auto
qed

end
