(* ===== verification/Discovery_Store.thy ===== *)
theory Discovery_Store
  imports Hostcalls "HOL-Library.Char_ord" "HOL-Library.List_Lexorder"
begin

text \<open>
  The discovery guest (\<^verbatim>\<open>guests/discovery/src/lib.rs\<close>): the registry of addresses, its two sources of
  change (the runtime's feed and the requests of guests) and the requests it answers.  A hash map is an
  association list whose order stands for the iteration order, which the code does not fix; an ordered
  map is iterated in the order of its keys (\<open>btree_iter\<close>).  Reports to the runtime are returned as the
  hostcalls the guest makes.
\<close>

section \<open>The store\<close>

record discovery_store =
  ds_registrations :: "(string \<times> resource_target) list"
  ds_ownership :: "((u64 \<times> u64) \<times> resource_class) list"
  ds_aliases :: "(string \<times> string) list"
  ds_backrefs :: "(string \<times> string list) list"
  ds_labels :: "((string \<times> string) \<times> string list) list"
  ds_domains :: "(string \<times> string) list"
  ds_route_owners :: "(string \<times> u64) list"
  ds_root_services :: "(string \<times> string) list"

datatype discovery_response =
    Found resource_target
  | ResolvedTargets "resource_target list"
  | TargetNotFound
  | Registered
  | Revoked
  | Forbidden
  | Domains "(string \<times> string) list"

definition empty_store :: discovery_store where
  "empty_store = \<lparr>ds_registrations = [], ds_ownership = [], ds_aliases = [], ds_backrefs = [], ds_labels = [],
     ds_domains = [], ds_route_owners = [], ds_root_services = []\<rparr>"

abbreviation btree_iter :: "('k::linorder \<times> 'v) list \<Rightarrow> ('k \<times> 'v) list" where
  "btree_iter m \<equiv> sort_key fst m"

definition seed_domain :: "string \<Rightarrow> string \<Rightarrow> discovery_store \<Rightarrow> discovery_store" where
  "seed_domain domain tenant s = s\<lparr>ds_domains := AList.update (normalize_host domain) tenant (ds_domains s)\<rparr>"

definition index_label :: "string \<Rightarrow> ((string \<times> string) \<times> string list) list \<Rightarrow> string \<times> string \<Rightarrow>
    ((string \<times> string) \<times> string list) list" where
  "index_label uri index label =
    AList.update label (insort_insert uri (case map_of index label of None \<Rightarrow> [] | Some uris \<Rightarrow> uris)) index"

definition store_target :: "resource_target \<Rightarrow> u64 option \<Rightarrow> discovery_store \<Rightarrow> discovery_store" where
  "store_target target owner s =
    (let s1 = (case owner of
           None \<Rightarrow> s
         | Some pid \<Rightarrow> s\<lparr>ds_ownership := AList.update (pid, tg_resource target) (tg_class target) (ds_ownership s),
                          ds_route_owners := AList.update (tg_uri target) pid (ds_route_owners s)\<rparr>);
         s2 = (if parse_typed (tg_uri target) = None then s1
               else s1\<lparr>ds_labels := foldl (index_label (tg_uri target)) (ds_labels s1) (tg_labels target)\<rparr>)
     in s2\<lparr>ds_registrations := AList.update (tg_uri target) target (ds_registrations s2)\<rparr>)"

section \<open>Revocation\<close>

definition revoke_alias :: "string \<Rightarrow> discovery_store \<Rightarrow> discovery_store" where
  "revoke_alias alias s =
    (let s1 = (case map_of (ds_aliases s) alias of
           None \<Rightarrow> s
         | Some canonical \<Rightarrow>
             let s0 = s\<lparr>ds_aliases := AList.delete alias (ds_aliases s)\<rparr>
             in (case map_of (ds_backrefs s) canonical of
                  None \<Rightarrow> s0
                | Some refs \<Rightarrow>
                    let kept = filter (\<lambda>a. a \<noteq> alias) refs
                    in s0\<lparr>ds_backrefs := if kept = [] then AList.delete canonical (ds_backrefs s)
                                        else AList.update canonical kept (ds_backrefs s)\<rparr>))
     in s1\<lparr>ds_registrations := AList.delete alias (ds_registrations s1),
           ds_route_owners := AList.delete alias (ds_route_owners s1),
           ds_root_services := filter (\<lambda>(_, uri). uri \<noteq> alias) (ds_root_services s1)\<rparr>)"

definition cascade :: "string \<Rightarrow> discovery_store \<Rightarrow> discovery_store" where
  "cascade key s =
    (let s1 = s\<lparr>ds_registrations := AList.delete key (ds_registrations s)\<rparr>
     in case map_of (ds_backrefs s1) key of
          None \<Rightarrow> s1
        | Some aliases \<Rightarrow> fold revoke_alias aliases (s1\<lparr>ds_backrefs := AList.delete key (ds_backrefs s1)\<rparr>))"

definition forget_resource :: "resource_target option \<Rightarrow> discovery_store \<Rightarrow> discovery_store" where
  "forget_resource removed s =
    (case removed of
       None \<Rightarrow> s
     | Some target \<Rightarrow>
         if list_ex (\<lambda>(_, t). tg_resource t = tg_resource target) (ds_registrations s) then s
         else s\<lparr>ds_ownership := filter (\<lambda>((_, rid), _). rid \<noteq> tg_resource target) (ds_ownership s)\<rparr>)"

definition revoke_key :: "string \<Rightarrow> discovery_store \<Rightarrow> discovery_store" where
  "revoke_key key s =
    (let s2 = cascade key s;
         s3 = s2\<lparr>ds_labels := filter (\<lambda>(_, uris). uris \<noteq> [])
                                (map (\<lambda>(label, uris). (label, removeAll key uris)) (ds_labels s2)),
                 ds_root_services := filter (\<lambda>(_, uri). uri \<noteq> key) (ds_root_services s2)\<rparr>;
         s4 = forget_resource (map_of (ds_registrations s) key) s3
     in s4\<lparr>ds_route_owners := AList.delete key (ds_route_owners s4)\<rparr>)"

definition revoke_owned :: "string \<Rightarrow> discovery_store \<Rightarrow> discovery_store" where
  "revoke_owned key s = (if map_of (ds_aliases s) key \<noteq> None then revoke_alias key s else revoke_key key s)"

definition revoke_by_owner :: "u64 \<Rightarrow> discovery_store \<Rightarrow> discovery_store" where
  "revoke_by_owner pid s =
    fold revoke_owned (map fst (filter (\<lambda>(_, owner). owner = pid) (ds_route_owners s))) s"

definition apply_tier1_event :: "discovery_request \<Rightarrow> discovery_store \<Rightarrow> discovery_store" where
  "apply_tier1_event request s =
    (case request of
       Register _ target owner _ \<Rightarrow> store_target target owner s
     | Revoke uri \<Rightarrow> revoke_key uri s
     | RevokeByOwner pid \<Rightarrow> revoke_by_owner pid s
     | SeedDomain domain tenant \<Rightarrow> seed_domain domain tenant s
     | _ \<Rightarrow> s)"

section \<open>Resolution\<close>

definition tenant_admits :: "string option \<Rightarrow> string option \<Rightarrow> bool" where
  "tenant_admits caller target \<longleftrightarrow>
    (case (caller, target) of (Some c, Some t) \<Rightarrow> c = t | _ \<Rightarrow> True)"

definition resolve_internal :: "discovery_store \<Rightarrow> string \<Rightarrow> string option \<Rightarrow> resource_target option" where
  "resolve_internal s uri caller =
    (case map_of (ds_registrations s) uri of
       Some target \<Rightarrow> if tenant_admits caller (tg_tenant target) then Some target else None
     | None \<Rightarrow>
         (case map_of (ds_aliases s) uri of
            None \<Rightarrow> None
          | Some canonical \<Rightarrow>
              (case map_of (ds_registrations s) canonical of
                 None \<Rightarrow> None
               | Some target \<Rightarrow> if tenant_admits caller (tg_tenant target) then Some target else None)))"

definition internal_uri :: "string \<Rightarrow> string list \<Rightarrow> string" where
  "internal_uri tenant path = SEL_PREFIX @ tenant @ ''/'' @ join ''/'' path"

definition resolve_exact :: "discovery_store \<Rightarrow> string \<Rightarrow> string option \<Rightarrow> resource_target option" where
  "resolve_exact s uri caller =
    (case resolve_internal s uri caller of
       Some target \<Rightarrow> Some target
     | None \<Rightarrow>
         if parse_sel uri \<noteq> None then None
         else (case resolve_wire_name uri (map_of (ds_domains s)) of
           None \<Rightarrow> None
         | Some (tenant, path) \<Rightarrow>
             if \<not> tenant_admits caller (Some tenant) then None
             else if path = [] then
               (case map_of (ds_root_services s) tenant of
                  None \<Rightarrow> None
                | Some root_service \<Rightarrow> resolve_internal s root_service caller)
             else resolve_internal s (internal_uri tenant path) caller))"

definition resolve_prefix :: "discovery_store \<Rightarrow> string \<Rightarrow> string option \<Rightarrow> resource_target list" where
  "resolve_prefix s pattern caller =
    (case parse_sel pattern of
       None \<Rightarrow> []
     | Some (tenant, path) \<Rightarrow>
         (case wildcard_prefix path of
            None \<Rightarrow> []
          | Some base \<Rightarrow>
              sort_key tg_uri (map snd (filter (\<lambda>(key, target).
                (case parse_sel key of
                   None \<Rightarrow> False
                 | Some (target_tenant, target_path) \<Rightarrow>
                     target_tenant = tenant \<and> tenant_admits caller (tg_tenant target) \<and>
                     (if base = [] then parse_typed key \<noteq> None
                      else hd (split_on CHR ''/'' target_path) = base)))
                (btree_iter (ds_registrations s))))))"

definition resolve_labels :: "discovery_store \<Rightarrow> string \<Rightarrow> string \<Rightarrow> string option \<Rightarrow> resource_target list" where
  "resolve_labels s key v caller =
    (case map_of (ds_labels s) (key, v) of
       None \<Rightarrow> []
     | Some uris \<Rightarrow> filter (\<lambda>t. tenant_admits caller (tg_tenant t))
                      (List.map_filter (map_of (ds_registrations s)) uris))"

section \<open>Requests of guests\<close>

definition registration_uri ::
    "discovery_store \<Rightarrow> string \<Rightarrow> u64 \<Rightarrow> string option \<Rightarrow> bool \<Rightarrow> u64 \<Rightarrow> resource_class \<Rightarrow> string option" where
  "registration_uri s raw caller caller_tenant root_allowed rid class =
    (case (if parse_sel raw \<noteq> None then Some raw
           else case resolve_wire_name raw (map_of (ds_domains s)) of
             None \<Rightarrow> None
           | Some (domain_tenant, path) \<Rightarrow>
               if domain_tenant = [] \<and> \<not> root_allowed then None
               else if domain_tenant \<noteq> [] \<and> \<not> tenant_admits caller_tenant (Some domain_tenant) then None
               else if path = [] then None
               else Some (internal_uri domain_tenant path)) of
       None \<Rightarrow> None
     | Some uri \<Rightarrow>
         (case parse_sel uri of
            None \<Rightarrow> None
          | Some (tenant, path) \<Rightarrow>
              let leading = hd (split_on CHR ''/'' path)
              in if tenant = [] \<and> \<not> root_allowed then None
                 else if \<not> tenant_admits caller_tenant (Some tenant) then None
                 else if leading = [] \<or> is_class_segment leading then None
                 else if map_of (ds_ownership s) (caller, rid) \<noteq> Some class then None
                 else Some uri))"

definition apply_register ::
    "u64 \<Rightarrow> string option \<Rightarrow> resource_target \<Rightarrow> bool \<Rightarrow> bool \<Rightarrow> discovery_store \<Rightarrow>
     discovery_response \<times> discovery_store" where
  "apply_register caller caller_tenant target root_allowed root_service s =
    (case registration_uri s (tg_uri target) caller caller_tenant root_allowed (tg_resource target) (tg_class target) of
       None \<Rightarrow> (Forbidden, s)
     | Some uri \<Rightarrow>
         let (tenant, path) = the (parse_sel uri);
             canonical = resource_uri tenant (tg_class target) (tg_resource target);
             leaf = CHR ''/'' \<notin> set path
         in if leaf \<and> map_of (ds_registrations s) canonical = None then (TargetNotFound, s)
            else
              let s1 = (if \<not> leaf then s
                        else let refs = (case map_of (ds_backrefs s) canonical of None \<Rightarrow> [] | Some rs \<Rightarrow> rs)
                          in s\<lparr>ds_aliases := AList.update uri canonical (ds_aliases s),
                               ds_backrefs := AList.update canonical (if uri \<in> set refs then refs else refs @ [uri])
                                 (ds_backrefs s)\<rparr>);
                  s2 = s1\<lparr>ds_registrations := AList.update uri (target\<lparr>tg_uri := uri\<rparr>) (ds_registrations s1),
                          ds_route_owners := AList.update uri caller (ds_route_owners s1)\<rparr>
              in (Registered, if root_service
                              then s2\<lparr>ds_root_services := AList.update tenant uri (ds_root_services s2)\<rparr> else s2))"

text \<open>A wire name is translated and the translated address, which is an internal one, is revoked by the
  same function; \<open>apply_revoke_internal\<close> is that function on an internal address.\<close>

definition apply_revoke_internal ::
    "u64 \<Rightarrow> string option \<Rightarrow> string \<Rightarrow> discovery_store \<Rightarrow> discovery_response \<times> discovery_store" where
  "apply_revoke_internal caller caller_tenant uri s =
    (if is_root_uri uri then (Forbidden, s)
     else (case map_of (ds_aliases s) uri of
       Some canonical \<Rightarrow>
         (case parse_alias uri of
            None \<Rightarrow> (TargetNotFound, s)
          | Some (tenant, _) \<Rightarrow>
              if \<not> tenant_admits caller_tenant (Some tenant) then (Forbidden, s)
              else (case parse_typed canonical of
                None \<Rightarrow> (TargetNotFound, s)
              | Some (_, class, rid) \<Rightarrow>
                  if map_of (ds_ownership s) (caller, rid) \<noteq> Some class then (Forbidden, s)
                  else (Revoked, revoke_alias uri s)))
     | None \<Rightarrow>
         (case parse_sel uri of
            None \<Rightarrow> (TargetNotFound, s)
          | Some (tenant, path) \<Rightarrow>
              if is_class_segment (hd (split_on CHR ''/'' path)) then (Forbidden, s)
              else if \<not> tenant_admits caller_tenant (Some tenant) then (Forbidden, s)
              else (case map_of (ds_registrations s) uri of
                None \<Rightarrow> (TargetNotFound, s)
              | Some target \<Rightarrow>
                  if map_of (ds_ownership s) (caller, tg_resource target) \<noteq> Some (tg_class target) then (Forbidden, s)
                  else (Revoked, revoke_key uri s)))))"

definition apply_revoke ::
    "u64 \<Rightarrow> string option \<Rightarrow> string \<Rightarrow> discovery_store \<Rightarrow> discovery_response \<times> discovery_store" where
  "apply_revoke caller caller_tenant uri s =
    (if parse_sel uri \<noteq> None then apply_revoke_internal caller caller_tenant uri s
     else case resolve_wire_name uri (map_of (ds_domains s)) of
       Some (tenant, path) \<Rightarrow>
         if path \<noteq> [] then apply_revoke_internal caller caller_tenant (internal_uri tenant path) s
         else (TargetNotFound, s)
     | None \<Rightarrow> (TargetNotFound, s))"

definition domain_entries :: "discovery_store \<Rightarrow> (string \<times> string) list" where
  "domain_entries s = btree_iter (ds_domains s)"

definition ingest_interface_metadata ::
    "string \<Rightarrow> string \<times> string list \<Rightarrow> discovery_store \<Rightarrow> bool \<times> discovery_store" where
  "ingest_interface_metadata uri metadata s =
    (case map_of (ds_registrations s) uri of
       None \<Rightarrow> (False, s)
     | Some target \<Rightarrow> (True, s\<lparr>ds_registrations :=
         AList.update uri (target\<lparr>tg_interface := Some metadata\<rparr>) (ds_registrations s)\<rparr>))"

definition denied_response :: "discovery_request \<Rightarrow> discovery_response" where
  "denied_response request =
    (case request of
       Resolve _ \<Rightarrow> TargetNotFound
     | ResolvePrefix _ \<Rightarrow> ResolvedTargets []
     | ResolveLabels _ _ \<Rightarrow> ResolvedTargets []
     | ListDomains \<Rightarrow> Domains []
     | _ \<Rightarrow> Forbidden)"

text \<open>One request of a client whose tenant the runtime has answered (\<open>scope = Some tenant\<close>) or failed to
  answer (\<open>None\<close>); \<open>held\<close> is the runtime's answer to the query for the system-registration capability.
  The result carries the reports made to the runtime.\<close>

definition serve_request ::
    "u64 \<Rightarrow> string option option \<Rightarrow> bool \<Rightarrow> discovery_request \<Rightarrow> discovery_store \<Rightarrow>
     (discovery_response \<times> hostcall_request list) \<times> discovery_store" where
  "serve_request client scope held request s =
    (case scope of
       None \<Rightarrow> ((denied_response request, []), s)
     | Some tenant \<Rightarrow>
         (case request of
            Resolve uri \<Rightarrow>
              (case resolve_exact s uri tenant of
                 None \<Rightarrow> ((TargetNotFound, []), s)
               | Some target \<Rightarrow>
                   ((Found target,
                     RecordResolvedQueueFor client (tg_resource target) #
                     (if tg_class target = SharedRegion then [RecordResolvedRegionFor client (tg_resource target)]
                      else [])), s))
          | ResolvePrefix pattern \<Rightarrow> ((ResolvedTargets (resolve_prefix s pattern tenant), []), s)
          | ResolveLabels key v \<Rightarrow> ((ResolvedTargets (resolve_labels s key v tenant), []), s)
          | Register _ target _ root_service \<Rightarrow>
              let root_allowed = ((is_root_uri (tg_uri target) \<or> parse_sel (tg_uri target) = None) \<and> held);
                  registered = registration_uri s (tg_uri target) client tenant root_allowed
                                 (tg_resource target) (tg_class target);
                  (response, s') = apply_register client tenant target root_allowed root_service s
              in ((response, case (response, registered) of
                     (Registered, Some uri) \<Rightarrow> [RecordRegistration client uri]
                   | _ \<Rightarrow> []), s')
          | Revoke uri \<Rightarrow> let (response, s') = apply_revoke client tenant uri s in ((response, []), s')
          | ListDomains \<Rightarrow> ((Domains (domain_entries s), []), s)
          | SeedDomain _ _ \<Rightarrow> ((Forbidden, []), s)
          | RevokeByOwner _ \<Rightarrow> ((Forbidden, []), s)))"

text \<open>The feed task and the request handlers share the store under one lock; an event is one turn of
  either.\<close>

datatype discovery_event =
    Feed discovery_request
  | Request u64 "string option option" bool discovery_request

definition discovery_step :: "discovery_event \<Rightarrow> discovery_store \<Rightarrow> discovery_store" where
  "discovery_step event s =
    (case event of
       Feed request \<Rightarrow> apply_tier1_event request s
     | Request client scope held request \<Rightarrow> snd (serve_request client scope held request s))"

end
