(* ===== verification/Discovery_Correct.thy ===== *)
theory Discovery_Correct
  imports Discovery_Store
begin

text \<open>
  What the discovery store guarantees: the invariant that ties registrations, leaf aliases, their
  reverse index, route owners and root services together, the effect of a revocation, what a guest's
  request can change and what it can learn.
\<close>

section \<open>The effect of a revocation on each table\<close>

lemma alias_not_typed: "parse_alias a \<noteq> None \<Longrightarrow> parse_typed a = None"
  by (auto simp: parse_alias_def parse_typed_def split_once_Some_iff split: option.splits if_splits prod.splits)

named_theorems store_effects

lemma revoke_alias_effect [store_effects]:
  "map_of (ds_aliases (revoke_alias a s)) = (map_of (ds_aliases s))(a := None)"
  "map_of (ds_registrations (revoke_alias a s)) = (map_of (ds_registrations s))(a := None)"
  "map_of (ds_route_owners (revoke_alias a s)) = (map_of (ds_route_owners s))(a := None)"
  "set (ds_root_services (revoke_alias a s)) = {(t, u) \<in> set (ds_root_services s). u \<noteq> a}"
  "ds_ownership (revoke_alias a s) = ds_ownership s"
  "ds_domains (revoke_alias a s) = ds_domains s"
  "ds_labels (revoke_alias a s) = ds_labels s"
  by (auto simp: revoke_alias_def Let_def delete_conv' fun_upd_idem split: option.split)

lemma revoke_alias_backrefs:
  "map_of (ds_backrefs (revoke_alias a s)) c =
    (case map_of (ds_backrefs s) c of
       None \<Rightarrow> None
     | Some refs \<Rightarrow>
         if map_of (ds_aliases s) a \<noteq> Some c then Some refs
         else let kept = filter (\<lambda>b. b \<noteq> a) refs in if kept = [] then None else Some kept)"
  by (auto simp: revoke_alias_def Let_def delete_conv' update_conv' split: option.split)

lemma revoke_aliases_effect [store_effects]:
  "map_of (ds_aliases (fold revoke_alias as s)) = map_of (ds_aliases s) |` (- set as)"
  "map_of (ds_registrations (fold revoke_alias as s)) = map_of (ds_registrations s) |` (- set as)"
  "map_of (ds_route_owners (fold revoke_alias as s)) = map_of (ds_route_owners s) |` (- set as)"
  "set (ds_root_services (fold revoke_alias as s)) = {(t, u) \<in> set (ds_root_services s). u \<notin> set as}"
  "ds_ownership (fold revoke_alias as s) = ds_ownership s"
  "ds_domains (fold revoke_alias as s) = ds_domains s"
  by (induction as arbitrary: s) (auto simp: store_effects fun_eq_iff restrict_map_def)

definition aliases_of :: "string \<Rightarrow> discovery_store \<Rightarrow> string set" where
  "aliases_of key s = (case map_of (ds_backrefs s) key of None \<Rightarrow> {} | Some as \<Rightarrow> set as)"

lemma cascade_effect:
  "map_of (ds_aliases (cascade k s)) = map_of (ds_aliases s) |` (- aliases_of k s)"
  "map_of (ds_registrations (cascade k s)) = map_of (ds_registrations s) |` (- insert k (aliases_of k s))"
  "map_of (ds_route_owners (cascade k s)) = map_of (ds_route_owners s) |` (- aliases_of k s)"
  "set (ds_root_services (cascade k s)) = {(t, u) \<in> set (ds_root_services s). u \<notin> aliases_of k s}"
  "ds_ownership (cascade k s) = ds_ownership s" "ds_domains (cascade k s) = ds_domains s"
  by (cases "map_of (ds_backrefs s) k";
      force simp: cascade_def store_effects aliases_of_def delete_conv' fun_eq_iff restrict_map_def)+

lemma forget_resource_effect [simp]:
  "ds_aliases (forget_resource t s) = ds_aliases s" "ds_backrefs (forget_resource t s) = ds_backrefs s"
  "ds_registrations (forget_resource t s) = ds_registrations s" "ds_domains (forget_resource t s) = ds_domains s"
  "ds_route_owners (forget_resource t s) = ds_route_owners s" "ds_root_services (forget_resource t s) = ds_root_services s"
  by (simp_all add: forget_resource_def split: option.split)

lemma revoke_key_effect [store_effects]:
  "map_of (ds_aliases (revoke_key k s)) = map_of (ds_aliases s) |` (- aliases_of k s)"
  "map_of (ds_registrations (revoke_key k s)) = map_of (ds_registrations s) |` (- insert k (aliases_of k s))"
  "map_of (ds_route_owners (revoke_key k s)) = map_of (ds_route_owners s) |` (- insert k (aliases_of k s))"
  "set (ds_root_services (revoke_key k s)) = {(t, u) \<in> set (ds_root_services s). u \<notin> insert k (aliases_of k s)}"
  "ds_domains (revoke_key k s) = ds_domains s"
  "ds_backrefs (revoke_key k s) = ds_backrefs (cascade k s)"
  by (auto simp: revoke_key_def Let_def cascade_effect delete_conv' fun_eq_iff restrict_map_def)

section \<open>The invariant\<close>

text \<open>\<open>X\<close> is the set of canonical addresses whose removal is under way.\<close>

definition store_inv :: "string set \<Rightarrow> discovery_store \<Rightarrow> bool" where
  "store_inv X s \<longleftrightarrow>
    (\<forall>k t. map_of (ds_registrations s) k = Some t \<longrightarrow> tg_uri t = k) \<and>
    (\<forall>a c. map_of (ds_aliases s) a = Some c \<longrightarrow> c \<in> X \<or>
       (map_of (ds_registrations s) c \<noteq> None \<and> (\<exists>refs. map_of (ds_backrefs s) c = Some refs \<and> a \<in> set refs))) \<and>
    (\<forall>a c. map_of (ds_aliases s) a = Some c \<longrightarrow> parse_alias a \<noteq> None \<and> parse_typed c \<noteq> None) \<and>
    (\<forall>c refs. map_of (ds_backrefs s) c = Some refs \<longrightarrow>
       parse_typed c \<noteq> None \<and> refs \<noteq> [] \<and> distinct refs \<and> (\<forall>a\<in>set refs. parse_alias a \<noteq> None)) \<and>
    (\<forall>(t, u) \<in> set (ds_root_services s). u \<in> X \<or> map_of (ds_registrations s) u \<noteq> None) \<and>
    (\<forall>k p. map_of (ds_route_owners s) k = Some p \<longrightarrow> k \<in> X \<or> map_of (ds_registrations s) k \<noteq> None)"

abbreviation store_ok :: "discovery_store \<Rightarrow> bool" where "store_ok \<equiv> store_inv {}"

lemma store_invD:
  assumes "store_inv X s"
  shows "map_of (ds_registrations s) k = Some t \<Longrightarrow> tg_uri t = k"
    and "map_of (ds_aliases s) a = Some c \<Longrightarrow> parse_alias a \<noteq> None"
    and "map_of (ds_aliases s) a = Some c \<Longrightarrow> parse_typed c \<noteq> None"
    and "map_of (ds_aliases s) a = Some c \<Longrightarrow> c \<notin> X \<Longrightarrow> map_of (ds_registrations s) c \<noteq> None"
    and "map_of (ds_aliases s) a = Some c \<Longrightarrow> c \<notin> X \<Longrightarrow>
           \<exists>refs. map_of (ds_backrefs s) c = Some refs \<and> a \<in> set refs"
    and "map_of (ds_backrefs s) c = Some refs \<Longrightarrow>
           parse_typed c \<noteq> None \<and> refs \<noteq> [] \<and> distinct refs \<and> (\<forall>a\<in>set refs. parse_alias a \<noteq> None)"
    and "(t', u) \<in> set (ds_root_services s) \<Longrightarrow> u \<notin> X \<Longrightarrow> map_of (ds_registrations s) u \<noteq> None"
    and "map_of (ds_route_owners s) k = Some p \<Longrightarrow> k \<notin> X \<Longrightarrow> map_of (ds_registrations s) k \<noteq> None"
  using assms unfolding store_inv_def by blast+

lemma store_invI:
  assumes "\<And>k t. map_of (ds_registrations s) k = Some t \<Longrightarrow> tg_uri t = k"
    and "\<And>a c. map_of (ds_aliases s) a = Some c \<Longrightarrow> c \<notin> X \<Longrightarrow> map_of (ds_registrations s) c \<noteq> None"
    and "\<And>a c. map_of (ds_aliases s) a = Some c \<Longrightarrow> c \<notin> X \<Longrightarrow>
           \<exists>refs. map_of (ds_backrefs s) c = Some refs \<and> a \<in> set refs"
    and "\<And>a c. map_of (ds_aliases s) a = Some c \<Longrightarrow> parse_alias a \<noteq> None \<and> parse_typed c \<noteq> None"
    and "\<And>c refs. map_of (ds_backrefs s) c = Some refs \<Longrightarrow>
           parse_typed c \<noteq> None \<and> refs \<noteq> [] \<and> distinct refs \<and> (\<forall>a\<in>set refs. parse_alias a \<noteq> None)"
    and "\<And>t u. (t, u) \<in> set (ds_root_services s) \<Longrightarrow> u \<notin> X \<Longrightarrow> map_of (ds_registrations s) u \<noteq> None"
    and "\<And>k p. map_of (ds_route_owners s) k = Some p \<Longrightarrow> k \<notin> X \<Longrightarrow> map_of (ds_registrations s) k \<noteq> None"
  shows "store_inv X s"
  using assms unfolding store_inv_def by blast

lemma empty_store_ok: "store_ok empty_store"
  by (simp add: store_inv_def empty_store_def)

lemma revoke_alias_ok:
  assumes "store_inv X s" "parse_alias a \<noteq> None"
  shows "store_inv X (revoke_alias a s)"
proof (rule store_invI)
  note inv = store_invD [OF assms(1)]
  have typed: "parse_typed a = None" using alias_not_typed [OF assms(2)] .
  fix b c
  assume b: "map_of (ds_aliases (revoke_alias a s)) b = Some c"
  then have b': "b \<noteq> a" "map_of (ds_aliases s) b = Some c" by (auto simp: store_effects split: if_splits)
  then show "parse_alias b \<noteq> None \<and> parse_typed c \<noteq> None" using inv(2,3) by blast
  assume c: "c \<notin> X"
  have "c \<noteq> a" using inv(3) [OF b'(2)] typed by auto
  then show "map_of (ds_registrations (revoke_alias a s)) c \<noteq> None"
    using inv(4) [OF b'(2) c] by (simp add: store_effects)
  from inv(5) [OF b'(2) c] obtain refs where refs: "map_of (ds_backrefs s) c = Some refs" "b \<in> set refs" by blast
  then have kept: "b \<in> set (filter (\<lambda>b. b \<noteq> a) refs)" using b'(1) by simp
  then have "filter (\<lambda>b. b \<noteq> a) refs \<noteq> []" by (metis empty_iff empty_set)
  with refs kept show "\<exists>refs. map_of (ds_backrefs (revoke_alias a s)) c = Some refs \<and> b \<in> set refs"
    by (simp add: revoke_alias_backrefs Let_def)
next
  note inv = store_invD [OF assms(1)]
  fix c refs
  assume "map_of (ds_backrefs (revoke_alias a s)) c = Some refs"
  then obtain refs' where "map_of (ds_backrefs s) c = Some refs'"
    and "refs = refs' \<or> refs \<noteq> [] \<and> refs = filter (\<lambda>b. b \<noteq> a) refs'"
    by (simp add: revoke_alias_backrefs Let_def split: option.splits if_splits)
  with inv(6) [of c refs'] show
    "parse_typed c \<noteq> None \<and> refs \<noteq> [] \<and> distinct refs \<and> (\<forall>a\<in>set refs. parse_alias a \<noteq> None)" by auto
qed (use store_invD(1,7,8) [OF assms(1)] in \<open>auto simp: store_effects split: if_splits\<close>)

lemma revoke_aliases_ok:
  "store_inv X s \<Longrightarrow> \<forall>a\<in>set as. parse_alias a \<noteq> None \<Longrightarrow> store_inv X (fold revoke_alias as s)"
  by (induction as arbitrary: s) (auto intro: revoke_alias_ok)

lemma aliases_of_ok: "store_inv X s \<Longrightarrow> a \<in> aliases_of k s \<Longrightarrow> parse_alias a \<noteq> None"
  by (cases "map_of (ds_backrefs s) k") (simp_all add: aliases_of_def, drule (1) store_invD(6), simp)

lemma cascade_ok:
  assumes "store_ok s"
  shows "store_inv {k} (cascade k s)"
proof -
  let ?s = "s\<lparr>ds_registrations := AList.delete k (ds_registrations s), ds_backrefs := AList.delete k (ds_backrefs s)\<rparr>"
  note inv = store_invD [OF assms]
  have ok: "store_inv {k} ?s"
  proof (rule store_invI)
    fix a c assume "map_of (ds_aliases ?s) a = Some c"
    then have a: "map_of (ds_aliases s) a = Some c" by simp
    then show "parse_alias a \<noteq> None \<and> parse_typed c \<noteq> None" using inv(2,3) by blast
    assume "c \<notin> {k}"
    with inv(4,5) [OF a] show "map_of (ds_registrations ?s) c \<noteq> None"
      "\<exists>refs. map_of (ds_backrefs ?s) c = Some refs \<and> a \<in> set refs" by (simp_all add: delete_conv')
  next
    fix c rs assume "map_of (ds_backrefs ?s) c = Some rs"
    then have "map_of (ds_backrefs s) c = Some rs" by (simp add: delete_conv' split: if_splits)
    then show "parse_typed c \<noteq> None \<and> rs \<noteq> [] \<and> distinct rs \<and> (\<forall>a\<in>set rs. parse_alias a \<noteq> None)"
      by (rule inv(6))
  qed (use inv(1,7,8) in \<open>auto simp: delete_conv' split: if_splits\<close>)
  show ?thesis
  proof (cases "map_of (ds_backrefs s) k")
    case None
    then have "AList.delete k (ds_backrefs s) = ds_backrefs s" by (simp add: map_of_eq_None_iff delete_id)
    then have "cascade k s = ?s" using None by (simp add: cascade_def)
    with ok show ?thesis by simp
  next
    case (Some as)
    then have "\<forall>a\<in>set as. parse_alias a \<noteq> None"
      using aliases_of_ok [OF assms, where k = k] by (simp add: aliases_of_def)
    with ok have "store_inv {k} (fold revoke_alias as ?s)" by (rule revoke_aliases_ok)
    with Some show ?thesis by (simp add: cascade_def)
  qed
qed

lemma revoke_key_ok:
  assumes "store_ok s"
  shows "store_ok (revoke_key k s)"
proof (rule store_invI)
  note inv = store_invD [OF assms] and refs = store_invD [OF cascade_ok [OF assms]]
  fix a c
  assume "map_of (ds_aliases (revoke_key k s)) a = Some c"
  then have a: "map_of (ds_aliases s) a = Some c" "a \<notin> aliases_of k s"
    by (auto simp: store_effects restrict_map_def split: if_splits)
  then show "parse_alias a \<noteq> None \<and> parse_typed c \<noteq> None" using inv(2,3) by blast
  have c: "c \<noteq> k" using inv(5) [OF a(1)] a(2) by (auto simp: aliases_of_def)
  moreover have "c \<notin> aliases_of k s" using alias_not_typed [OF aliases_of_ok [OF assms]] inv(3) [OF a(1)] by auto
  ultimately show "map_of (ds_registrations (revoke_key k s)) c \<noteq> None"
    using inv(4) [OF a(1)] by (simp add: store_effects)
  show "\<exists>refs. map_of (ds_backrefs (revoke_key k s)) c = Some refs \<and> a \<in> set refs"
    using refs(5) [where a = a and c = c] a c by (simp add: revoke_key_effect cascade_effect)
next
  fix c rs
  assume "map_of (ds_backrefs (revoke_key k s)) c = Some rs"
  then show "parse_typed c \<noteq> None \<and> rs \<noteq> [] \<and> distinct rs \<and> (\<forall>a\<in>set rs. parse_alias a \<noteq> None)"
    unfolding revoke_key_effect by (rule store_invD(6) [OF cascade_ok [OF assms]])
next
  note inv = store_invD [OF assms]
  show "\<And>k' t. map_of (ds_registrations (revoke_key k s)) k' = Some t \<Longrightarrow> tg_uri t = k'"
    using inv(1) by (simp add: store_effects restrict_map_def split: if_splits)
  show "map_of (ds_registrations (revoke_key k s)) u \<noteq> None"
    if "(t, u) \<in> set (ds_root_services (revoke_key k s))" for t u
    using that inv(7) [of t u] by (simp add: store_effects)
  show "map_of (ds_registrations (revoke_key k s)) k' \<noteq> None"
    if "map_of (ds_route_owners (revoke_key k s)) k' = Some p" for k' p
    using that inv(8) [of k' p] by (simp add: store_effects restrict_map_def split: if_splits)
qed

lemma revoke_owned_ok: "store_ok s \<Longrightarrow> store_ok (revoke_owned k s)"
  using store_invD(2) [of "{}" s k] revoke_alias_ok [of "{}" s k] revoke_key_ok [of s k]
  by (cases "map_of (ds_aliases s) k") (simp_all add: revoke_owned_def)

lemma revoke_by_owner_ok:
  assumes "store_ok s"
  shows "store_ok (revoke_by_owner pid s)"
proof -
  have "store_ok t \<Longrightarrow> store_ok (fold revoke_owned ks t)" for ks t
    by (induction ks arbitrary: t) (auto intro: revoke_owned_ok)
  then show ?thesis using assms by (simp add: revoke_by_owner_def)
qed

lemma store_target_effect [store_effects]:
  "map_of (ds_registrations (store_target t owner s)) = (map_of (ds_registrations s))(tg_uri t \<mapsto> t)"
  "ds_aliases (store_target t owner s) = ds_aliases s"
  "ds_backrefs (store_target t owner s) = ds_backrefs s"
  "ds_root_services (store_target t owner s) = ds_root_services s"
  "map_of (ds_route_owners (store_target t owner s)) =
     (case owner of None \<Rightarrow> map_of (ds_route_owners s) | Some p \<Rightarrow> (map_of (ds_route_owners s))(tg_uri t \<mapsto> p))"
  by (auto simp: store_target_def Let_def update_conv' split: option.split)

lemma store_target_ok:
  assumes "store_ok s"
  shows "store_ok (store_target t owner s)"
proof (rule store_invI)
  note inv = store_invD [OF assms]
  let ?s = "store_target t owner s"
  show "map_of (ds_registrations ?s) k = Some t' \<Longrightarrow> tg_uri t' = k" for k t'
    using inv(1) by (auto simp: store_effects split: if_splits)
  show "map_of (ds_registrations ?s) k \<noteq> None" if "map_of (ds_route_owners ?s) k = Some p" for k p
    using that inv(8) by (auto simp: store_effects split: if_splits option.splits)
  show "(tn, u) \<in> set (ds_root_services ?s) \<Longrightarrow> map_of (ds_registrations ?s) u \<noteq> None" for tn u
    using inv(7) by (simp add: store_effects)
  show "map_of (ds_aliases ?s) a = Some c \<Longrightarrow> map_of (ds_registrations ?s) c \<noteq> None" for a c
    using inv(4) by (simp add: store_effects)
qed (unfold store_effects, (use store_invD [OF assms] in blast)+)

section \<open>What a registration requires\<close>

lemma parse_sel_tenant: "parse_sel uri = Some (tenant, path) \<Longrightarrow> CHR ''/'' \<notin> set tenant"
  by (auto simp: parse_sel_def split_once_Some_iff split_once_None_iff split: option.splits)

lemma registration_uri_Some:
  assumes "registration_uri s raw caller ct root_allowed rid class = Some uri"
  obtains tenant path where "parse_sel uri = Some (tenant, path)" "tenant_admits ct (Some tenant)"
    "tenant = [] \<longrightarrow> root_allowed" "hd (split_on CHR ''/'' path) \<noteq> []"
    "\<not> is_class_segment (hd (split_on CHR ''/'' path))" "map_of (ds_ownership s) (caller, rid) = Some class"
  using assms by (auto simp: registration_uri_def Let_def split: option.splits if_splits)

lemma leaf_is_alias:
  assumes "parse_sel uri = Some (tenant, path)" "hd (split_on CHR ''/'' path) \<noteq> []"
    "\<not> is_class_segment (hd (split_on CHR ''/'' path))" "CHR ''/'' \<notin> set path"
  shows "parse_alias uri = Some (tenant, path)"
  using assms by (auto simp: parse_alias_def split_on_clean)

lemma route_not_typed:
  assumes "parse_sel uri = Some (tenant, path)" "\<not> is_class_segment (hd (split_on CHR ''/'' path))"
  shows "parse_typed uri = None"
  using assms by (auto simp: parse_typed_def split_once_Some_iff split_on_append is_class_segment_def
      split: option.splits)

lemma apply_register_cases:
  assumes "apply_register caller ct t root_allowed root_service s = (resp, s')"
  obtains (refused) "resp \<noteq> Registered" "s' = s"
  | (registered) uri tenant path canonical refs where
      "resp = Registered"
      "registration_uri s (tg_uri t) caller ct root_allowed (tg_resource t) (tg_class t) = Some uri"
      "parse_sel uri = Some (tenant, path)" "canonical = resource_uri tenant (tg_class t) (tg_resource t)"
      "CHR ''/'' \<notin> set path \<longrightarrow> map_of (ds_registrations s) canonical \<noteq> None"
      "refs = (case map_of (ds_backrefs s) canonical of None \<Rightarrow> [] | Some rs \<Rightarrow> rs)"
      "map_of (ds_registrations s') = (map_of (ds_registrations s))(uri \<mapsto> t\<lparr>tg_uri := uri\<rparr>)"
      "map_of (ds_route_owners s') = (map_of (ds_route_owners s))(uri \<mapsto> caller)"
      "map_of (ds_aliases s') = (if CHR ''/'' \<in> set path then map_of (ds_aliases s)
         else (map_of (ds_aliases s))(uri \<mapsto> canonical))"
      "map_of (ds_backrefs s') = (if CHR ''/'' \<in> set path then map_of (ds_backrefs s)
         else (map_of (ds_backrefs s))(canonical \<mapsto> (if uri \<in> set refs then refs else refs @ [uri])))"
      "ds_root_services s' = (if root_service then AList.update tenant uri (ds_root_services s) else ds_root_services s)"
      "ds_ownership s' = ds_ownership s" "ds_domains s' = ds_domains s"
proof (cases "registration_uri s (tg_uri t) caller ct root_allowed (tg_resource t) (tg_class t)")
  case None
  with assms refused show thesis by (simp add: apply_register_def)
next
  case (Some uri)
  then obtain tenant path where p: "parse_sel uri = Some (tenant, path)" by (rule registration_uri_Some)
  show thesis
  proof (cases "CHR ''/'' \<notin> set path \<and>
      map_of (ds_registrations s) (resource_uri tenant (tg_class t) (tg_resource t)) = None")
    case True
    with assms Some p refused show thesis by (simp add: apply_register_def)
  next
    case False
    show thesis
      by (rule registered [OF _ Some p refl _ refl])
        (use assms Some p False in \<open>auto simp: apply_register_def Let_def update_conv' split: if_splits\<close>)
  qed
qed

lemma apply_register_ok:
  assumes "store_ok s" "apply_register caller ct t root_allowed root_service s = (resp, s')"
  shows "store_ok s'"
  using assms(2)
proof (cases rule: apply_register_cases)
  case (registered uri tenant path canonical refs)
  note inv = store_invD [OF assms(1)]
  obtain tenant' path' where reg: "parse_sel uri = Some (tenant', path')" "hd (split_on CHR ''/'' path') \<noteq> []"
      "\<not> is_class_segment (hd (split_on CHR ''/'' path'))"
    using registered(2) by (rule registration_uri_Some)
  have leaf: "parse_alias uri \<noteq> None" if "CHR ''/'' \<notin> set path"
    using leaf_is_alias [of uri tenant path] reg registered(3) that by simp
  have typed: "parse_typed canonical \<noteq> None"
    using parse_typed_resource_uri [OF parse_sel_tenant [OF registered(3)]] registered(4) by simp
  have refs: "distinct refs \<and> (\<forall>a\<in>set refs. parse_alias a \<noteq> None)"
    using inv(6) [of canonical refs] registered(6) by (cases "map_of (ds_backrefs s) canonical") simp_all
  show ?thesis
  proof (rule store_invI)
    fix a c
    assume a: "map_of (ds_aliases s') a = Some c"
    then have cases: "map_of (ds_aliases s) a = Some c \<or> CHR ''/'' \<notin> set path \<and> a = uri \<and> c = canonical"
      by (auto simp: registered(9) split: if_splits)
    then show "parse_alias a \<noteq> None \<and> parse_typed c \<noteq> None" using inv(2,3) leaf typed by blast
    show "map_of (ds_registrations s') c \<noteq> None"
      using cases inv(4) registered(5) by (auto simp: registered(7))
    show "\<exists>refs. map_of (ds_backrefs s') c = Some refs \<and> a \<in> set refs"
      using cases inv(5) [of a c] registered(6) by (auto simp: registered(10))
  next
    fix c rs
    assume "map_of (ds_backrefs s') c = Some rs"
    then have "map_of (ds_backrefs s) c = Some rs \<or>
        CHR ''/'' \<notin> set path \<and> c = canonical \<and> rs = (if uri \<in> set refs then refs else refs @ [uri])"
      by (auto simp: registered(10) split: if_splits)
    then show "parse_typed c \<noteq> None \<and> rs \<noteq> [] \<and> distinct rs \<and> (\<forall>a\<in>set rs. parse_alias a \<noteq> None)"
      using inv(6) [of c rs] refs leaf typed by (cases "uri \<in> set refs") auto
  next
    fix tn u
    assume "(tn, u) \<in> set (ds_root_services s')"
    then have "(tn, u) \<in> set (ds_root_services s) \<or> u = uri"
      using set_alist_update [of tenant uri "ds_root_services s"] by (auto simp: registered(11) split: if_splits)
    then show "map_of (ds_registrations s') u \<noteq> None" using inv(7) [of tn u] by (auto simp: registered(7))
  qed (use inv(1,8) in \<open>auto simp: registered(7,8) split: if_splits\<close>)
qed (use assms(1) in simp)

lemma apply_revoke_internal_cases:
  assumes "apply_revoke_internal caller ct uri s = (resp, s')"
  obtains (refused) "resp \<noteq> Revoked" "s' = s"
  | (leaf) tenant nm cls rid canonical where "resp = Revoked" "s' = revoke_alias uri s" "\<not> is_root_uri uri"
      "map_of (ds_aliases s) uri = Some canonical" "parse_alias uri = Some (tenant, nm)"
      "tenant_admits ct (Some tenant)" "map_of (ds_ownership s) (caller, rid) = Some cls"
  | (route) tenant path target where "resp = Revoked" "s' = revoke_key uri s" "\<not> is_root_uri uri"
      "map_of (ds_aliases s) uri = None" "parse_sel uri = Some (tenant, path)"
      "\<not> is_class_segment (hd (split_on CHR ''/'' path))" "tenant_admits ct (Some tenant)"
      "map_of (ds_registrations s) uri = Some target"
      "map_of (ds_ownership s) (caller, tg_resource target) = Some (tg_class target)"
  using assms by (auto simp: apply_revoke_internal_def split: if_splits option.splits)

lemma apply_revoke_reduces:
  assumes "apply_revoke caller ct uri s = (resp, s')"
  obtains "resp \<noteq> Revoked" "s' = s" | uri' where "apply_revoke_internal caller ct uri' s = (resp, s')"
  using assms by (auto simp: apply_revoke_def split: if_splits option.splits)

lemma apply_revoke_ok:
  assumes "store_ok s" "apply_revoke caller ct uri s = (resp, s')"
  shows "store_ok s'"
  using assms(2)
proof (cases rule: apply_revoke_reduces)
  case (2 uri')
  then show ?thesis
    using assms(1) by (cases rule: apply_revoke_internal_cases) (auto intro: revoke_alias_ok revoke_key_ok)
qed (use assms(1) in simp)

text \<open>A request changes the store through \<^const>\<open>apply_register\<close> and \<^const>\<open>apply_revoke\<close> only.\<close>

lemma serve_request_cases:
  assumes "serve_request client scope held request s = ((resp, calls), s')"
  obtains (unchanged) "s' = s" "resp \<noteq> Registered" "resp \<noteq> Revoked"
  | (register) ct uri t owner root_service root_allowed where "scope = Some ct" "request = Register uri t owner root_service"
      "root_allowed \<longrightarrow> held" "apply_register client ct t root_allowed root_service s = (resp, s')"
  | (revoke) ct uri where "scope = Some ct" "request = Revoke uri" "apply_revoke client ct uri s = (resp, s')"
proof (cases scope)
  case None
  with assms unchanged show thesis by (auto simp: serve_request_def denied_response_def split: discovery_request.splits)
next
  case (Some ct)
  show thesis
  proof (cases request)
    case (Register uri t owner root_service)
    let ?ra = "(is_root_uri (tg_uri t) \<or> parse_sel (tg_uri t) = None) \<and> held"
    have "apply_register client ct t ?ra root_service s = (resp, s')"
      using assms Some Register by (simp add: serve_request_def Let_def split: prod.splits)
    then show thesis by (intro register [OF Some Register, of ?ra]) simp_all
  next
    case (Revoke uri)
    then show thesis using assms Some by (intro revoke [OF Some]) (auto simp: serve_request_def split: prod.splits)
  qed (use assms Some unchanged in \<open>auto simp: serve_request_def split: option.splits\<close>)
qed

lemma serve_request_ok:
  assumes "store_ok s" "serve_request client scope held request s = ((resp, calls), s')"
  shows "store_ok s'"
  using assms(2)
proof (cases rule: serve_request_cases)
  case (register ct uri t owner root_service root_allowed)
  then show ?thesis by (intro apply_register_ok [OF assms(1)])
next
  case (revoke ct uri)
  then show ?thesis by (intro apply_revoke_ok [OF assms(1)])
qed (use assms(1) in simp)

lemma seed_domain_ok: "store_inv X (seed_domain domain tenant s) = store_inv X s"
  by (simp add: store_inv_def seed_domain_def)

lemma apply_tier1_event_ok: "store_ok s \<Longrightarrow> store_ok (apply_tier1_event request s)"
  by (cases request)
    (simp_all add: apply_tier1_event_def store_target_ok revoke_key_ok revoke_by_owner_ok seed_domain_ok)

lemma discovery_step_ok: "store_ok s \<Longrightarrow> store_ok (discovery_step event s)"
proof (cases event)
  case (Request client scope held request)
  assume ok: "store_ok s"
  obtain out s' where r: "serve_request client scope held request s = (out, s')" by (rule prod.exhaust)
  then have "store_ok s'" using ok serve_request_ok [of s client scope held request "fst out" "snd out" s'] by simp
  with r Request show ?thesis by (simp add: discovery_step_def)
qed (simp add: discovery_step_def apply_tier1_event_ok)

end
