(* ===== verification/Discovery_Properties.thy ===== *)
theory Discovery_Properties
  imports Discovery_Correct Teardown
begin

text \<open>
  The properties of the discovery guest: consistency of its tables along every history, cascading and
  owner-keyed revocation, the confinement of guest requests, tenant scoping of its answers, and the
  composition with the runtime's teardown of a process.
\<close>

section \<open>Consistency\<close>

text \<open>C8. The tables of the discovery store stay consistent along every sequence of runtime events and
  guest requests: each registration is filed under its own address, each alias is an alias address that
  points to a typed address which is registered and knows the alias, the address of a root service is
  registered, and only registered addresses have owners.\<close>

theorem discovery_store_stays_consistent:
  "store_ok (fold discovery_step events empty_store)"
proof -
  have "store_ok s \<Longrightarrow> store_ok (fold discovery_step events s)" for s
    by (induction events arbitrary: s) (simp_all add: discovery_step_ok)
  then show ?thesis by (simp add: empty_store_ok)
qed

section \<open>Revocation\<close>

definition lists :: "discovery_store \<Rightarrow> u64 \<Rightarrow> bool" where
  "lists s pid \<longleftrightarrow> pid \<in> ran (map_of (ds_route_owners s))"

lemma revoke_owned_le:
  "map_of (ds_registrations (revoke_owned k s)) \<subseteq>\<^sub>m (map_of (ds_registrations s))(k := None)"
  "map_of (ds_aliases (revoke_owned k s)) \<subseteq>\<^sub>m (map_of (ds_aliases s))(k := None)"
  "map_of (ds_route_owners (revoke_owned k s)) \<subseteq>\<^sub>m (map_of (ds_route_owners s))(k := None)"
  by (auto simp: revoke_owned_def store_effects restrict_map_def map_le_def)

lemma fold_removes:
  assumes "\<And>k s. f (g k s) \<subseteq>\<^sub>m (f s)(k := None)"
  shows "f (fold g ks s) \<subseteq>\<^sub>m f s |` (- set ks)"
proof (induction ks arbitrary: s)
  case (Cons k ks)
  have "f (g k s) |` (- set ks) \<subseteq>\<^sub>m f s |` (- set (k # ks))"
    using assms [of k s] by (fastforce simp: map_le_def restrict_map_def dom_def)
  with Cons [of "g k s"] show ?case by (auto intro: map_le_trans)
qed (simp add: map_le_def restrict_map_def)

lemmas revoke_all_owned =
  fold_removes [where g = revoke_owned and f = "\<lambda>s. map_of (ds_registrations s)", OF revoke_owned_le(1)]
  fold_removes [where g = revoke_owned and f = "\<lambda>s. map_of (ds_aliases s)", OF revoke_owned_le(2)]
  fold_removes [where g = revoke_owned and f = "\<lambda>s. map_of (ds_route_owners s)", OF revoke_owned_le(3)]

lemma map_le_restrictD: "m \<subseteq>\<^sub>m m' |` (- A) \<Longrightarrow> m k = Some v \<Longrightarrow> k \<notin> A \<and> m' k = Some v"
  by (metis ComplD domI map_le_def option.distinct(1) restrict_map_def)

lemma owned_routes: "map_of (ds_route_owners s) k = Some pid \<Longrightarrow>
    k \<in> set (map fst (filter (\<lambda>(_, owner). owner = pid) (ds_route_owners s)))"
  by (drule map_of_SomeD) force

lemma resolve_internal_None:
  "map_of (ds_registrations s) k = None \<Longrightarrow> map_of (ds_aliases s) k = None \<Longrightarrow> resolve_internal s k caller = None"
  by (simp add: resolve_internal_def)

text \<open>C24. Revoking a target revokes every name that leads to it: once the runtime revokes a typed
  address, neither the address nor any alias of it resolves for anyone, and the registration of every
  other address that is not a leaf alias is left as it was.\<close>

theorem revocation_cascades_to_aliases:
  assumes "store_ok s" "parse_typed c \<noteq> None"
  shows "resolve_internal (apply_tier1_event (Revoke c) s) c caller = None \<and>
    (\<forall>a. map_of (ds_aliases s) a = Some c \<longrightarrow> resolve_internal (apply_tier1_event (Revoke c) s) a caller = None) \<and>
    (\<forall>k. k \<noteq> c \<and> parse_alias k = None \<longrightarrow>
       map_of (ds_registrations (apply_tier1_event (Revoke c) s)) k = map_of (ds_registrations s) k)"
proof (intro conjI allI impI)
  note inv = store_invD [OF assms(1)]
  have "map_of (ds_aliases s) c = None"
    using inv(2) alias_not_typed assms(2) by (metis not_None_eq)
  then show "resolve_internal (apply_tier1_event (Revoke c) s) c caller = None"
    by (intro resolve_internal_None) (simp_all add: apply_tier1_event_def store_effects restrict_map_def)
next
  fix a
  assume "map_of (ds_aliases s) a = Some c"
  then have "a \<in> aliases_of c s" using store_invD(5) [OF assms(1)] by (fastforce simp: aliases_of_def)
  then show "resolve_internal (apply_tier1_event (Revoke c) s) a caller = None"
    by (intro resolve_internal_None) (simp_all add: apply_tier1_event_def store_effects)
next
  fix k
  assume "k \<noteq> c \<and> parse_alias k = None"
  then show "map_of (ds_registrations (apply_tier1_event (Revoke c) s)) k = map_of (ds_registrations s) k"
    using aliases_of_ok [OF assms(1), of k c] by (auto simp: apply_tier1_event_def store_effects restrict_map_def)
qed

lemma owner_revocation:
  fixes s pid
  defines "s' \<equiv> apply_tier1_event (RevokeByOwner pid) s"
  shows "\<not> lists s' pid"
    and "map_of (ds_route_owners s) k = Some pid \<Longrightarrow>
      map_of (ds_registrations s') k = None \<and> map_of (ds_aliases s') k = None"
proof -
  let ?ks = "map fst (filter (\<lambda>(_, owner). owner = pid) (ds_route_owners s))"
  have s': "s' = fold revoke_owned ?ks s" by (simp add: s'_def apply_tier1_event_def revoke_by_owner_def)
  have owners: "k \<notin> set ?ks \<and> map_of (ds_route_owners s) k = Some p"
    if "map_of (ds_route_owners s') k = Some p" for k p
    using map_le_restrictD [OF revoke_all_owned(3)] that unfolding s' .
  show "\<not> lists s' pid"
  proof
    assume "lists s' pid"
    then obtain k where "map_of (ds_route_owners s') k = Some pid" by (auto simp: lists_def ran_def)
    from owners [OF this] show False using owned_routes [of s k pid] by blast
  qed
  assume "map_of (ds_route_owners s) k = Some pid"
  then have "k \<in> set ?ks" by (rule owned_routes)
  then show "map_of (ds_registrations s') k = None \<and> map_of (ds_aliases s') k = None"
    using map_le_restrictD [OF revoke_all_owned(1)] map_le_restrictD [OF revoke_all_owned(2)]
    unfolding s' by (metis not_None_eq)
qed

text \<open>When a process exits, nothing it registered stays reachable: after the runtime's owner-keyed
  revocation no route names the process as its owner, and no address it owned resolves for anyone.\<close>

theorem exit_revokes_owned_routes:
  "\<not> lists (apply_tier1_event (RevokeByOwner pid) s) pid \<and>
   {k. map_of (ds_route_owners s) k = Some pid} \<subseteq>
     {k. \<forall>caller. resolve_internal (apply_tier1_event (RevokeByOwner pid) s) k caller = None}"
  using owner_revocation by (auto intro: resolve_internal_None)

section \<open>What a guest's request can change\<close>

lemma revoke_key_ownership:
  "ds_ownership (revoke_key k s) = ds_ownership s \<or>
   (\<exists>r. ds_ownership (revoke_key k s) = filter (\<lambda>((_, rid), _). rid \<noteq> r) (ds_ownership s))"
  by (auto simp: revoke_key_def Let_def forget_resource_def cascade_effect split: option.split)

lemma map_of_filter_resource:
  "map_of (filter (\<lambda>((_, rid), _). rid \<noteq> r) xs) = map_of xs |` {(p, rid). rid \<noteq> r}"
  by (induction xs) (auto simp: restrict_map_def fun_eq_iff)

lemma ownership_shrinks: "map_of (ds_ownership (revoke_key k s)) \<subseteq>\<^sub>m map_of (ds_ownership s)"
  using revoke_key_ownership [of k s] map_of_filter_resource [of _ "ds_ownership s"]
  by (auto simp: map_le_def restrict_map_def split: if_splits)

lemma revoke_confined:
  assumes "store_ok s" "apply_revoke_internal client ct uri s = (resp, s')"
    "map_of (ds_registrations s') k \<noteq> map_of (ds_registrations s) k"
  shows "map_of (ds_registrations s') k = None \<and> parse_typed k = None \<and>
    (\<exists>tenant path. parse_sel k = Some (tenant, path) \<and> tenant_admits ct (Some tenant) \<and> tenant \<noteq> [])"
  using assms(2)
proof (cases rule: apply_revoke_internal_cases)
  case (leaf tenant nm cls rid canonical)
  then have k: "k = uri" using assms(3) by (auto simp: store_effects split: if_splits)
  have "parse_sel uri = Some (tenant, nm)"
    using leaf(5) by (auto simp: parse_alias_def split: option.splits if_splits)
  then show ?thesis using leaf k alias_not_typed [of uri] by (auto simp: store_effects is_root_uri_def)
next
  case (route tenant path target)
  have typed: "parse_typed uri = None" using route_not_typed [OF route(5,6)] .
  then have "aliases_of uri s = {}"
    using store_invD(6) [OF assms(1), where c = uri] by (cases "map_of (ds_backrefs s) uri") (simp_all add: aliases_of_def)
  then have "k = uri" using assms(3) route(2) by (auto simp: store_effects restrict_map_def split: if_splits)
  then show ?thesis using route typed by (auto simp: store_effects is_root_uri_def)
qed (use assms(3) in simp)

text \<open>C9. A guest's request changes the registry only within its own tenant and only by names it may
  bind: whatever address it adds, replaces or removes lies in a tenant that admits the caller and is not
  one of the typed addresses minted by the runtime; an address it binds leads to a resource that the
  runtime recorded as the caller's own, of the recorded class, and names the caller as its owner; the
  root namespace changes only for a caller that holds the system-registration capability; and the
  ownership and domain tables never gain an entry.\<close>

theorem guest_requests_are_confined:
  assumes "store_ok s" "serve_request client scope held request s = ((resp, calls), s')"
  shows "map_of (ds_ownership s') \<subseteq>\<^sub>m map_of (ds_ownership s) \<and> ds_domains s' = ds_domains s \<and>
    (\<forall>k. map_of (ds_registrations s') k \<noteq> map_of (ds_registrations s) k \<longrightarrow>
      parse_typed k = None \<and>
      (\<exists>ct tenant path. scope = Some ct \<and> parse_sel k = Some (tenant, path) \<and> tenant_admits ct (Some tenant) \<and>
         (tenant = [] \<longrightarrow> held)) \<and>
      (\<forall>t. map_of (ds_registrations s') k = Some t \<longrightarrow>
         map_of (ds_ownership s) (client, tg_resource t) = Some (tg_class t) \<and>
         map_of (ds_route_owners s') k = Some client))"
  using assms(2)
proof (cases rule: serve_request_cases)
  case (register ct uri t owner root_service root_allowed)
  from register(4) show ?thesis
  proof (cases rule: apply_register_cases)
    case (registered u tenant path canonical refs)
    obtain tenant' path' where reg: "parse_sel u = Some (tenant', path')" "tenant_admits ct (Some tenant')"
      "tenant' = [] \<longrightarrow> root_allowed" "\<not> is_class_segment (hd (split_on CHR ''/'' path'))"
      "map_of (ds_ownership s) (client, tg_resource t) = Some (tg_class t)"
      using registered(2) by (rule registration_uri_Some)
    then show ?thesis using registered(7,8,12,13) register(1,3) route_not_typed [OF reg(1,4)] by auto
  qed simp
next
  case (revoke ct uri)
  from revoke(3) show ?thesis
  proof (cases rule: apply_revoke_reduces)
    case (2 uri')
    have "map_of (ds_ownership s') \<subseteq>\<^sub>m map_of (ds_ownership s)" "ds_domains s' = ds_domains s"
      using 2 by (cases rule: apply_revoke_internal_cases; simp add: store_effects ownership_shrinks)+
    then show ?thesis using revoke_confined [OF assms(1) 2] revoke(1) by fastforce
  qed simp
qed simp

section \<open>What a guest can learn\<close>

definition disclosed :: "discovery_response \<Rightarrow> resource_target set" where
  "disclosed resp = (case resp of Found t \<Rightarrow> {t} | ResolvedTargets ts \<Rightarrow> set ts | _ \<Rightarrow> {})"

lemma resolve_internal_admits:
  "resolve_internal s uri caller = Some t \<Longrightarrow>
    tenant_admits caller (tg_tenant t) \<and> t \<in> ran (map_of (ds_registrations s))"
  by (auto simp: resolve_internal_def ran_def split: option.splits if_splits)

lemma resolve_exact_admits:
  "resolve_exact s uri caller = Some t \<Longrightarrow>
    tenant_admits caller (tg_tenant t) \<and> t \<in> ran (map_of (ds_registrations s))"
  by (auto simp: resolve_exact_def dest: resolve_internal_admits split: option.splits if_splits)

lemma resolve_labels_admits:
  "t \<in> set (resolve_labels s key v caller) \<Longrightarrow>
    tenant_admits caller (tg_tenant t) \<and> t \<in> ran (map_of (ds_registrations s))"
  by (auto simp: resolve_labels_def map_filter_def ran_def split: option.splits)

lemma resolve_prefix_admits:
  assumes "t \<in> set (resolve_prefix s pattern caller)"
  shows "tenant_admits caller (tg_tenant t) \<and> t \<in> snd ` set (ds_registrations s)"
  using assms by (auto simp: resolve_prefix_def split: option.splits)

lemma writes_disclose_nothing:
  "apply_register client ct t root_allowed root_service s = (resp, s') \<Longrightarrow> disclosed resp = {}"
  "apply_revoke client ct uri s = (resp, s') \<Longrightarrow> disclosed resp = {}"
  by (auto simp: apply_register_def apply_revoke_def apply_revoke_internal_def disclosed_def Let_def
      split: option.splits if_splits prod.splits)

lemma registered_target: "t \<in> ran (map_of (ds_registrations s)) \<Longrightarrow> t \<in> snd ` set (ds_registrations s)"
  by (auto simp: ran_def dest: map_of_SomeD intro: rev_image_eqI)


text \<open>What a guest registers is what others find: after an accepted registration the address reported
  to the runtime (the caller's own spelling when it is an internal address) resolves to the registered
  target for every caller its tenant admits, and resolving it changes nothing.\<close>

theorem registered_route_resolves:
  assumes "serve_request client (Some ct) held (Register u t owner root_service) s = ((Registered, calls), s')"
    "tenant_admits ct' (tg_tenant t)"
  shows "\<exists>uri. calls = [RecordRegistration client uri] \<and> (parse_sel (tg_uri t) \<noteq> None \<longrightarrow> uri = tg_uri t) \<and>
    (\<exists>reports. serve_request client' (Some ct') held' (Resolve uri) s' = ((Found (t\<lparr>tg_uri := uri\<rparr>), reports), s'))"
proof -
  let ?ra = "(is_root_uri (tg_uri t) \<or> parse_sel (tg_uri t) = None) \<and> held"
  have run: "apply_register client ct t ?ra root_service s = (Registered, s')"
    and calls: "calls = (case registration_uri s (tg_uri t) client ct ?ra (tg_resource t) (tg_class t) of
        Some uri \<Rightarrow> [RecordRegistration client uri] | _ \<Rightarrow> [])"
    using assms(1) by (auto simp: serve_request_def Let_def split: prod.splits option.splits)
  from run show ?thesis
  proof (cases rule: apply_register_cases)
    case (registered uri tenant path canonical refs)
    have "parse_sel (tg_uri t) \<noteq> None \<longrightarrow> uri = tg_uri t"
      using registered(2) by (auto simp: registration_uri_def Let_def split: option.splits if_splits)
    moreover have "resolve_exact s' uri ct' = Some (t\<lparr>tg_uri := uri\<rparr>)"
      using assms(2) by (simp add: resolve_exact_def resolve_internal_def registered(7))
    ultimately show ?thesis using calls registered(2) by (simp add: serve_request_def)
  qed simp
qed

section \<open>Rebinding an alias\<close>

text \<open>Rebinding an alias leaves it in the reverse index of its former target.  When the former target
  is revoked, the alias is revoked with it, although the target it was bound to last is still registered.\<close>

theorem rebound_alias_dies_with_former_target:
  assumes "store_ok s" "map_of (ds_aliases s) a = Some c"
    "apply_register client ct t root_allowed root_service s = (Registered, s')"
    "map_of (ds_aliases s') a = Some c'" "c' \<noteq> c"
  shows "resolve_internal (apply_tier1_event (Revoke c) s') a caller = None \<and>
    map_of (ds_registrations (apply_tier1_event (Revoke c) s')) c' \<noteq> None"
proof -
  note inv = store_invD [OF assms(1)] and inv' = store_invD [OF apply_register_ok [OF assms(1,3)]]
  have "a \<in> aliases_of c s" using inv(5) [OF assms(2)] by (auto simp: aliases_of_def)
  moreover have "aliases_of c s \<subseteq> aliases_of c s'"
    using assms(3) by (cases rule: apply_register_cases)
      (auto simp: aliases_of_def split: option.splits if_splits)
  ultimately have a: "a \<in> aliases_of c s'" by blast
  have "parse_alias x \<noteq> None \<Longrightarrow> x \<noteq> c'" for x using inv'(3) [OF assms(4)] alias_not_typed by auto
  then have "c' \<notin> aliases_of c s'" using aliases_of_ok [OF apply_register_ok [OF assms(1,3)]] by blast
  then have "map_of (ds_registrations (apply_tier1_event (Revoke c) s')) c' \<noteq> None"
    using inv'(4) [OF assms(4)] assms(5) by (simp add: apply_tier1_event_def store_effects)
  then show ?thesis using a by (simp add: resolve_internal_None apply_tier1_event_def store_effects)
qed

section \<open>A concrete history\<close>

definition sample_region :: "u64 \<Rightarrow> resource_target" where
  "sample_region i = \<lparr>tg_uri = resource_uri ''acme'' SharedRegion i, tg_host = [], tg_resource = i,
     tg_interface = None, tg_tenant = Some ''acme'', tg_class = SharedRegion, tg_labels = []\<rparr>"

definition sample_name :: "u64 \<Rightarrow> resource_target" where
  "sample_name i = (sample_region i)\<lparr>tg_uri := ''sel://acme/db''\<rparr>"

definition sample_regions :: discovery_store where
  "sample_regions = fold (\<lambda>i. discovery_step (Feed (Register [] (sample_region i) (Some 5) False))) [7, 8] empty_store"

definition sample_named :: discovery_store where
  "sample_named = snd (apply_register 5 (Some ''acme'') (sample_name 7) False False sample_regions)"

lemma sample_regions_tables:
  "map_of (ds_ownership sample_regions) (5, 7) = Some SharedRegion"
  "map_of (ds_ownership sample_regions) (5, 8) = Some SharedRegion"
  "map_of (ds_registrations sample_regions) (resource_uri ''acme'' SharedRegion 7) \<noteq> None"
  "map_of (ds_registrations sample_regions) (resource_uri ''acme'' SharedRegion 8) \<noteq> None"
  by (simp_all add: sample_regions_def discovery_step_def apply_tier1_event_def store_target_def sample_region_def
      empty_store_def Let_def parse_typed_resource_uri update_conv')

lemma sample_regions_ok: "store_ok sample_regions"
  by (simp add: sample_regions_def discovery_step_ok empty_store_ok)

lemma sample_uri: "parse_sel ''sel://acme/db'' = Some (''acme'', ''db'')" "\<not> is_class_segment ''db''"
  by (simp_all add: parse_sel_def SEL_PREFIX_def strip_prefix_def split_once_def trim_matches_def
      trim_start_matches_def trim_end_matches_def is_class_segment_def from_uri_segment_def)

lemma sample_registration:
  assumes "map_of (ds_ownership s) (5, i) = Some SharedRegion"
    "map_of (ds_registrations s) (resource_uri ''acme'' SharedRegion i) \<noteq> None"
  shows "\<exists>s'. apply_register 5 (Some ''acme'') (sample_name i) False False s = (Registered, s') \<and>
    map_of (ds_aliases s') ''sel://acme/db'' = Some (resource_uri ''acme'' SharedRegion i) \<and>
    ds_ownership s' = ds_ownership s \<and>
    (\<forall>k. map_of (ds_registrations s) k \<noteq> None \<longrightarrow> map_of (ds_registrations s') k \<noteq> None)"
  using assms sample_uri
  by (simp add: apply_register_def registration_uri_def sample_name_def sample_region_def tenant_admits_def Let_def
      update_conv')

lemma sample_uris_differ: "resource_uri ''acme'' SharedRegion 8 \<noteq> resource_uri ''acme'' SharedRegion 7"
proof
  assume "resource_uri ''acme'' SharedRegion 8 = resource_uri ''acme'' SharedRegion 7"
  then have "parse_typed (resource_uri ''acme'' SharedRegion 8) = parse_typed (resource_uri ''acme'' SharedRegion 7)"
    by simp
  then show False by (simp add: parse_typed_resource_uri)
qed

lemma sample_request:
  obtains calls s' where "serve_request 5 (Some (Some ''acme'')) False (Register [] (sample_name 7) None False)
      sample_regions = ((Registered, calls), s')"
    "map_of (ds_registrations s') ''sel://acme/db'' = Some (sample_name 7)"
    "map_of (ds_registrations sample_regions) ''sel://acme/db'' = None"
proof -
  have "parse_typed ''sel://acme/db'' = None"
    using route_not_typed [OF sample_uri(1)] sample_uri(2) by (simp add: split_on_clean)
  then have differ: "''sel://acme/db'' \<noteq> resource_uri ''acme'' SharedRegion i" for i
    using parse_typed_resource_uri [of "''acme''" SharedRegion i] by auto
  then have fresh: "map_of (ds_registrations sample_regions) ''sel://acme/db'' = None"
    by (simp add: sample_regions_def discovery_step_def apply_tier1_event_def store_effects sample_region_def empty_store_def)
  have root: "\<not> is_root_uri ''sel://acme/db''" by (simp add: is_root_uri_def sample_uri)
  have "\<exists>calls s'. serve_request 5 (Some (Some ''acme'')) False (Register [] (sample_name 7) None False)
      sample_regions = ((Registered, calls), s') \<and> map_of (ds_registrations s') ''sel://acme/db'' = Some (sample_name 7)"
    using sample_uri sample_regions_tables root
    by (simp add: serve_request_def apply_register_def registration_uri_def sample_name_def sample_region_def
        tenant_admits_def Let_def update_conv')
  then show thesis using that fresh by blast
qed

theorem revocation_cascades_to_aliases_witness:
  "resolve_internal (apply_tier1_event (Revoke (resource_uri ''acme'' SharedRegion 7)) sample_regions)
     (resource_uri ''acme'' SharedRegion 7) None = None \<and>
   resolve_internal sample_regions (resource_uri ''acme'' SharedRegion 7) None \<noteq> None"
  using revocation_cascades_to_aliases [OF sample_regions_ok, of "resource_uri ''acme'' SharedRegion 7" None]
    sample_regions_tables(3)
  by (auto simp: parse_typed_resource_uri resolve_internal_def tenant_admits_def)

theorem guest_requests_are_confined_witness:
  "\<exists>resp calls s'. serve_request 5 (Some (Some ''acme'')) False (Register [] (sample_name 7) None False) sample_regions =
     ((resp, calls), s') \<and> map_of (ds_route_owners s') ''sel://acme/db'' = Some 5"
proof -
  obtain calls s' where run: "serve_request 5 (Some (Some ''acme'')) False (Register [] (sample_name 7) None False)
      sample_regions = ((Registered, calls), s')"
    "map_of (ds_registrations s') ''sel://acme/db'' = Some (sample_name 7)"
    "map_of (ds_registrations sample_regions) ''sel://acme/db'' = None"
    by (rule sample_request)
  then show ?thesis using guest_requests_are_confined [OF sample_regions_ok run(1)] by auto
qed


theorem registered_route_resolves_witness:
  "\<exists>calls s' uri reports. serve_request 5 (Some (Some ''acme'')) False (Register [] (sample_name 7) None False)
      sample_regions = ((Registered, calls), s') \<and>
    serve_request 6 (Some None) False (Resolve uri) s' = ((Found ((sample_name 7)\<lparr>tg_uri := uri\<rparr>), reports), s')"
proof -
  obtain calls s' where run: "serve_request 5 (Some (Some ''acme'')) False (Register [] (sample_name 7) None False)
      sample_regions = ((Registered, calls), s')"
    by (rule sample_request)
  from registered_route_resolves [OF run, of None 6 False] run show ?thesis by (auto simp: tenant_admits_def)
qed

theorem rebound_alias_dies_with_former_target_witness:
  "\<exists>s s'. map_of (ds_aliases s) ''sel://acme/db'' = Some (resource_uri ''acme'' SharedRegion 7) \<and>
     apply_register 5 (Some ''acme'') (sample_name 8) False False s = (Registered, s') \<and>
     resolve_internal (apply_tier1_event (Revoke (resource_uri ''acme'' SharedRegion 7)) s') ''sel://acme/db'' None = None"
proof -
  obtain s where s: "apply_register 5 (Some ''acme'') (sample_name 7) False False sample_regions = (Registered, s)"
    "map_of (ds_aliases s) ''sel://acme/db'' = Some (resource_uri ''acme'' SharedRegion 7)"
    "ds_ownership s = ds_ownership sample_regions"
    "map_of (ds_registrations s) (resource_uri ''acme'' SharedRegion 8) \<noteq> None"
    using sample_registration [OF sample_regions_tables(1,3)] sample_regions_tables(4) by blast
  obtain s' where s': "apply_register 5 (Some ''acme'') (sample_name 8) False False s = (Registered, s')"
    "map_of (ds_aliases s') ''sel://acme/db'' = Some (resource_uri ''acme'' SharedRegion 8)"
    using sample_registration [of s 8] s(3,4) sample_regions_tables(2) by auto
  from rebound_alias_dies_with_former_target [OF apply_register_ok [OF sample_regions_ok s(1)] s(2) s' sample_uris_differ,
      of None] s(2) s'(1) show ?thesis by blast
qed

end
