(* ===== verification/Discovery_Feed.thy ===== *)
theory Discovery_Feed
  imports Discovery_Properties
begin

text \<open>
  The runtime and the discovery guest together: the runtime publishes revocations while it tears a
  process down, and the discovery guest applies them.  What the teardown relies on is the interface
  \<open>registry_feed\<close>; the discovery store provides it.
\<close>

section \<open>The interface\<close>

lemma for_each_invariant:
  assumes "\<And>k a r x r'. P r \<Longrightarrow> step k a r = (x, r') \<Longrightarrow> P r'"
  shows "P r \<Longrightarrow> for_each step ks a r = (x, r') \<Longrightarrow> P r'"
proof (induction ks arbitrary: a r)
  case (Cons k ks)
  obtain y r1 where st: "step k a r = (y, r1)" by fastforce
  show ?case
    using Cons.prems Cons.IH [OF assms [OF Cons.prems(1) st]] assms [OF Cons.prems(1) st] st
    by (cases y) (auto simp: bindR_def)
qed simp

text \<open>A revocation of the teardown touches the publisher by publishing one address.\<close>

lemma revoke_publishes:
  "revoke_region ho k a r = (x, r') \<Longrightarrow>
    rt_publisher r' = rt_publisher r \<or> (\<exists>uri. rt_publisher r' = rt_publisher (snd (publish_discovery_event ho (Revoke uri) r)))"
  "revoke_queue ho k a r = (x, r') \<Longrightarrow>
    rt_publisher r' = rt_publisher r \<or> (\<exists>uri. rt_publisher r' = rt_publisher (snd (publish_discovery_event ho (Revoke uri) r)))"
proof -
  assume run: "revoke_region ho k a r = (x, r')"
  show "rt_publisher r' = rt_publisher r \<or> (\<exists>uri. rt_publisher r' = rt_publisher (snd (publish_discovery_event ho (Revoke uri) r)))"
  proof (cases "map_of (rt_region_tenants r) k")
    case (Some tenant)
    obtain y r1 where pub: "publish_discovery_event ho (Revoke (region_registration_uri tenant (snd k))) r = (y, r1)" by fastforce
    then have "rt_publisher r' = rt_publisher r1" using run Some by (cases y) (auto simp: revoke_region_def bindR_def)
    with pub show ?thesis by (metis snd_conv)
  qed (use run in \<open>simp add: revoke_region_def\<close>)
next
  assume run: "revoke_queue ho k a r = (x, r')"
  show "rt_publisher r' = rt_publisher r \<or> (\<exists>uri. rt_publisher r' = rt_publisher (snd (publish_discovery_event ho (Revoke uri) r)))"
  proof (cases "map_of (rt_queue_tenants r) k")
    case (Some tenant)
    obtain y r1 where pub: "publish_discovery_event ho (Revoke (queue_registration_uri tenant (snd k))) r = (y, r1)" by fastforce
    then have "rt_publisher r' = rt_publisher r1" using run Some by (cases y) (auto simp: revoke_queue_def bindR_def)
    with pub show ?thesis by (metis snd_conv)
  qed (use run in \<open>simp add: revoke_queue_def\<close>)
qed

lemma teardown_publisher:
  "rt_publisher (forget_process pid r) = rt_publisher r"
  "rt_publisher (foldl (reclaim_handle facts pid) r hs) = rt_publisher r"
  "rt_publisher (foldl (reclaim_region ho facts pid) r js) = rt_publisher r"
proof -
  show "rt_publisher (forget_process pid r) = rt_publisher r"
    by (simp add: forget_process_def Let_def release_quota_def split: option.split)
  show "rt_publisher (foldl (reclaim_handle facts pid) r hs) = rt_publisher r"
    using fold_handles_views(2) [of facts pid r hs] by (simp add: tables_view_def)
  show "rt_publisher (foldl (reclaim_region ho facts pid) r js) = rt_publisher r"
    using fold_regions_views(2) [of ho facts pid r js] by (simp add: tables_view_def)
qed

definition publisher_ok :: "('s \<Rightarrow> bool) \<Rightarrow> ('st, 'rid, 'g, 's) runtime \<Rightarrow> bool" where
  "publisher_ok P r \<longleftrightarrow> (case rt_publisher r of None \<Rightarrow> False | Some s \<Rightarrow> P s)"

locale registry_feed =
  fixes apply_event :: "discovery_request \<Rightarrow> 's \<Rightarrow> 's"
    and names :: "'s \<Rightarrow> u64 \<Rightarrow> bool"
  assumes owner_revoked: "\<not> names (apply_event (RevokeByOwner pid) s) pid"
    and revoke_adds_nothing: "names (apply_event (Revoke uri) s) pid \<Longrightarrow> names s pid"
begin

lemma publish_applies:
  assumes "\<forall>e s. ho_publish ho e s = (Ok (), apply_event e s)"
  shows "rt_publisher (snd (publish_discovery_event ho e r)) = map_option (apply_event e) (rt_publisher r)"
  using assms by (cases "rt_publisher r") (simp_all add: publish_discovery_event_def)

lemma revocations_keep:
  assumes "\<forall>e s. ho_publish ho e s = (Ok (), apply_event e s)"
    and closed: "\<And>s uri. P s \<Longrightarrow> P (apply_event (Revoke uri) s)"
    and "publisher_ok P r"
  shows "for_each (revoke_region ho) ks a r = (x, r') \<Longrightarrow> publisher_ok P r'"
    and "for_each (revoke_queue ho) ks b r = (y, r') \<Longrightarrow> publisher_ok P r'"
proof -
  have step: "publisher_ok P r'" if "publisher_ok P r" "rt_publisher r' = rt_publisher r \<or>
      (\<exists>uri. rt_publisher r' = rt_publisher (snd (publish_discovery_event ho (Revoke uri) r)))" for r r'
    using that closed by (auto simp: publisher_ok_def publish_applies [OF assms(1)] split: option.splits)
  show "for_each (revoke_region ho) ks a r = (x, r') \<Longrightarrow> publisher_ok P r'"
    by (rule for_each_invariant [where P = "publisher_ok P" and step = "revoke_region ho", OF _ assms(3)])
      (rule step, assumption, erule revoke_publishes)
  show "for_each (revoke_queue ho) ks b r = (y, r') \<Longrightarrow> publisher_ok P r'"
    by (rule for_each_invariant [where P = "publisher_ok P" and step = "revoke_queue ho", OF _ assms(3)])
      (rule step, assumption, erule revoke_publishes)
qed

lemma publish_runs:
  assumes "\<forall>e s. ho_publish ho e s = (Ok (), apply_event e s)" "publish_discovery_event ho e r = (x, r')"
    "publisher_ok P r" "\<And>s. P s \<Longrightarrow> Q (apply_event e s)"
  shows "publisher_ok Q r'"
  using publish_applies [OF assms(1), of e r] assms(2-4) by (auto simp: publisher_ok_def split: option.splits)

lemma cleanup_unlists:
  assumes ho: "\<forall>e s. ho_publish ho e s = (Ok (), apply_event e s)"
    and "cleanup_process_resources ho pid tenant r = (Ok u, r')" "rt_publisher r \<noteq> None"
  shows "publisher_ok (\<lambda>s. \<not> names s pid) r'"
proof -
  obtain r2 r3 r4 r6 r8 region_facts queue_facts uri where st:
    "publish_discovery_event ho (Revoke uri) (forget_process pid r) = (Ok (), r2)"
    "for_each (revoke_region ho) (keys_of pid (rt_region_tenants r2)) [] r2 = (Ok region_facts, r3)"
    "publish_discovery_event ho (RevokeByOwner pid) r3 = (Ok (), r4)"
    "for_each (revoke_queue ho) (keys_of pid (rt_queue_tenants r4)) []
       (r4\<lparr>rt_registrations := (rt_registrations r4)(pid := None)\<rparr>) = (Ok queue_facts, r6)"
    "r8 = foldl (reclaim_handle queue_facts pid) (r6\<lparr>rt_handlers := AList.delete pid (rt_handlers r6)\<rparr>)
       (owned_by pid (rt_local_owners r6))"
    "r' = foldl (reclaim_region ho region_facts pid) r8
       (map snd (filter (\<lambda>k. fst k = SharedRegion) (owned_by pid (rt_shared_owners r8))))"
    by (rule cleanup_steps [OF assms(2)])
  have "publisher_ok (\<lambda>_. True) (forget_process pid r)"
    using assms(3) by (auto simp: publisher_ok_def teardown_publisher)
  then have "publisher_ok (\<lambda>_. True) r2" by (rule publish_runs [OF ho st(1)]) simp
  then have "publisher_ok (\<lambda>_. True) r3" using st(2) by (rule revocations_keep(1) [OF ho, rotated]) simp
  then have "publisher_ok (\<lambda>s. \<not> names s pid) r4" by (rule publish_runs [OF ho st(3)]) (rule owner_revoked)
  then have "publisher_ok (\<lambda>s. \<not> names s pid) (r4\<lparr>rt_registrations := (rt_registrations r4)(pid := None)\<rparr>)"
    by (simp add: publisher_ok_def)
  then have "publisher_ok (\<lambda>s. \<not> names s pid) r6"
    using st(4) by (rule revocations_keep(2) [OF ho, rotated]) (blast dest: revoke_adds_nothing)
  then show ?thesis by (simp add: publisher_ok_def st(5,6) teardown_publisher)
qed

end

section \<open>The discovery store provides it\<close>

lemma revoke_lists: "lists (revoke_key uri s) pid \<Longrightarrow> lists s pid"
  by (auto simp: lists_def store_effects ran_def restrict_map_def split: if_splits)

interpretation discovery_feed: registry_feed apply_tier1_event lists
proof
  show "\<not> lists (apply_tier1_event (RevokeByOwner pid) s) pid" for pid s by (rule owner_revocation)
  show "lists (apply_tier1_event (Revoke uri) s) pid \<Longrightarrow> lists s pid" for uri s pid
    by (simp add: apply_tier1_event_def revoke_lists)
qed

section \<open>A stop goes through\<close>

definition succeeds :: "('s, 'e, 'a) comp \<Rightarrow> bool" where
  "succeeds c \<longleftrightarrow> (\<forall>s. \<exists>a t. c s = (Ok a, t))"

lemma succeeds_basic: "succeeds (ret a)" "succeeds (update f)" "succeeds (gets g)"
  by (simp_all add: succeeds_def)

lemma succeeds_bind: "succeeds m \<Longrightarrow> (\<And>a. succeeds (k a)) \<Longrightarrow> succeeds (bindR m k)"
  unfolding succeeds_def bind_Ok_iff by blast

lemma succeeds_for_each: "(\<And>x a. succeeds (c x a)) \<Longrightarrow> succeeds (for_each c xs a)"
  by (induction xs arbitrary: a) (simp_all add: succeeds_basic succeeds_bind)

lemma succeeds_option:
  "succeeds n \<Longrightarrow> (\<And>a. succeeds (s a)) \<Longrightarrow> succeeds (case x of None \<Rightarrow> n | Some a \<Rightarrow> s a)"
  by (cases x) auto

lemmas succeeds_rules = succeeds_basic succeeds_bind succeeds_for_each succeeds_option

lemma cleanup_succeeds:
  fixes ho :: "('st, 'rid, 'g, 'd) host"
  assumes "\<And>e. succeeds (publish_discovery_event ho e :: (('st, 'rid, 'g, 'd) runtime, _, _) comp)"
  shows "succeeds (cleanup_process_resources ho pid tenant)"
  unfolding cleanup_process_resources_def revoke_region_def revoke_queue_def
  by (intro succeeds_rules assms)


lemma stop_succeeds:
  fixes ho :: "('st, 'rid, 'g, 'd) host" and r :: "('st, 'rid, 'g, 'd) runtime"
  assumes "\<And>e. succeeds (publish_discovery_event ho e :: (('st, 'rid, 'g, 'd) runtime, _, _) comp)"
    "map_of (rt_auths r) pid = Some a"
  obtains r' where "stop_process ho pid r = (Ok (), r')"
proof -
  have "fst (kernel_stop pid r) = Ok ()"
    using assms(2) by (cases "pt_processes (rt_processes r) pid") (simp_all add: kernel_stop_def on_processes_def
        kernel_stop_process_def resuming_teardown_def process_not_found_def)
  then obtain t where stop: "kernel_stop pid r = (Ok (), r\<lparr>rt_processes := t\<rparr>)"
    using kernel_stop_frame [of pid r] by (metis prod.collapse)
  let ?r2 = "r\<lparr>rt_processes := t, rt_guests := AList.delete pid (rt_guests r)\<rparr>"
  obtain v r3 where "cleanup_process_resources ho pid (pa_tenant a)
      ((drop_operations pid (?r2\<lparr>rt_auths := AList.delete pid (rt_auths ?r2)\<rparr>))\<lparr>rt_mailboxes :=
         (rt_mailboxes ?r2)(pid := None)\<rparr>) = (Ok v, r3)"
    using cleanup_succeeds [OF assms(1)] unfolding succeeds_def by metis
  then have down: "teardown ho pid ?r2 = (Ok (), r3)" using assms(2) by (simp add: teardown_def)
  let ?r4 = "drop_process_handle pid r3"
  obtain z r6 where reap: "kernel_reap pid (if rt_discovery ?r4 = Some pid then ?r4\<lparr>rt_discovery := None\<rparr> else ?r4) = (z, r6)"
    by fastforce
  with kernel_reap_effect [OF reap] have "stop_process ho pid r = (Ok (), r6)"
    using stop down by (simp add: stop_process_def)
  then show thesis by (rule that)
qed

lemma stop_steps:
  assumes "stop_process ho pid r = (Ok u, r')" "map_of (rt_auths r) pid = Some a"
  obtains r0 r3 v where "cleanup_process_resources ho pid (pa_tenant a) r0 = (Ok v, r3)"
    "rt_auths r0 = AList.delete pid (rt_auths r)" "rt_publisher r0 = rt_publisher r"
    "rt_auths r' = rt_auths r3" "rt_publisher r' = rt_publisher r3"
proof -
  obtain r1 r3 where st: "kernel_stop pid r = (Ok (), r1)"
    "teardown ho pid (r1\<lparr>rt_guests := AList.delete pid (rt_guests r1)\<rparr>) = (Ok (), r3)"
    "kernel_reap pid (let r4 = drop_process_handle pid r3 in
       if rt_discovery r4 = Some pid then r4\<lparr>rt_discovery := None\<rparr> else r4) = (Ok (), r')"
    using assms(1) unfolding stop_process_def bind_Ok_iff by (clarsimp simp: Let_def)
  obtain t1 where r1: "r1 = r\<lparr>rt_processes := t1\<rparr>" using kernel_stop_frame [OF st(1)] by blast
  obtain v where clean: "cleanup_process_resources ho pid (pa_tenant a)
      ((drop_operations pid (r1\<lparr>rt_guests := AList.delete pid (rt_guests r1), rt_auths := AList.delete pid (rt_auths r1)\<rparr>))
         \<lparr>rt_mailboxes := (rt_mailboxes r1)(pid := None)\<rparr>) = (Ok v, r3)"
    using st(2) assms(2) by (auto simp: teardown_def r1 split: prod.splits sum.splits)
  obtain t where "r' = (let r4 = drop_process_handle pid r3 in
       if rt_discovery r4 = Some pid then r4\<lparr>rt_discovery := None\<rparr> else r4)\<lparr>rt_processes := t\<rparr>"
    using kernel_reap_effect [OF st(3)] by blast
  then have "rt_auths r' = rt_auths r3" "rt_publisher r' = rt_publisher r3"
    by (simp_all add: drop_process_handle_def Let_def)
  then show thesis by (rule that [OF clean, rotated 2]) (simp_all add: drop_operations_def r1)
qed

lemma stop_auths:
  assumes "stop_process ho pid r = (Ok u, r')" "map_of (rt_auths r) pid = Some a"
  shows "rt_auths r' = AList.delete pid (rt_auths r)"
  using assms
proof (rule stop_steps)
  fix r0 r3 v
  assume st: "cleanup_process_resources ho pid (pa_tenant a) r0 = (Ok v, r3)"
    "rt_auths r0 = AList.delete pid (rt_auths r)" "rt_auths r' = rt_auths r3"
  have "stopped_view r3 = stopped_view r0" by (rule keeps_run [OF cleanup_views st(1)])
  with st(2,3) show ?thesis by (simp add: stopped_view_def)
qed


definition feed_host :: "(sample_store, nat, nat, discovery_store) host" where
  "feed_host =
    \<lparr>ho_engine = sample_engine, ho_publish = (\<lambda>e s. (Ok (), apply_tier1_event e s)), ho_digest = (\<lambda>bs. take 32 bs),
     ho_certs = sample_certificates, ho_attach = (\<lambda>_ _ _ g. (Ok 0, g)), ho_registry = True,
     ho_detach = (\<lambda>_ g. g), ho_stats = (\<lambda>_. None), ho_budget = (\<lambda>_ g. g), ho_start_workers = Ok,
     ho_socket_addr = Some, ho_arguments = (\<lambda>_. Some []), ho_log_record = (\<lambda>_. None),
     ho_load = (\<lambda>_ _ r. (Ok 0, r)), ho_run = (\<lambda>_ _ g r. (Ok (g, False), r))\<rparr>"

definition feed_runtime :: "(sample_store, nat, nat, discovery_store) runtime" where
  "feed_runtime = (runtime_new sample_registry (pt_new 42))\<lparr>rt_auths := [(5, sample_authority)],
     rt_publisher := Some sample_regions\<rparr>"


end
