(* ===== verification/Accountant.thy ===== *)
theory Accountant
  imports Hostcalls
begin

text \<open>
  The accountant and the bookkeeper (\<^verbatim>\<open>guests/accountant/src/lib.rs\<close>): usage arithmetic, the ledger and
  the projection rebuilt from it, billing windows, the authoring of quotas and capability narrowing, and
  the reduction of samples.  The state of the accountant is the record \<open>accountant\<close>; the hostcalls it
  makes are collected in it.  The codecs of the ledger and of the narrowing table are generated code, and
  whether the log and the table accept an entry is decided elsewhere: both are the record \<open>accountant_env\<close>.
  The type of an encoded ledger record is a parameter; the accountant never looks inside one.
\<close>

section \<open>Usage\<close>

record usage =
  us_cpu :: u64
  us_memory :: u64
  us_storage :: u64
  us_bandwidth :: u64

definition no_usage :: usage where
  "no_usage = \<lparr>us_cpu = 0, us_memory = 0, us_storage = 0, us_bandwidth = 0\<rparr>"

definition add_counters :: "usage \<Rightarrow> usage \<Rightarrow> usage" where
  "add_counters u v = u\<lparr>us_cpu := saturating_add (us_cpu u) (us_cpu v),
     us_bandwidth := saturating_add (us_bandwidth u) (us_bandwidth v)\<rparr>"

definition merge_gauges :: "usage \<Rightarrow> usage \<Rightarrow> usage" where
  "merge_gauges u v = u\<lparr>us_memory := max (us_memory u) (us_memory v), us_storage := max (us_storage u) (us_storage v)\<rparr>"

definition over :: "usage \<Rightarrow> usage \<Rightarrow> usage" where
  "over u ceiling = \<lparr>us_cpu = saturating_sub (us_cpu u) (us_cpu ceiling),
     us_memory = saturating_sub (us_memory u) (us_memory ceiling),
     us_storage = saturating_sub (us_storage u) (us_storage ceiling),
     us_bandwidth = saturating_sub (us_bandwidth u) (us_bandwidth ceiling)\<rparr>"

definition exceeds :: "usage \<Rightarrow> usage \<Rightarrow> bool" where
  "exceeds u ceiling \<longleftrightarrow> us_cpu u > us_cpu ceiling \<or> us_memory u > us_memory ceiling \<or>
     us_storage u > us_storage ceiling \<or> us_bandwidth u > us_bandwidth ceiling"

section \<open>Accounts and the ledger\<close>

datatype ledger_record =
    Window string u64 usage usage
  | SetPlan string usage
  | SetOverage string usage
  | Delinquent string
  | Restored string
  | SetProcessQuota string u64

datatype account_state = Paid | InOverage | AtBudget | Suspended

record account =
  ac_plan :: usage
  ac_overage :: usage
  ac_process_quota :: u64
  ac_delinquent :: bool
  ac_last_usage :: usage

definition default_account :: account where
  "default_account = \<lparr>ac_plan = no_usage, ac_overage = no_usage, ac_process_quota = 100, ac_delinquent = False,
     ac_last_usage = no_usage\<rparr>"

definition saturating_sum :: "usage \<Rightarrow> usage \<Rightarrow> usage" where
  "saturating_sum u v = \<lparr>us_cpu = saturating_add (us_cpu u) (us_cpu v),
     us_memory = saturating_add (us_memory u) (us_memory v),
     us_storage = saturating_add (us_storage u) (us_storage v),
     us_bandwidth = saturating_add (us_bandwidth u) (us_bandwidth v)\<rparr>"

definition hard_ceiling :: "account \<Rightarrow> usage" where
  "hard_ceiling a = saturating_sum (ac_plan a) (ac_overage a)"

definition state_of :: "account \<Rightarrow> account_state" where
  "state_of a =
    (if ac_delinquent a then Suspended
     else if exceeds (ac_last_usage a) (hard_ceiling a) then AtBudget
     else if exceeds (ac_last_usage a) (ac_plan a) then InOverage
     else Paid)"

fun account_apply :: "ledger_record \<Rightarrow> account \<Rightarrow> account" where
  "account_apply (Window _ _ u _) a = a\<lparr>ac_last_usage := u\<rparr>"
| "account_apply (SetPlan _ p) a = a\<lparr>ac_plan := p\<rparr>"
| "account_apply (SetOverage _ x) a = a\<lparr>ac_overage := x\<rparr>"
| "account_apply (SetProcessQuota _ n) a = a\<lparr>ac_process_quota := n\<rparr>"
| "account_apply (Delinquent _) a = a\<lparr>ac_delinquent := True\<rparr>"
| "account_apply (Restored _) a = a\<lparr>ac_delinquent := False\<rparr>"

record account_book =
  ab_accounts :: "(string \<times> account) list"
  ab_history :: "(string \<times> (u64 \<times> usage \<times> usage) list) list"

definition empty_book :: account_book where
  "empty_book = \<lparr>ab_accounts = [], ab_history = []\<rparr>"

abbreviation or_default :: "('k \<times> 'v) list \<Rightarrow> 'k \<Rightarrow> 'v \<Rightarrow> 'v" where
  "or_default m k d \<equiv> (case map_of m k of None \<Rightarrow> d | Some v \<Rightarrow> v)"

definition account_of :: "account_book \<Rightarrow> string \<Rightarrow> account" where
  "account_of b tenant = or_default (ab_accounts b) tenant default_account"

fun record_tenant :: "ledger_record \<Rightarrow> string" where
  "record_tenant (Window t _ _ _) = t"
| "record_tenant (SetPlan t _) = t"
| "record_tenant (SetOverage t _) = t"
| "record_tenant (Delinquent t) = t"
| "record_tenant (Restored t) = t"
| "record_tenant (SetProcessQuota t _) = t"

definition book_apply :: "ledger_record \<Rightarrow> account_book \<Rightarrow> account_book" where
  "book_apply rec b =
    (let t = record_tenant rec;
         b1 = b\<lparr>ab_accounts := AList.update t (account_apply rec (account_of b t)) (ab_accounts b)\<rparr>
     in case rec of
          Window _ start u x \<Rightarrow>
            b1\<lparr>ab_history := AList.update t (or_default (ab_history b1) t [] @ [(start, u, x)]) (ab_history b1)\<rparr>
        | _ \<Rightarrow> b1)"

definition rebuild_payloads :: "('p \<Rightarrow> ledger_record option) \<Rightarrow> 'p list \<Rightarrow> account_book \<Rightarrow> account_book" where
  "rebuild_payloads dec payloads b =
    foldl (\<lambda>b payload. case dec payload of Some rec \<Rightarrow> book_apply rec b | None \<Rightarrow> b) b payloads"

section \<open>Billing windows\<close>

record metering_bucket =
  mb_tenant :: string
  mb_usage :: usage
  mb_published :: u64

record rolling_window =
  rw_start :: u64
  rw_usage :: "(string \<times> usage) list"

definition window_merge :: "metering_bucket \<Rightarrow> rolling_window \<Rightarrow> rolling_window" where
  "window_merge bucket w =
    (let entry = or_default (rw_usage w) (mb_tenant bucket) no_usage;
         u = mb_usage bucket;
         counted = add_counters entry (u\<lparr>us_memory := 0, us_storage := 0\<rparr>);
         merged = merge_gauges counted (u\<lparr>us_cpu := 0, us_bandwidth := 0\<rparr>)
     in w\<lparr>rw_usage := AList.update (mb_tenant bucket) merged (rw_usage w)\<rparr>)"

definition into_records :: "(string \<times> account) list \<Rightarrow> rolling_window \<Rightarrow> ledger_record list" where
  "into_records accounts w =
    map (\<lambda>(tenant, u). Window tenant (rw_start w) u
           (over u (case map_of accounts tenant of None \<Rightarrow> no_usage | Some a \<Rightarrow> ac_plan a))) (rw_usage w)"

definition WINDOW_SECS :: u64 where "WINDOW_SECS = 60"

definition bucket_second :: "metering_bucket \<Rightarrow> u64" where
  "bucket_second bucket = mb_published bucket - mb_published bucket mod WINDOW_SECS"

definition window_complete :: "u64 option \<Rightarrow> rolling_window \<Rightarrow> bool" where
  "window_complete now w \<longleftrightarrow> (case now of None \<Rightarrow> False | Some s \<Rightarrow> s \<ge> rw_start w + WINDOW_SECS)"

section \<open>Enforcement\<close>

record enforcement =
  en_cpu :: u64
  en_memory :: u64
  en_storage :: u64
  en_processes :: u64
  en_narrowing :: "capability list"

definition all_capabilities :: "capability list" where
  "all_capabilities =
    [ProcessLifecycle, SharedMemory, Signal, Network, Storage, SessionLifecycle, ActivityRead, MeteringRead,
     GuestLogRead, GuestLogWrite, HostQueue, DelegateGrants, SystemRegistration, MintCertificate, QuotaWrite]"

definition accountant_grants :: "capability_grant list" where
  "accountant_grants =
    [\<lparr>cg_capability = QuotaWrite, cg_selectors = []\<rparr>,
     \<lparr>cg_capability = Storage, cg_selectors = [ClassSel DurableLog]\<rparr>,
     \<lparr>cg_capability = SharedMemory, cg_selectors = [ClassSel SharedRegion]\<rparr>,
     \<lparr>cg_capability = HostQueue, cg_selectors = [ClassSel HostQueueClass]\<rparr>,
     \<lparr>cg_capability = SystemRegistration, cg_selectors = []\<rparr>]"

definition bookkeeper_grants :: "capability_grant list" where
  "bookkeeper_grants =
    [\<lparr>cg_capability = MeteringRead, cg_selectors = [ClassSel MeteringStream]\<rparr>,
     \<lparr>cg_capability = ActivityRead, cg_selectors = [ClassSel ActivityLog]\<rparr>,
     \<lparr>cg_capability = SharedMemory, cg_selectors = [ClassSel SharedRegion]\<rparr>,
     \<lparr>cg_capability = SystemRegistration, cg_selectors = []\<rparr>]"

definition enforcement_for :: "usage \<Rightarrow> usage \<Rightarrow> u64 \<Rightarrow> bool \<Rightarrow> enforcement" where
  "enforcement_for plan overage process_quota delinquent =
    (let hard = saturating_sum plan overage
     in if delinquent
        then \<lparr>en_cpu = 0, en_memory = 0, en_storage = 0, en_processes = 0, en_narrowing = all_capabilities\<rparr>
        else \<lparr>en_cpu = us_cpu hard, en_memory = us_memory hard, en_storage = us_storage hard,
              en_processes = process_quota, en_narrowing = []\<rparr>)"

section \<open>The accountant's state\<close>

record 'p accountant_env =
  ae_encode :: "ledger_record \<Rightarrow> 'p option"
  ae_decode :: "'p \<Rightarrow> ledger_record option"
  ae_append :: "'p list \<Rightarrow> 'p \<Rightarrow> bool"
  ae_encode_caps :: "capability list \<Rightarrow> u8 list option"
  ae_table_set :: "string \<Rightarrow> u8 list \<Rightarrow> bool"

record 'p accountant =
  sh_accounts :: account_book
  sh_ledger :: "'p list"
  sh_narrowing :: "(string \<times> u8 list) list"
  sh_window :: "rolling_window option"
  sh_calls :: "hostcall_request list"

definition merge_bucket :: "metering_bucket \<Rightarrow> 'p accountant \<Rightarrow> 'p accountant" where
  "merge_bucket bucket sh =
    (let start = bucket_second bucket;
         w = (case sh_window sh of
                Some w \<Rightarrow> if rw_start w = start then w else \<lparr>rw_start = start, rw_usage = []\<rparr>
              | None \<Rightarrow> \<lparr>rw_start = start, rw_usage = []\<rparr>)
     in sh\<lparr>sh_window := Some (window_merge bucket w)\<rparr>)"

definition append_record :: "'p accountant_env \<Rightarrow> ledger_record \<Rightarrow> 'p accountant \<Rightarrow> 'p accountant" where
  "append_record env rec sh =
    (case ae_encode env rec of
       None \<Rightarrow> sh
     | Some payload \<Rightarrow>
         if ae_append env (sh_ledger sh) payload then sh\<lparr>sh_ledger := sh_ledger sh @ [payload]\<rparr> else sh)"

definition keep_record :: "'p accountant_env \<Rightarrow> ledger_record \<Rightarrow> 'p accountant \<Rightarrow> 'p accountant" where
  "keep_record env rec sh =
    (let sh1 = append_record env rec sh in sh1\<lparr>sh_accounts := book_apply rec (sh_accounts sh1)\<rparr>)"

definition roll_window :: "'p accountant_env \<Rightarrow> rolling_window \<Rightarrow> 'p accountant \<Rightarrow> ledger_record list \<times> 'p accountant" where
  "roll_window env w sh =
    (let records = into_records (ab_accounts (sh_accounts sh)) w
     in (records, fold (keep_record env) records sh))"

definition author_enforcement :: "'p accountant_env \<Rightarrow> string \<Rightarrow> 'p accountant \<Rightarrow> 'p accountant" where
  "author_enforcement env tenant sh =
    (let a = account_of (sh_accounts sh) tenant;
         e = enforcement_for (ac_plan a) (ac_overage a) (ac_process_quota a) (ac_delinquent a);
         sh1 = sh\<lparr>sh_calls := sh_calls sh @
           [QuotaSet tenant SharedRegion (en_memory e),
            QuotaSet tenant DurableLog (en_storage e), QuotaSet tenant BlobStore (en_storage e),
            QuotaSet tenant ProcessClass (en_processes e),
            QuotaSet tenant Cpu (en_cpu e)]\<rparr>
     in case ae_encode_caps env (en_narrowing e) of
          None \<Rightarrow> sh1
        | Some bytes \<Rightarrow>
            if ae_table_set env tenant bytes
            then sh1\<lparr>sh_narrowing := AList.update tenant bytes (sh_narrowing sh1)\<rparr> else sh1)"

definition apply_policy :: "'p accountant_env \<Rightarrow> string \<Rightarrow> ledger_record \<Rightarrow> 'p accountant \<Rightarrow> 'p accountant" where
  "apply_policy env tenant rec sh = author_enforcement env tenant (keep_record env rec sh)"

text \<open>A start replays the ledger and authors the enforcement of every tenant on record.\<close>

definition accountant_start :: "'p accountant_env \<Rightarrow> 'p list \<Rightarrow> 'p accountant" where
  "accountant_start env payloads =
    (let book = rebuild_payloads (ae_decode env) payloads empty_book;
         sh = \<lparr>sh_accounts = book, sh_ledger = payloads, sh_narrowing = [], sh_window = None, sh_calls = []\<rparr>
     in fold (author_enforcement env) (map fst (ab_accounts book)) sh)"

section \<open>Controls\<close>

datatype accountant_control =
    SetPlanControl string usage
  | SetOverageControl string usage
  | MarkDelinquent string
  | MarkRestored string
  | SetProcessQuotaControl string u64

datatype accountant_response = AccountUpdated string | AccountError string

fun control_record :: "accountant_control \<Rightarrow> ledger_record" where
  "control_record (SetPlanControl tenant plan) = SetPlan tenant plan"
| "control_record (SetOverageControl tenant overage) = SetOverage tenant overage"
| "control_record (MarkDelinquent tenant) = Delinquent tenant"
| "control_record (MarkRestored tenant) = Restored tenant"
| "control_record (SetProcessQuotaControl tenant processes) = SetProcessQuota tenant processes"

definition apply_control ::
    "'p accountant_env \<Rightarrow> accountant_control \<Rightarrow> 'p accountant \<Rightarrow> accountant_response \<times> 'p accountant" where
  "apply_control env control sh =
    (let rec = control_record control; tenant = record_tenant rec
     in (AccountUpdated tenant, apply_policy env tenant rec sh))"

text \<open>The tier of a session comes from the runtime's answer to the query for the client's tenant; a
  payload that does not decode is an error.\<close>

definition operator_tier :: "('e, string option) result \<Rightarrow> bool" where
  "operator_tier answer = (case answer of Ok None \<Rightarrow> True | _ \<Rightarrow> False)"

definition handle_control ::
    "'p accountant_env \<Rightarrow> bool \<Rightarrow> (string, accountant_control) result \<Rightarrow> 'p accountant \<Rightarrow> accountant_response \<times> 'p accountant" where
  "handle_control env operator payload sh =
    (case payload of
       Err e \<Rightarrow> (AccountError e, sh)
     | Ok control \<Rightarrow>
         if \<not> operator then (AccountError ''operator tier required'', sh) else apply_control env control sh)"

section \<open>The rolling loop\<close>

definition roll_due :: "'p accountant_env \<Rightarrow> u64 option \<Rightarrow> 'p accountant \<Rightarrow> ledger_record list \<times> 'p accountant" where
  "roll_due env now sh =
    (case sh_window sh of
       Some w \<Rightarrow>
         if window_complete now w then roll_window env w (sh\<lparr>sh_window := None\<rparr>) else ([], sh)
     | None \<Rightarrow> ([], sh))"

definition roll_and_author :: "'p accountant_env \<Rightarrow> u64 option \<Rightarrow> 'p accountant \<Rightarrow> 'p accountant" where
  "roll_and_author env now sh =
    (let (records, sh1) = roll_due env now sh
     in fold (author_enforcement env) (map record_tenant records) sh1)"

text \<open>One turn of the loop: a bucket that was read, or a pass that found the topic empty.\<close>

definition roll_turn :: "'p accountant_env \<Rightarrow> u64 option \<Rightarrow> metering_bucket option \<Rightarrow> 'p accountant \<Rightarrow> 'p accountant" where
  "roll_turn env now bucket sh =
    (let sh1 = roll_and_author env now sh
     in case bucket of None \<Rightarrow> sh1 | Some b \<Rightarrow> merge_bucket b sh1)"

section \<open>The bookkeeper\<close>

record counters =
  cc_cpu :: u64
  cc_bandwidth :: u64

record process_sample =
  sm_process :: u64
  sm_tenant :: "string option"
  sm_observation :: metering_observation

definition reduce_sample ::
    "process_sample \<Rightarrow> (string \<times> usage) list \<times> (u64 \<times> counters) list \<Rightarrow> (string \<times> usage) list \<times> (u64 \<times> counters) list" where
  "reduce_sample sample st =
    (case (sm_tenant sample, st) of
       (None, _) \<Rightarrow> st
     | (Some tenant, (buckets, retained)) \<Rightarrow>
         let obs = sm_observation sample;
             prev = or_default retained (sm_process sample) \<lparr>cc_cpu = 0, cc_bandwidth = 0\<rparr>;
             cpu_delta = saturating_sub (mo_cpu obs) (cc_cpu prev);
             bandwidth_delta = saturating_sub (mo_bandwidth obs) (cc_bandwidth prev);
             bucket = or_default buckets tenant no_usage;
             counted = add_counters bucket (no_usage\<lparr>us_cpu := cpu_delta, us_bandwidth := bandwidth_delta\<rparr>);
             merged = merge_gauges counted (no_usage\<lparr>us_memory := mo_memory obs, us_storage := mo_storage obs\<rparr>)
         in (AList.update tenant merged buckets,
             AList.update (sm_process sample) \<lparr>cc_cpu = mo_cpu obs, cc_bandwidth = mo_bandwidth obs\<rparr> retained))"

definition reduce_samples ::
    "process_sample list \<Rightarrow> (u64 \<times> counters) list \<Rightarrow> (string \<times> usage) list \<times> (u64 \<times> counters) list" where
  "reduce_samples samples retained = fold reduce_sample samples ([], retained)"

definition sync_inventory ::
    "activity_event list \<Rightarrow> (u64 \<times> string option) list \<times> nat \<Rightarrow> (u64 \<times> string option) list \<times> nat" where
  "sync_inventory events st =
    foldl (\<lambda>(inventory, cursor) event.
      (case av_process event of
         None \<Rightarrow> inventory
       | Some pid \<Rightarrow>
           (case av_kind event of
              ProcessStarted \<Rightarrow> if map_of inventory pid = None then AList.update pid None inventory else inventory
            | ProcessExited \<Rightarrow> AList.delete pid inventory
            | ProcessStopped \<Rightarrow> AList.delete pid inventory
            | _ \<Rightarrow> inventory),
       Suc cursor)) st events"

end
