(* ===== verification/Tenant_Lookup.thy ===== *)
theory Tenant_Lookup
  imports Discovery_Feed Accountant_Properties
begin

text \<open>
  How the system guests learn the tenant of a client: the guest library's \<^verbatim>\<open>process_tenant\<close>
  (\<^verbatim>\<open>crates/guest/src/hostcall.rs\<close>) over the runtime's hostcall, and what the discovery guest and the
  accountant conclude from the answer.
\<close>

text \<open>The answer to the query: the tenant, or an error when the call failed (\<open>Some\<close> its code) or returned
  another output.\<close>

definition tenant_answer ::
    "(abi_error_code, host_operation_state) result \<Rightarrow> (abi_error_code option, string option) result" where
  "tenant_answer outcome =
    (case outcome of
       Ok (ReadyState (TenantOut tenant)) \<Rightarrow> Ok tenant
     | Ok _ \<Rightarrow> Err None
     | Err e \<Rightarrow> Err (Some e))"

definition client_tenant ::
    "('st, 'rid, 'g, 'd) host \<Rightarrow> host_inputs \<Rightarrow> u64 \<Rightarrow> u64 \<Rightarrow> ('st, 'rid, 'g, 'd) runtime \<Rightarrow>
     (abi_error_code option, string option) result" where
  "client_tenant ho inp server client r = tenant_answer (fst (dispatch_hostcall ho inp server (ProcessTenant client) r))"

lemma client_tenant_known:
  assumes "map_of (rt_auths r) server \<noteq> None"
  shows "client_tenant ho inp server client r = Ok (process_tenant (rt_auths r) client)"
  using assms by (auto simp: client_tenant_def dispatch_hostcall_def tenant_answer_def ready_def)

text \<open>The scope a request of the client is served with by the discovery guest.\<close>

definition request_scope :: "('e, string option) result \<Rightarrow> string option option" where
  "request_scope answer = (case answer of Ok tenant \<Rightarrow> Some tenant | Err _ \<Rightarrow> None)"

text \<open>C39. A client that has been stopped is taken for a root principal.  While a tenant's process runs, the
  accountant refuses its controls and discovery scopes it to its tenant.  After the runtime has stopped
  it, the same query answers that the client has no tenant, without an error: a request it left behind is
  applied by the accountant with the operator tier, and served by discovery with every tenant's targets
  in scope.\<close>

theorem stopped_client_passes_for_operator:
  assumes "map_of (rt_auths r) client = Some a" "pa_tenant a = Some tenant"
    "stop_process ho client r = (Ok u, r')" "map_of (rt_auths r) server \<noteq> None" "server \<noteq> client"
  shows "operator_tier (client_tenant ho inp server client r) = False \<and>
    request_scope (client_tenant ho inp server client r) = Some (Some tenant) \<and>
    handle_control env (operator_tier (client_tenant ho inp server client r')) (Ok control) sh = apply_control env control sh \<and>
    request_scope (client_tenant ho inp server client r') = Some None \<and>
    (\<forall>s uri t. map_of (ds_registrations s) uri = Some t \<longrightarrow>
       fst (fst (serve_request client (Some None) held (Resolve uri) s)) = Found t)"
proof -
  have after: "client_tenant ho inp server client r' = Ok None"
    using client_tenant_known [of r' server ho inp client] stop_auths [OF assms(3,1)] assms(4,5)
    by (simp add: process_tenant_def delete_conv')
  have before: "client_tenant ho inp server client r = Ok (Some tenant)"
    using client_tenant_known [OF assms(4)] assms(1,2) by (simp add: process_tenant_def)
  have "fst (fst (serve_request client (Some None) held (Resolve uri) s)) = Found t"
    if "map_of (ds_registrations s) uri = Some t" for s uri t
    using that by (simp add: serve_request_def resolve_exact_def resolve_internal_def tenant_admits_def)
  then show ?thesis
    by (simp add: before after operator_tier_def handle_control_def request_scope_def)
qed

definition two_clients :: "(sample_store, nat, nat, discovery_store) runtime" where
  "two_clients = feed_runtime\<lparr>rt_auths := [(5, sample_authority), (9, sample_authority)]\<rparr>"

theorem stopped_client_passes_for_operator_witness:
  "\<exists>r'. stop_process feed_host 5 two_clients = (Ok (), r') \<and>
     \<not> operator_tier (client_tenant feed_host sample_inputs 9 5 two_clients) \<and>
     handle_control sample_env (operator_tier (client_tenant feed_host sample_inputs 9 5 r'))
       (Ok (MarkRestored ''acme'')) (accountant_start sample_env []) =
     apply_control sample_env (MarkRestored ''acme'') (accountant_start sample_env [])"
proof -
  have known: "map_of (rt_auths two_clients) 5 = Some sample_authority" "pa_tenant sample_authority = Some ''acme''"
    "map_of (rt_auths two_clients) 9 \<noteq> None"
    by (simp_all add: two_clients_def sample_authority_def)
  have "succeeds (publish_discovery_event feed_host e)" for e
    by (auto simp: succeeds_def publish_discovery_event_def feed_host_def split: option.split)
  then obtain r' where run: "stop_process feed_host 5 two_clients = (Ok (), r')" by (rule stop_succeeds [OF _ known(1)])
  from stopped_client_passes_for_operator [OF known(1,2) run known(3), of sample_inputs sample_env
      "MarkRestored ''acme''" "accountant_start sample_env []"] run
  show ?thesis by simp
qed

end
