(* ===== verification/Billing.thy ===== *)
theory Billing
  imports Accountant_Properties
begin

text \<open>
  Billing windows along the rolling loop of the accountant: what the ledger of a tenant adds up to when
  buckets are read in time, and what becomes of a minute that is read late.
\<close>

section \<open>Saturating sums\<close>

lemma u64_eqI: "unat a = unat b \<Longrightarrow> a = (b :: u64)"
  by (simp add: word_unat_eq_iff)

lemma min_plus_assoc: "min (min (a + b) m + c) m = min (a + min (b + c) m) (m :: nat)"
  by linarith

interpretation sat: comm_monoid saturating_add "0 :: u64"
proof
  fix a b c :: u64
  show "saturating_add (saturating_add a b) c = saturating_add a (saturating_add b c)"
    by (rule u64_eqI) (simp only: unat_saturating_add min_plus_assoc)
  show "saturating_add a b = saturating_add b a"
    by (rule u64_eqI) (simp only: unat_saturating_add add.commute)
  show "saturating_add a 0 = a" using unat_u64_lt [of a] by (intro u64_eqI) (simp add: unat_saturating_add)
qed

definition sat_sum :: "u64 list \<Rightarrow> u64" where
  "sat_sum xs = foldr saturating_add xs 0"

lemma sat_sum_simps [simp]:
  "sat_sum [] = 0" "sat_sum (x # xs) = saturating_add x (sat_sum xs)"
  "sat_sum (xs @ ys) = saturating_add (sat_sum xs) (sat_sum ys)"
proof -
  show "sat_sum [] = 0" "sat_sum (x # xs) = saturating_add x (sat_sum xs)" by (simp_all add: sat_sum_def)
  show "sat_sum (xs @ ys) = saturating_add (sat_sum xs) (sat_sum ys)"
    by (induction xs) (simp_all add: sat_sum_def sat.assoc)
qed

section \<open>What a roll writes\<close>

abbreviation history :: "'p accountant \<Rightarrow> string \<Rightarrow> (u64 \<times> usage \<times> usage) list" where
  "history sh t \<equiv> or_default (ab_history (sh_accounts sh)) t []"

fun window_entry :: "string \<Rightarrow> ledger_record \<Rightarrow> (u64 \<times> usage \<times> usage) list" where
  "window_entry t (Window t' s u x) = (if t' = t then [(s, u, x)] else [])"
| "window_entry t _ = []"

lemma keep_record_history: "history (keep_record env rec sh) t = history sh t @ window_entry t rec"
  by (cases rec; auto simp: book_apply_def Let_def update_conv' split: option.splits)

lemma keep_records_history:
  "history (fold (keep_record env) recs sh) t = history sh t @ concat (map (window_entry t) recs)"
  by (induction recs arbitrary: sh) (simp_all del: keep_record_effect add: keep_record_history)

lemma keep_records_window: "sh_window (fold (keep_record env) recs sh) = sh_window sh"
  by (induction recs arbitrary: sh) simp_all

lemma into_records_entries:
  "concat (map (window_entry t) (into_records accounts w)) =
    map (\<lambda>(_, u). (rw_start w, u, over u (case map_of accounts t of None \<Rightarrow> no_usage | Some a \<Rightarrow> ac_plan a)))
      (filter (\<lambda>(t', _). t' = t) (rw_usage w))"
proof -
  have "concat (map (window_entry t) (map (\<lambda>(tenant, u). Window tenant s u (over u (g tenant))) xs)) =
      map (\<lambda>(_, u). (s, u, over u (g t))) (filter (\<lambda>(t', _). t' = t) xs)" for s g xs
    by (induction xs) auto
  then show ?thesis unfolding into_records_def .
qed

lemma filter_key:
  "distinct (map fst xs) \<Longrightarrow>
    filter (\<lambda>(k, _). k = t) xs = (case map_of xs t of None \<Rightarrow> [] | Some u \<Rightarrow> [(t, u)])"
proof (induction xs)
  case (Cons x xs)
  moreover have "t \<notin> fst ` set xs \<Longrightarrow> map_of xs t = None" by (simp add: map_of_eq_None_iff)
  ultimately show ?case by (cases x) (auto split: option.splits)
qed simp

abbreviation plan_of :: "'p accountant \<Rightarrow> string \<Rightarrow> usage" where
  "plan_of sh t \<equiv> ac_plan (account_of (sh_accounts sh) t)"

lemma plan_lookup:
  "(case map_of (ab_accounts b) t of None \<Rightarrow> no_usage | Some a \<Rightarrow> ac_plan a) = ac_plan (account_of b t)"
  by (simp add: account_of_def default_account_def split: option.split)

lemma roll_open:
  "sh_window sh = None \<Longrightarrow> roll_and_author env now sh = sh"
  "sh_window sh = Some w \<Longrightarrow> \<not> window_complete now w \<Longrightarrow> roll_and_author env now sh = sh"
  by (simp_all add: roll_and_author_def roll_due_def)

text \<open>A window whose minute has elapsed becomes one entry for each tenant in it.\<close>

lemma roll_elapsed:
  assumes "sh_window sh = Some w" "window_complete now w" "distinct (map fst (rw_usage w))"
  shows "sh_window (roll_and_author env now sh) = None"
    "history (roll_and_author env now sh) t = history sh t @
       (case map_of (rw_usage w) t of None \<Rightarrow> [] | Some u \<Rightarrow> [(rw_start w, u, over u (plan_of sh t))])"
proof -
  let ?recs = "into_records (ab_accounts (sh_accounts sh)) w"
  have eq: "roll_and_author env now sh =
      fold (author_enforcement env) (map record_tenant ?recs) (fold (keep_record env) ?recs (sh\<lparr>sh_window := None\<rparr>))"
    using assms(1,2) by (simp add: roll_and_author_def roll_due_def roll_window_def Let_def)
  show "sh_window (roll_and_author env now sh) = None"
    by (simp add: eq keep_records_window del: keep_record_effect)
  show "history (roll_and_author env now sh) t = history sh t @
       (case map_of (rw_usage w) t of None \<Rightarrow> [] | Some u \<Rightarrow> [(rw_start w, u, over u (plan_of sh t))])"
    unfolding eq author_all_keeps keep_records_history into_records_entries filter_key [OF assms(3)] plan_lookup
    by (simp split: option.split)
qed

section \<open>Counters\<close>

definition merged_usage :: "usage \<Rightarrow> usage \<Rightarrow> usage" where
  "merged_usage entry u =
    merge_gauges (add_counters entry (u\<lparr>us_memory := 0, us_storage := 0\<rparr>)) (u\<lparr>us_cpu := 0, us_bandwidth := 0\<rparr>)"

lemma window_merge_alt:
  "window_merge b w = w\<lparr>rw_usage :=
     AList.update (mb_tenant b) (merged_usage (or_default (rw_usage w) (mb_tenant b) no_usage) (mb_usage b)) (rw_usage w)\<rparr>"
  by (simp add: window_merge_def merged_usage_def Let_def)

text \<open>A dimension that accumulates: merging a bucket adds its reading.\<close>

locale counter =
  fixes reading :: "usage \<Rightarrow> u64"
  assumes reading_none: "reading no_usage = 0"
    and reading_merged: "reading (merged_usage entry u) = saturating_add (reading entry) (reading u)"
begin

definition pending :: "string \<Rightarrow> 'p accountant \<Rightarrow> u64" where
  "pending t sh = (case sh_window sh of None \<Rightarrow> 0 | Some w \<Rightarrow> reading (or_default (rw_usage w) t no_usage))"

definition total :: "string \<Rightarrow> 'p accountant \<Rightarrow> u64" where
  "total t sh = saturating_add (sat_sum (map (\<lambda>(_, u, _). reading u) (history sh t))) (pending t sh)"

lemma roll_total:
  assumes "\<And>w. sh_window sh = Some w \<Longrightarrow> distinct (map fst (rw_usage w))"
  shows "total t (roll_and_author env now sh) = total t sh"
proof (cases "\<exists>w. sh_window sh = Some w \<and> window_complete now w")
  case True
  then obtain w where w: "sh_window sh = Some w" "window_complete now w" by blast
  show ?thesis unfolding total_def pending_def roll_elapsed [OF w assms [OF w(1)]] w(1)
    by (simp add: reading_none split: option.split)
next
  case False
  then show ?thesis by (cases "sh_window sh") (simp_all add: roll_open)
qed

lemma merge_total:
  assumes "\<And>w. sh_window sh = Some w \<Longrightarrow> rw_start w = bucket_second b"
  shows "total t (merge_bucket b sh) =
    (if mb_tenant b = t then saturating_add (total t sh) (reading (mb_usage b)) else total t sh)"
  using assms
  by (cases "sh_window sh")
    (auto simp: total_def pending_def merge_bucket_def window_merge_alt update_conv' reading_merged reading_none sat.assoc Let_def)

end

interpretation cpu: counter us_cpu
  by unfold_locales (simp_all add: no_usage_def merged_usage_def merge_gauges_def add_counters_def)

interpretation bandwidth: counter us_bandwidth
  by unfold_locales (simp_all add: no_usage_def merged_usage_def merge_gauges_def add_counters_def)

section \<open>Buckets in order\<close>

text \<open>The turns of the loop when the bookkeeper stamps its buckets in order and the accountant's clock does
  not run behind the stamps.\<close>

fun timely :: "u64 \<Rightarrow> (u64 option \<times> metering_bucket option) list \<Rightarrow> bool" where
  "timely m [] \<longleftrightarrow> True"
| "timely m ((now, None) # turns) \<longleftrightarrow> timely m turns"
| "timely m ((None, Some b) # turns) \<longleftrightarrow> False"
| "timely m ((Some s, Some b) # turns) \<longleftrightarrow>
     m \<le> bucket_second b \<and> mb_published b \<le> s \<and> timely (bucket_second b) turns"

definition window_at :: "u64 \<Rightarrow> 'p accountant \<Rightarrow> bool" where
  "window_at m sh \<longleftrightarrow>
    (\<forall>w. sh_window sh = Some w \<longrightarrow> rw_start w = m \<and> unat m mod 60 = 0 \<and> distinct (map fst (rw_usage w)))"

lemma window_atD:
  assumes "window_at m sh" "sh_window sh = Some w"
  shows "rw_start w = m" "unat m mod 60 = 0" "distinct (map fst (rw_usage w))"
  using assms by (auto simp: window_at_def)

lemma unat_bucket_second: "unat (bucket_second b) = unat (mb_published b) - unat (mb_published b) mod 60"
proof -
  have "unat (mb_published b mod 60) = unat (mb_published b) mod 60" by (simp add: unat_mod_distrib)
  then show ?thesis unfolding bucket_second_def WINDOW_SECS_def
    by (subst unat_sub) (simp_all only: word_le_nat_alt mod_less_eq_dividend)
qed

lemma minute_aligned: "(p - p mod 60) mod (60 :: nat) = 0"
  unfolding minus_mod_eq_mult_div by (rule mod_mult_self1_is_0)

lemma next_minute: "m mod 60 = 0 \<Longrightarrow> m < p - p mod 60 \<Longrightarrow> m + 60 \<le> (p :: nat)"
proof -
  assume "m mod 60 = 0" and "m < p - p mod 60"
  then have "m = 60 * (m div 60)" "60 * (m div 60) < 60 * (p div 60)"
    using minus_mod_eq_mult_div [of p 60] minus_mod_eq_mult_div [of m 60] by simp_all
  moreover from this(2) have "m div 60 + 1 \<le> p div 60" by simp
  moreover have "60 * (p div 60) \<le> p" by (rule times_div_less_eq_dividend)
  ultimately show ?thesis by linarith
qed

lemma minute_passed:
  assumes "unat m mod 60 = 0" "m < bucket_second b" "mb_published b \<le> s" "rw_start w = m"
  shows "window_complete (Some s) w"
proof -
  have le: "unat m + 60 \<le> unat (mb_published b)"
    using assms(2) by (intro next_minute assms(1)) (simp only: word_less_nat_alt unat_bucket_second)
  also have "\<dots> \<le> unat s" using assms(3) by (simp only: word_le_nat_alt)
  finally have "unat m + 60 \<le> unat s" .
  moreover from this unat_u64_lt [of s] have "unat (m + 60) = unat m + 60" by (simp add: unat_word_ariths)
  ultimately show ?thesis using assms(4) by (simp add: window_complete_def WINDOW_SECS_def word_le_nat_alt)
qed

lemma roll_window_at: "window_at m sh \<Longrightarrow> window_at m (roll_and_author env now sh)"
proof (cases "\<exists>w. sh_window sh = Some w \<and> window_complete now w")
  case True
  assume at: "window_at m sh"
  from True obtain w where w: "sh_window sh = Some w" "window_complete now w" by blast
  from roll_elapsed(1) [OF w window_atD(3) [OF at w(1)]] show ?thesis by (simp add: window_at_def)
next
  case False
  assume "window_at m sh"
  with False show ?thesis by (cases "sh_window sh") (simp_all add: roll_open)
qed

lemma merge_window_at:
  assumes "window_at m sh"
  shows "window_at (bucket_second b) (merge_bucket b sh)"
  using assms
  by (auto simp: window_at_def merge_bucket_def window_merge_alt unat_bucket_second minute_aligned Let_def
      intro!: distinct_update split: option.splits)

text \<open>When a bucket of the next minute is read, the window before it has been rolled.\<close>

lemma rolled_before_merge:
  assumes "window_at m sh" "m \<le> bucket_second b" "mb_published b \<le> s"
    "sh_window (roll_and_author env (Some s) sh) = Some w"
  shows "rw_start w = bucket_second b"
proof -
  obtain w' where w': "sh_window sh = Some w'" using assms(4) by (cases "sh_window sh") (simp_all add: roll_open)
  have open': "\<not> window_complete (Some s) w'"
    using assms(4) roll_elapsed(1) [OF w' _ window_atD(3) [OF assms(1) w']] by auto
  then have w: "w = w'" using assms(4) w' by (simp add: roll_open(2) [OF w'])
  have "\<not> m < bucket_second b"
    using open' minute_passed [OF window_atD(2) [OF assms(1) w'] _ assms(3) window_atD(1) [OF assms(1) w']] by blast
  with assms(2) show ?thesis by (simp add: w window_atD(1) [OF assms(1) w'])
qed

abbreviation run_turns :: "'p accountant_env \<Rightarrow> (u64 option \<times> metering_bucket option) list \<Rightarrow> 'p accountant \<Rightarrow> 'p accountant" where
  "run_turns env turns sh \<equiv> fold (\<lambda>(now, b). roll_turn env now b) turns sh"

definition buckets_of :: "string \<Rightarrow> (u64 option \<times> metering_bucket option) list \<Rightarrow> metering_bucket list" where
  "buckets_of t turns = filter (\<lambda>b. mb_tenant b = t) (List.map_filter snd turns)"

context counter
begin

lemma turns_total:
  "timely m turns \<Longrightarrow> window_at m sh \<Longrightarrow>
    total t (run_turns env turns sh) =
      saturating_add (total t sh) (sat_sum (map (reading \<circ> mb_usage) (buckets_of t turns)))"
proof (induction m turns arbitrary: sh rule: timely.induct)
  case (2 m now turns)
  from 2 roll_window_at [of m sh env now] roll_total [of sh t env now] window_atD(3) [of m sh]
  show ?case by (simp add: roll_turn_def buckets_of_def map_filter_simps)
next
  case (4 m s b turns)
  let ?rolled = "roll_and_author env (Some s) sh"
  have order: "m \<le> bucket_second b" "mb_published b \<le> s" using 4(2) by simp_all
  have current: "rw_start w = bucket_second b" if "sh_window ?rolled = Some w" for w
    by (rule rolled_before_merge [OF 4(3) order that])
  have "total t (merge_bucket b ?rolled) =
      (if mb_tenant b = t then saturating_add (total t sh) (reading (mb_usage b)) else total t sh)"
    by (simp only: merge_total [OF current] roll_total [OF window_atD(3) [OF 4(3)]])
  moreover have "window_at (bucket_second b) (merge_bucket b ?rolled)"
    by (rule merge_window_at [OF roll_window_at [OF 4(3)]])
  ultimately show ?case using 4(1,2)
    by (simp add: roll_turn_def buckets_of_def map_filter_simps sat.assoc)
qed (simp_all add: buckets_of_def map_filter_simps)

end

definition billed :: "(usage \<Rightarrow> u64) \<Rightarrow> string \<Rightarrow> 'p accountant \<Rightarrow> u64" where
  "billed dimension t sh = sat_sum (map (\<lambda>(_, u, _). dimension u) (history sh t))"

text \<open>C27. Every bucket is billed exactly once: when the bookkeeper stamps its buckets in order and the
  accountant's clock does not run behind the stamps, then once no window is open the windows in a
  tenant's history add up, for CPU and for bandwidth, to what they added up to before and the readings of
  the buckets of that tenant that were read since.  This holds however late the buckets are read.\<close>

theorem buckets_are_billed_once:
  assumes "sh_window sh = None" "timely 0 turns" "sh_window (run_turns env turns sh) = None"
  shows "billed us_cpu t (run_turns env turns sh) =
      saturating_add (billed us_cpu t sh) (sat_sum (map (us_cpu \<circ> mb_usage) (buckets_of t turns))) \<and>
    billed us_bandwidth t (run_turns env turns sh) =
      saturating_add (billed us_bandwidth t sh) (sat_sum (map (us_bandwidth \<circ> mb_usage) (buckets_of t turns)))"
proof -
  have "window_at 0 sh" using assms(1) by (simp add: window_at_def)
  from cpu.turns_total [OF assms(2) this, of t env] bandwidth.turns_total [OF assms(2) this, of t env]
  show ?thesis using assms(1,3)
    by (simp add: billed_def cpu.total_def cpu.pending_def bandwidth.total_def bandwidth.pending_def)
qed

section \<open>Late buckets\<close>

lemma keep_windows_plan:
  "(\<And>rec. rec \<in> set recs \<Longrightarrow> \<exists>t' s u x. rec = Window t' s u x) \<Longrightarrow>
    plan_of (fold (keep_record env) recs sh) t = plan_of sh t"
proof (induction recs arbitrary: sh)
  case (Cons rec recs)
  from Cons.prems obtain t' s u x where "rec = Window t' s u x" by (meson list.set_intros(1))
  with Cons show ?case by (simp add: account_of_book_apply)
qed simp

lemma roll_keeps_plan: "plan_of (roll_and_author env now sh) t = plan_of sh t"
proof -
  have "plan_of (fold (keep_record env) (into_records accounts w) sh') t = plan_of sh' t" for accounts w sh'
    by (rule keep_windows_plan) (auto simp: into_records_def)
  then show ?thesis
    by (simp add: roll_and_author_def roll_due_def roll_window_def Let_def split: option.split)
qed

lemma merged_fresh: "merged_usage no_usage u = u"
  by (simp add: merged_usage_def merge_gauges_def add_counters_def no_usage_def)

lemma merge_first:
  "sh_window sh = None \<Longrightarrow> merge_bucket b sh =
    sh\<lparr>sh_window := Some \<lparr>rw_start = bucket_second b, rw_usage = [(mb_tenant b, mb_usage b)]\<rparr>\<rparr>"
  by (simp add: merge_bucket_def window_merge_alt merged_fresh Let_def)

lemma merge_same_minute:
  "sh_window sh = Some \<lparr>rw_start = bucket_second b, rw_usage = [(mb_tenant b, u)]\<rparr> \<Longrightarrow> merge_bucket b sh =
    sh\<lparr>sh_window := Some \<lparr>rw_start = bucket_second b, rw_usage = [(mb_tenant b, merged_usage u (mb_usage b))]\<rparr>\<rparr>"
  by (simp add: merge_bucket_def window_merge_alt Let_def)

lemma roll_single:
  assumes "sh_window sh = Some \<lparr>rw_start = m, rw_usage = [(t, u)]\<rparr>" "m + WINDOW_SECS \<le> now"
  shows "sh_window (roll_and_author env (Some now) sh) = None"
    "history (roll_and_author env (Some now) sh) t = history sh t @ [(m, u, over u (plan_of sh t))]"
  using roll_elapsed [OF assms(1), of "Some now" env] assms(2) by (simp_all add: window_complete_def)

text \<open>C38. A minute that is read late is split: two buckets of a tenant that were stamped in the same minute
  become one window when they are read during that minute, charged for what they exceed the plan
  together.  When they are read after the minute has passed, each becomes a window of its own with the same
  start, and usage that stays within the plan in each bucket is not charged at all.\<close>

theorem late_minute_is_split:
  assumes "sh_window sh = None" "mb_tenant b1 = t" "mb_tenant b2 = t" "bucket_second b1 = m" "bucket_second b2 = m"
    "early < m + WINDOW_SECS" "m + WINDOW_SECS \<le> late"
    "us_cpu (mb_usage b1) \<le> us_cpu (plan_of sh t)" "us_cpu (mb_usage b2) \<le> us_cpu (plan_of sh t)"
  shows "let together = merged_usage (mb_usage b1) (mb_usage b2); plan = plan_of sh t in
    history (run_turns env [(Some early, Some b1), (Some early, Some b2), (Some late, None)] sh) t =
      history sh t @ [(m, together, over together plan)] \<and>
    us_cpu (over together plan) =
      saturating_sub (saturating_add (us_cpu (mb_usage b1)) (us_cpu (mb_usage b2))) (us_cpu plan) \<and>
    history (run_turns env [(Some late, Some b1), (Some late, Some b2), (Some late, None)] sh) t =
      history sh t @ [(m, mb_usage b1, over (mb_usage b1) plan), (m, mb_usage b2, over (mb_usage b2) plan)] \<and>
    us_cpu (over (mb_usage b1) plan) = 0 \<and> us_cpu (over (mb_usage b2) plan) = 0"
proof -
  let ?one = "\<lparr>rw_start = m, rw_usage = [(t, mb_usage b1)]\<rparr>" and ?two = "\<lparr>rw_start = m, rw_usage = [(t, mb_usage b2)]\<rparr>"
  let ?both = "\<lparr>rw_start = m, rw_usage = [(t, merged_usage (mb_usage b1) (mb_usage b2))]\<rparr>"
  note facts = assms(2-5)
  have first: "merge_bucket b1 sh = sh\<lparr>sh_window := Some ?one\<rparr>"
    using merge_first [OF assms(1), of b1] by (simp add: facts)
  have "run_turns env [(Some early, Some b1), (Some early, Some b2), (Some late, None)] sh =
      roll_and_author env (Some late) (sh\<lparr>sh_window := Some ?both\<rparr>)"
    using assms(6) merge_same_minute [of "sh\<lparr>sh_window := Some ?one\<rparr>" b2 "mb_usage b1"]
    by (simp add: roll_turn_def roll_open(1) [OF assms(1)] first roll_open(2) [of _ ?one] window_complete_def facts)
  moreover have "history (roll_and_author env (Some late) (sh\<lparr>sh_window := Some ?both\<rparr>)) t = history sh t @
      [(m, merged_usage (mb_usage b1) (mb_usage b2), over (merged_usage (mb_usage b1) (mb_usage b2)) (plan_of sh t))]"
    using roll_single(2) [OF _ assms(7), of "sh\<lparr>sh_window := Some ?both\<rparr>" t _ env] by simp
  moreover define mid where "mid = roll_and_author env (Some late) (sh\<lparr>sh_window := Some ?one\<rparr>)"
  have mid: "sh_window mid = None" "history mid t = history sh t @ [(m, mb_usage b1, over (mb_usage b1) (plan_of sh t))]"
      "plan_of mid t = plan_of sh t"
    using roll_single [OF _ assms(7), of "sh\<lparr>sh_window := Some ?one\<rparr>" t _ env] by (simp_all add: mid_def roll_keeps_plan)
  have "run_turns env [(Some late, Some b1), (Some late, Some b2), (Some late, None)] sh =
      roll_and_author env (Some late) (mid\<lparr>sh_window := Some ?two\<rparr>)"
    using merge_first [OF mid(1), of b2]
    by (simp add: roll_turn_def roll_open(1) [OF assms(1)] first facts mid_def)
  moreover have "history (roll_and_author env (Some late) (mid\<lparr>sh_window := Some ?two\<rparr>)) t =
      history mid t @ [(m, mb_usage b2, over (mb_usage b2) (plan_of mid t))]"
    using roll_single(2) [OF _ assms(7), of "mid\<lparr>sh_window := Some ?two\<rparr>" t _ env] by simp
  ultimately show ?thesis using assms(8,9)
    by (simp only: Let_def mid) (simp add: over_def cpu.reading_merged saturating_sub_def)
qed

section \<open>A minute with two buckets\<close>

definition sample_bucket :: "u64 \<Rightarrow> metering_bucket" where
  "sample_bucket stamp = \<lparr>mb_tenant = ''acme'', mb_usage = no_usage\<lparr>us_cpu := 60\<rparr>, mb_published = stamp\<rparr>"

definition sample_books :: "ledger_record accountant" where
  "sample_books = accountant_start sample_env [SetPlan ''acme'' (no_usage\<lparr>us_cpu := 100\<rparr>)]"

lemma sample_bucket_simps [simp]:
  "mb_tenant (sample_bucket s) = ''acme''" "mb_usage (sample_bucket s) = no_usage\<lparr>us_cpu := 60\<rparr>"
  "mb_published (sample_bucket s) = s" "bucket_second (sample_bucket 5) = 0" "bucket_second (sample_bucket 7) = 0"
  by (simp_all add: sample_bucket_def bucket_second_def WINDOW_SECS_def)

lemma sample_books_simps [simp]:
  "sh_window sample_books = None" "plan_of sample_books ''acme'' = no_usage\<lparr>us_cpu := 100\<rparr>"
  "history sample_books t = []"
  by (simp_all add: sample_books_def accountant_start_def rebuild_payloads_def sample_env_def book_apply_def
      account_of_def empty_book_def Let_def)

theorem late_minute_is_split_witness:
  "map (\<lambda>(_, _, x). us_cpu x) (history (run_turns sample_env
     [(Some 8, Some (sample_bucket 5)), (Some 8, Some (sample_bucket 7)), (Some 60, None)] sample_books) ''acme'') = [20] \<and>
   map (\<lambda>(_, _, x). us_cpu x) (history (run_turns sample_env
     [(Some 60, Some (sample_bucket 5)), (Some 60, Some (sample_bucket 7)), (Some 60, None)] sample_books) ''acme'') = [0, 0]"
proof -
  have "(60 :: u64) \<le> 100" "(8 :: u64) < 0 + WINDOW_SECS" "0 + WINDOW_SECS \<le> (60 :: u64)"
    by (simp_all add: WINDOW_SECS_def)
  then show ?thesis
    using late_minute_is_split [of sample_books "sample_bucket 5" "''acme''" "sample_bucket 7" 0 8 60 sample_env]
    by (simp add: Let_def saturating_add_def saturating_sub_def)
qed

theorem buckets_are_billed_once_witness:
  "let turns = [(Some 8, Some (sample_bucket 5)), (Some 60, Some (sample_bucket 7)), (Some 60, None)]
   in billed us_cpu ''acme'' (run_turns sample_env turns sample_books) = 120"
proof -
  let ?turns = "[(Some 8, Some (sample_bucket 5)), (Some 60, Some (sample_bucket 7)), (Some 60, None)]"
  let ?open = "sample_books\<lparr>sh_window := Some \<lparr>rw_start = 0, rw_usage = [(''acme'', no_usage\<lparr>us_cpu := 60\<rparr>)]\<rparr>\<rparr>"
  have first: "roll_turn sample_env (Some 8) (Some (sample_bucket 5)) sample_books = ?open"
    using merge_first [of sample_books "sample_bucket 5"] by (simp add: roll_turn_def roll_open)
  define mid where "mid = roll_and_author sample_env (Some 60) ?open"
  have "sh_window mid = None"
    using roll_single(1) [of ?open 0 "''acme''" _ 60 sample_env] by (simp add: mid_def WINDOW_SECS_def)
  then have second: "roll_turn sample_env (Some 60) (Some (sample_bucket 7)) ?open =
      mid\<lparr>sh_window := Some \<lparr>rw_start = 0, rw_usage = [(''acme'', no_usage\<lparr>us_cpu := 60\<rparr>)]\<rparr>\<rparr>" (is "_ = ?last")
    using merge_first [of mid "sample_bucket 7"] by (simp add: roll_turn_def mid_def)
  have "sh_window (run_turns sample_env ?turns sample_books) = None"
    using roll_single(1) [of ?last 0 "''acme''" _ 60 sample_env] first second by (simp add: roll_turn_def [of _ _ None] WINDOW_SECS_def)
  then show ?thesis
    using buckets_are_billed_once [of sample_books ?turns sample_env "''acme''"]
    by (simp add: Let_def billed_def [of _ _ sample_books] buckets_of_def map_filter_simps saturating_add_def)
qed

end
