(* ===== verification/Text_Encoding.thy ===== *)
theory Text_Encoding
  imports Strings
begin

text \<open>
  Text and bytes, as the connectors use them: the bytes of a text, the byte sequences that Rust accepts as
  text, and hexadecimal numbers.
\<close>

definition text_bytes :: "string \<Rightarrow> u8 list" where
  "text_bytes s = map of_char s"

definition char_of_byte :: "u8 \<Rightarrow> char" where
  "char_of_byte b = char_of (unat b)"

abbreviation continuation :: "u8 \<Rightarrow> bool" where
  "continuation b \<equiv> 0x80 \<le> b \<and> b \<le> 0xBF"

text \<open>The byte sequences that Rust accepts as text.\<close>

fun utf8_valid :: "u8 list \<Rightarrow> bool" where
  "utf8_valid [] \<longleftrightarrow> True"
| "utf8_valid (a # bs) \<longleftrightarrow>
    (if a < 0x80 then utf8_valid bs
     else (case bs of
       [] \<Rightarrow> False
     | b # cs \<Rightarrow>
         if 0xC2 \<le> a \<and> a \<le> 0xDF then continuation b \<and> utf8_valid cs
         else (case cs of
           [] \<Rightarrow> False
         | c # ds \<Rightarrow>
             if 0xE0 \<le> a \<and> a \<le> 0xEF
             then (if a = 0xE0 then 0xA0 else 0x80) \<le> b \<and> b \<le> (if a = 0xED then 0x9F else 0xBF) \<and>
                  continuation c \<and> utf8_valid ds
             else (case ds of
               [] \<Rightarrow> False
             | d # es \<Rightarrow>
                 0xF0 \<le> a \<and> a \<le> 0xF4 \<and>
                 (if a = 0xF0 then 0x90 else 0x80) \<le> b \<and> b \<le> (if a = 0xF4 then 0x8F else 0xBF) \<and>
                 continuation c \<and> continuation d \<and> utf8_valid es))))"

definition from_utf8 :: "u8 list \<Rightarrow> string option" where
  "from_utf8 bs = (if utf8_valid bs then Some (map char_of_byte bs) else None)"

text \<open>Lower-case hexadecimal digits, without leading zeros.\<close>

fun hex_digits :: "nat \<Rightarrow> string" where
  "hex_digits n =
    (let d = n mod 16; c = char_of (if d < 10 then 48 + d else 87 + d)
     in if n < 16 then [c] else hex_digits (n div 16) @ [c])"

declare hex_digits.simps [simp del]

lemma byte_of_char: "(of_char c :: u8) = of_nat (of_char c)"
  by (cases c) (simp add: of_char_def)

lemma unat_of_char: "unat (of_char c :: u8) = of_char c"
proof -
  have "(of_char c :: nat) < 256" by simp
  then show ?thesis unfolding byte_of_char by (simp add: unat_of_nat take_bit_nat_eq_self)
qed

lemma of_char_u8_eq [simp]: "(of_char c :: u8) = of_char d \<longleftrightarrow> c = d"
  by (metis unat_of_char of_char_eq_iff)

lemma char_of_byte_of_char [simp]: "char_of_byte (of_char c) = c"
  by (simp add: char_of_byte_def unat_of_char)

lemma text_of_text_bytes [simp]: "map char_of_byte (text_bytes s) = s"
  by (induction s) (simp_all add: text_bytes_def)

definition ascii :: "string \<Rightarrow> bool" where
  "ascii s \<longleftrightarrow> list_all (\<lambda>c. (of_char c :: nat) < 128) s"

lemma from_utf8_ascii: "ascii s \<Longrightarrow> from_utf8 (text_bytes s) = Some s"
proof -
  assume "ascii s"
  then have "utf8_valid (text_bytes s)"
    by (induction s) (simp_all add: ascii_def text_bytes_def word_less_nat_alt unat_of_char)
  then show ?thesis by (simp add: from_utf8_def)
qed

lemma text_bytes_append [simp]: "text_bytes (s @ t) = text_bytes s @ text_bytes t"
  by (simp add: text_bytes_def)

lemma length_text_bytes [simp]: "length (text_bytes s) = length s"
  by (simp add: text_bytes_def)

end
