(* ===== verification/Http_Codec.thy ===== *)
theory Http_Codec
  imports Text_Encoding
begin

text \<open>
  The request codec of the HTTP connector (\<^verbatim>\<open>guests/connector-http/src/codec.rs\<close>): finding the end of the head,
  parsing it, decoding chunked bodies, and reading requests from a stream into the buffer of a connection.

  The guest is built for a target with 32-bit addresses, so \<open>usize\<close> has 32 bits.  Rust leaves open whether
  an overflowing addition panics or wraps; the parameter \<open>checks\<close> says which, and the theorems hold for both.
  Positions that are bounded by the length of a buffer are naturals.  Text is a list of bytes; lower case and
  white space are those of ASCII.
\<close>

section \<open>Messages\<close>

record http_header =
  hh_name :: string
  hh_value :: string

record http_request =
  hq_method :: string
  hq_uri :: string
  hq_headers :: "http_header list"
  hq_body :: "u8 list"

record http_response =
  hs_status :: u16
  hs_headers :: "http_header list"
  hs_body :: "u8 list"

record http_trailer =
  ht_name :: string
  ht_value :: string

section \<open>Lines and numbers\<close>

definition CRLF :: "u8 list" where "CRLF = [13, 10]"

fun find_subsequence :: "'a list \<Rightarrow> 'a list \<Rightarrow> nat option" where
  "find_subsequence [] needle = (if needle = [] then Some 0 else None)"
| "find_subsequence (x # xs) needle =
    (if take (length needle) (x # xs) = needle then Some 0 else map_option Suc (find_subsequence xs needle))"

fun split_crlf :: "string \<Rightarrow> string list" where
  "split_crlf [] = [[]]"
| "split_crlf (x # xs) =
    (if x = CHR 0x0D \<and> xs \<noteq> [] \<and> hd xs = CHR 0x0A then [] # split_crlf (tl xs)
     else case split_crlf xs of [] \<Rightarrow> [[x]] | w # ws \<Rightarrow> (x # w) # ws)"

text \<open>Parsing a \<open>usize\<close>, in decimal or in another base: an optional plus sign and at least one digit.\<close>

definition digit_value :: "char \<Rightarrow> nat option" where
  "digit_value c =
    (let n = of_char c in
     if 48 \<le> n \<and> n \<le> 57 then Some (n - 48)
     else if 97 \<le> n \<and> n \<le> 122 then Some (n - 87)
     else if 65 \<le> n \<and> n \<le> 90 then Some (n - 55) else None)"

definition radix_digits :: "nat \<Rightarrow> string \<Rightarrow> bool" where
  "radix_digits radix s \<longleftrightarrow> s \<noteq> [] \<and> list_all (\<lambda>c. case digit_value c of None \<Rightarrow> False | Some d \<Rightarrow> d < radix) s"

definition radix_value :: "nat \<Rightarrow> string \<Rightarrow> nat" where
  "radix_value radix s = foldl (\<lambda>n c. radix * n + the (digit_value c)) 0 s"

definition usize_from_radix :: "nat \<Rightarrow> string \<Rightarrow> nat option" where
  "usize_from_radix radix s =
    (let ds = (case s of CHR ''+'' # r \<Rightarrow> r | _ \<Rightarrow> s) in
     if radix_digits radix ds \<and> radix_value radix ds < 2 ^ 32 then Some (radix_value radix ds) else None)"

section \<open>The head of a request\<close>

definition get_header_str :: "(string \<times> string) list \<Rightarrow> string \<Rightarrow> string option" where
  "get_header_str headers name = map_option snd (find (\<lambda>(n, _). n = to_lowercase name) headers)"

definition get_typed_header :: "http_header list \<Rightarrow> string \<Rightarrow> string option" where
  "get_typed_header headers name =
    map_option hh_value (find (\<lambda>h. to_lowercase (hh_name h) = to_lowercase name) headers)"

fun parse_header_lines :: "string list \<Rightarrow> (string, (string \<times> string) list) result" where
  "parse_header_lines [] = Ok []"
| "parse_header_lines (line # lines) =
    (if line = [] then Ok []
     else case split_once CHR '':'' line of
       None \<Rightarrow> parse_header_lines lines
     | Some (n, v) \<Rightarrow>
         let name = to_lowercase (trim n); val = trim v
         in if length name > 256 then Err ''header name too long''
            else if length val > 8192 then Err ''header value too long''
            else bind_result (parse_header_lines lines) (\<lambda>headers. Ok ((name, val) # headers)))"

definition parse_request_head :: "u8 list \<Rightarrow> (string, string \<times> string \<times> (string \<times> string) list) result" where
  "parse_request_head bs =
    (case from_utf8 bs of
       None \<Rightarrow> Err ''invalid UTF-8 in request''
     | Some text \<Rightarrow>
         (case split_crlf text of
            [] \<Rightarrow> Err ''empty request''
          | request_line # lines \<Rightarrow>
              (case split_on CHR '' '' request_line of
                 [] \<Rightarrow> Err ''missing method''
               | [_] \<Rightarrow> Err ''missing URI''
               | method # uri # _ \<Rightarrow>
                   if length uri > 8192 then Err ''URI too long''
                   else bind_result (parse_header_lines lines) (\<lambda>headers.
                     if length headers > 128 then Err ''too many headers'' else Ok (method, uri, headers)))))"

section \<open>The body\<close>

text \<open>A parse stops because the bytes buffered so far are not a request yet, or because it panics.\<close>

datatype codec_stop = Incomplete | Panicked

definition usize_add :: "bool \<Rightarrow> nat \<Rightarrow> nat \<Rightarrow> (codec_stop, nat) result" where
  "usize_add checks a b =
    (if a + b < 2 ^ 32 then Ok (a + b) else if checks then Err Panicked else Ok (a + b - 2 ^ 32))"

definition slice :: "u8 list \<Rightarrow> nat \<Rightarrow> nat \<Rightarrow> (codec_stop, u8 list) result" where
  "slice d a b = (if a \<le> b \<and> b \<le> length d then Ok (take (b - a) (drop a d)) else Err Panicked)"

text \<open>One turn of the loop over the chunks: the end of the body, or a chunk and the offset after it.\<close>

definition chunk_step :: "bool \<Rightarrow> u8 list \<Rightarrow> nat \<Rightarrow> (codec_stop, nat + u8 list \<times> nat) result" where
  "chunk_step checks d offset =
    bind_result (slice d offset (length d)) (\<lambda>rest.
    bind_result (ok_or (find_subsequence rest CRLF) Incomplete) (\<lambda>i.
    bind_result (slice d offset (offset + i)) (\<lambda>line.
    bind_result (ok_or (from_utf8 line) Incomplete) (\<lambda>size_line.
    bind_result (ok_or (usize_from_radix 16 (trim (hd (split_on CHR '';'' size_line)))) Incomplete) (\<lambda>sz.
    let offset = offset + i + 2
    in if sz = 0
       then bind_result (slice d offset (length d)) (\<lambda>rest.
            bind_result (ok_or (find_subsequence rest CRLF) Incomplete) (\<lambda>i. Ok (Inl (offset + i + 2))))
       else bind_result (bind_result (usize_add checks offset sz) (\<lambda>e. usize_add checks e 2)) (\<lambda>chunk_end.
            if chunk_end > length d then Err Incomplete
            else bind_result (usize_add checks offset sz) (\<lambda>data_end.
                 bind_result (slice d data_end chunk_end) (\<lambda>separator.
                 if separator \<noteq> CRLF then Err Incomplete
                 else bind_result (slice d offset data_end) (\<lambda>chunk.
                      bind_result (bind_result (usize_add checks sz 2) (usize_add checks offset)) (\<lambda>next.
                      Ok (Inr (chunk, next))))))))))))"

lemma usize_from_radix_less: "usize_from_radix radix s = Some n \<Longrightarrow> n < 2 ^ 32"
  by (auto simp: usize_from_radix_def Let_def split: if_splits)

text \<open>Additions whose results are used as the bounds of a slice do not wrap.\<close>

lemma usize_add_mono:
  assumes "usize_add checks a b = Ok c" "a \<le> c" "b < 2 ^ 32"
  shows "c = a + b" "c < 2 ^ 32"
  using assms by (auto simp: usize_add_def split: if_splits)

lemma slice_Ok: "slice d a b = Ok xs \<longleftrightarrow> a \<le> b \<and> b \<le> length d \<and> xs = take (b - a) (drop a d)"
  by (auto simp: slice_def)

lemma chunk_step_chunk:
  assumes "chunk_step checks d offset = Ok (Inr (chunk, next))"
  obtains i line sz where "find_subsequence (drop offset d) CRLF = Some i"
    "usize_from_radix 16 (trim (hd (split_on CHR '';'' line))) = Some sz" "from_utf8 (take i (drop offset d)) = Some line"
    "offset + i \<le> length d" "sz \<noteq> 0" "next = offset + i + 2 + sz + 2" "next \<le> length d"
    "chunk = take sz (drop (offset + i + 2) d)" "take 2 (drop (offset + i + 2 + sz) d) = CRLF" "next < 2 ^ 32"
proof -
  from assms obtain i line sz e data_end n where st:
    "find_subsequence (drop offset d) CRLF = Some i" "offset + i \<le> length d"
    "from_utf8 (take i (drop offset d)) = Some line"
    "usize_from_radix 16 (trim (hd (split_on CHR '';'' line))) = Some sz" "sz \<noteq> 0"
    "usize_add checks (offset + i + 2) sz = Ok data_end" "usize_add checks data_end 2 = Ok e"
    "slice d data_end e = Ok CRLF" "slice d (offset + i + 2) data_end = Ok chunk"
    "usize_add checks sz 2 = Ok n" "usize_add checks (offset + i + 2) n = Ok next"
    by (auto simp: chunk_step_def Let_def bind_result_Ok_iff ok_or_Ok_iff slice_Ok split: if_splits)
  note lt = usize_from_radix_less [OF st(4)]
  have data_end: "data_end = offset + i + 2 + sz" using usize_add_mono(1) [OF st(6) _ lt] st(9) by (simp add: slice_Ok)
  have e: "e = data_end + 2" "e < 2 ^ 32" using usize_add_mono [OF st(7)] st(8) by (simp_all add: slice_Ok)
  have "n = sz + 2" using st(10) e data_end by (simp add: usize_add_def split: if_splits)
  then have "next = offset + i + 2 + sz + 2" using st(11) e data_end by (simp add: usize_add_def split: if_splits)
  then show thesis using st(1-5,8,9) e data_end by (intro that [of i line sz]) (auto simp: slice_Ok)
qed

function decode_chunked_body :: "bool \<Rightarrow> u8 list \<Rightarrow> nat \<Rightarrow> u8 list \<Rightarrow> (codec_stop, u8 list \<times> nat) result" where
  "decode_chunked_body checks d offset body =
    (case chunk_step checks d offset of
       Err stop \<Rightarrow> Err stop
     | Ok (Inl consumed) \<Rightarrow> Ok (body, consumed)
     | Ok (Inr (chunk, next)) \<Rightarrow> decode_chunked_body checks d next (body @ chunk))"
  by pat_completeness auto
termination
  by (relation "measure (\<lambda>(_, d, offset, _). length d - offset)") (auto elim!: chunk_step_chunk)

section \<open>Reading requests\<close>

record http_codec =
  hc_buf :: "u8 list"
  hc_pos :: nat

definition codec_new :: http_codec where
  "codec_new = \<lparr>hc_buf = replicate 16384 0, hc_pos = 0\<rparr>"

definition contains :: "string \<Rightarrow> string \<Rightarrow> bool" where
  "contains s pat \<longleftrightarrow> find_subsequence s pat \<noteq> None"

definition request_body :: "bool \<Rightarrow> (string \<times> string) list \<Rightarrow> u8 list \<Rightarrow> nat \<Rightarrow> (codec_stop, u8 list \<times> nat) result" where
  "request_body checks headers d headers_end =
    (if (case get_header_str headers ''transfer-encoding'' of None \<Rightarrow> False | Some v \<Rightarrow> contains (to_lowercase v) ''chunked'')
     then bind_result (slice d headers_end (length d)) (\<lambda>rest.
          bind_result (decode_chunked_body checks rest 0 []) (\<lambda>(body, consumed). Ok (body, headers_end + consumed)))
     else
       let body_len = (case get_header_str headers ''content-length'' of
                         None \<Rightarrow> 0
                       | Some v \<Rightarrow> (case usize_from_radix 10 v of None \<Rightarrow> 0 | Some n \<Rightarrow> n))
       in bind_result (usize_add checks headers_end body_len) (\<lambda>total_needed.
          if length d < total_needed then Err Incomplete
          else if body_len > 0 then bind_result (slice d headers_end total_needed) (\<lambda>body. Ok (body, total_needed))
          else Ok ([], total_needed)))"

definition copy_within :: "nat \<Rightarrow> nat \<Rightarrow> 'a list \<Rightarrow> 'a list" where
  "copy_within a b buf = take (b - a) (drop a buf) @ drop (b - a) buf"

definition try_parse :: "bool \<Rightarrow> http_codec \<Rightarrow> (codec_stop, http_request \<times> http_codec) result" where
  "try_parse checks c =
    (let d = take (hc_pos c) (hc_buf c) in
     bind_result (ok_or (find_subsequence d (CRLF @ CRLF)) Incomplete) (\<lambda>header_end.
     case parse_request_head (take header_end d) of
       Err _ \<Rightarrow> Err Incomplete
     | Ok (method, uri, headers) \<Rightarrow>
         bind_result (request_body checks headers d (header_end + 4)) (\<lambda>(body, total_needed).
         let remaining = hc_pos c - total_needed in
         Ok (\<lparr>hq_method = method, hq_uri = uri,
               hq_headers = map (\<lambda>(n, v). \<lparr>hh_name = n, hh_value = v\<rparr>) headers, hq_body = body\<rparr>,
             c\<lparr>hc_buf := if remaining > 0 then copy_within total_needed (hc_pos c) (hc_buf c) else hc_buf c,
               hc_pos := remaining\<rparr>))))"

text \<open>A stream is what its successive reads can deliver; a read takes at most what there is room for, and
  at the end of the stream a read delivers nothing.\<close>

datatype read_event = Bytes "u8 list" | ReadFailure

datatype codec_error = IoError | RequestTooLarge | PartialClosed

datatype read_outcome = ReadRequest http_request | ReadClosed | ReadError codec_error | ReadPanic

definition read_end :: "http_codec \<Rightarrow> read_outcome" where
  "read_end c = (if hc_pos c > 0 then ReadError PartialClosed else ReadClosed)"

definition fill_buffer :: "u8 list \<Rightarrow> http_codec \<Rightarrow> http_codec" where
  "fill_buffer bs c =
    c\<lparr>hc_buf := take (hc_pos c) (hc_buf c) @ bs @ drop (hc_pos c + length bs) (hc_buf c),
      hc_pos := hc_pos c + length bs\<rparr>"

function read_request :: "bool \<Rightarrow> read_event list \<Rightarrow> http_codec \<Rightarrow> read_outcome \<times> read_event list \<times> http_codec" where
  "read_request checks stream c =
    (case try_parse checks c of
       Ok (request, c') \<Rightarrow> (ReadRequest request, stream, c')
     | Err Panicked \<Rightarrow> (ReadPanic, stream, c)
     | Err Incomplete \<Rightarrow>
         if hc_pos c = length (hc_buf c) then (ReadError RequestTooLarge, stream, c)
         else (case stream of
           [] \<Rightarrow> (read_end c, [], c)
         | ReadFailure # stream' \<Rightarrow> (ReadError IoError, stream', c)
         | Bytes bs # stream' \<Rightarrow>
             let n = min (length bs) (length (hc_buf c) - hc_pos c)
             in if n = 0 then (read_end c, stream', c)
                else read_request checks (if n < length bs then Bytes (drop n bs) # stream' else stream')
                       (fill_buffer (take n bs) c)))"
  by pat_completeness auto
termination
  by (relation "measure (\<lambda>(_, stream, _). sum_list (map (\<lambda>e. case e of Bytes bs \<Rightarrow> Suc (length bs) | _ \<Rightarrow> 1) stream))")
    (auto simp: Let_def split: if_splits)

declare decode_chunked_body.simps [simp del] read_request.simps [simp del]

end
