(* ===== verification/Http_Properties.thy ===== *)
theory Http_Properties
  imports Http_Codec
begin

text \<open>
  What the request codec guarantees: requests come out in order however the stream is cut into reads, and
  what more arrives later does not change a parse.  Two kinds of request show where it fails.
\<close>

section \<open>Searching\<close>

lemma find_subsequence_bound: "find_subsequence h n = Some i \<Longrightarrow> i + length n \<le> length h"
proof (induction h arbitrary: i)
  case (Cons a h)
  have "take (length n) (a # h) = n \<Longrightarrow> length n \<le> Suc (length h)" by (metis length_Cons length_take min.bounded_iff order_refl)
  then show ?case using Cons by (auto split: if_splits)
qed (simp split: if_splits)

lemma find_subsequence_append: "find_subsequence h n = Some i \<Longrightarrow> find_subsequence (h @ x) n = Some i"
proof (induction h arbitrary: i)
  case Nil
  then show ?case by (cases x) (auto split: if_splits)
next
  case (Cons a h)
  have "take (length n) (a # h @ x) = take (length n) (a # h)"
    using find_subsequence_bound [OF Cons.prems] take_append [of "length n" "a # h" x] by simp
  with Cons show ?case by (auto split: if_splits)
qed

lemma find_subsequence_match:
  "find_subsequence h n = Some i \<Longrightarrow> take (length n) (drop i h) = n"
  by (induction h arbitrary: i) (auto split: if_splits)

lemma find_skip:
  "hd n \<notin> set l \<Longrightarrow> n \<noteq> [] \<Longrightarrow> find_subsequence (l @ h) n = map_option ((+) (length l)) (find_subsequence h n)"
proof (induction l)
  case Nil
  then show ?case by (simp add: option.map_ident_strong)
next
  case (Cons a l)
  have "take (length n) (a # l @ h) \<noteq> n" using Cons.prems by (cases n) auto
  with Cons show ?case by (simp add: option.map_comp comp_def)
qed

lemma find_here: "n \<noteq> [] \<Longrightarrow> find_subsequence (n @ x) n = Some 0"
  by (cases n) simp_all

section \<open>Lines\<close>

lemma CRLF_text: "CRLF = text_bytes [CHR 0x0D, CHR 0x0A]"
  by (simp add: CRLF_def text_bytes_def)

lemma byte_free: "CHR 0x0D \<notin> set s \<Longrightarrow> (13 :: u8) \<notin> set (text_bytes s)"
proof -
  have "(13 :: u8) = of_char (CHR 0x0D)" by simp
  then show "CHR 0x0D \<notin> set s \<Longrightarrow> (13 :: u8) \<notin> set (text_bytes s)"
    unfolding text_bytes_def by (metis (no_types, lifting) imageE of_char_u8_eq list.set_map)
qed

section \<open>Requests on the wire\<close>

abbreviation crlf :: string where "crlf \<equiv> [CHR 0x0D, CHR 0x0A]"

definition header_line :: "http_header \<Rightarrow> string" where
  "header_line h = hh_name h @ '': '' @ hh_value h"

definition request_lines :: "http_request \<Rightarrow> string list" where
  "request_lines r = (hq_method r @ '' '' @ hq_uri r @ '' HTTP/1.1'') # map header_line (hq_headers r)"

definition head_bytes :: "http_request \<Rightarrow> u8 list" where
  "head_bytes r = text_bytes (join crlf (request_lines r))"

definition request_bytes :: "http_request \<Rightarrow> u8 list" where
  "request_bytes r = head_bytes r @ CRLF @ CRLF @ hq_body r"

abbreviation header_pairs :: "http_request \<Rightarrow> (string \<times> string) list" where
  "header_pairs r \<equiv> map (\<lambda>h. (hh_name h, hh_value h)) (hq_headers r)"

text \<open>The requests a client may send: text without control characters, names in lower case, sizes within the
  limits, and a body whose length is declared.\<close>

definition clean :: "char set \<Rightarrow> string \<Rightarrow> bool" where
  "clean excluded s \<longleftrightarrow> ascii s \<and> CHR 0x0D \<notin> set s \<and> set s \<inter> excluded = {}"

definition header_ok :: "http_header \<Rightarrow> bool" where
  "header_ok h \<longleftrightarrow> clean {CHR '':''} (hh_name h) \<and> clean {} (hh_value h) \<and>
     to_lowercase (trim (hh_name h)) = hh_name h \<and> trim ('' '' @ hh_value h) = hh_value h \<and>
     length (hh_name h) \<le> 256 \<and> length (hh_value h) \<le> 8192"

definition head_ok :: "http_request \<Rightarrow> bool" where
  "head_ok r \<longleftrightarrow> clean {CHR '' ''} (hq_method r) \<and> clean {CHR '' ''} (hq_uri r) \<and> length (hq_uri r) \<le> 8192 \<and>
     list_all header_ok (hq_headers r) \<and> length (hq_headers r) \<le> 128 \<and>
     get_header_str (header_pairs r) ''transfer-encoding'' = None"

definition request_ok :: "http_request \<Rightarrow> bool" where
  "request_ok r \<longleftrightarrow> head_ok r \<and>
     (case get_header_str (header_pairs r) ''content-length'' of
        None \<Rightarrow> hq_body r = []
      | Some v \<Rightarrow> usize_from_radix 10 v = Some (length (hq_body r))) \<and>
     length (request_bytes r) \<le> 16384"

lemma clean_lines:
  assumes "head_ok r" "line \<in> set (request_lines r)"
  shows "ascii line" "CHR 0x0D \<notin> set line" "line \<noteq> []"
  using assms
  by (auto simp: head_ok_def request_lines_def clean_def header_ok_def header_line_def ascii_def list_all_iff)

lemma split_crlf_line: "CHR 0x0D \<notin> set l \<Longrightarrow> split_crlf l = [l]"
  by (induction l) auto

lemma split_crlf_append:
  "CHR 0x0D \<notin> set l \<Longrightarrow> split_crlf (l @ crlf @ s) = l # split_crlf s"
  by (induction l) auto

lemma split_crlf_join:
  "ls \<noteq> [] \<Longrightarrow> (\<And>l. l \<in> set ls \<Longrightarrow> CHR 0x0D \<notin> set l) \<Longrightarrow> split_crlf (join crlf ls) = ls"
proof (induction crlf ls rule: join.induct)
  case (3 w v ws)
  then show ?case using split_crlf_append [of w] by simp
qed (simp_all add: split_crlf_line)

lemma find_past_line:
  "a \<noteq> 13 \<Longrightarrow> find_subsequence (CRLF @ a # t) (CRLF @ CRLF) = map_option ((+) 2) (find_subsequence (a # t) (CRLF @ CRLF))"
  by (simp add: CRLF_def option.map_comp comp_def)

lemma find_head_end:
  "ls \<noteq> [] \<Longrightarrow> (\<And>l. l \<in> set ls \<Longrightarrow> CHR 0x0D \<notin> set l \<and> l \<noteq> []) \<Longrightarrow>
    find_subsequence (text_bytes (join crlf ls) @ CRLF @ CRLF @ x) (CRLF @ CRLF) = Some (length (join crlf ls))"
proof (induction crlf ls rule: join.induct)
  case (2 w)
  then show ?case
    using find_skip [of "CRLF @ CRLF" "text_bytes w" "(CRLF @ CRLF) @ x"] find_here [of "CRLF @ CRLF" x] byte_free [of w]
    by (simp add: CRLF_def)
next
  case (3 w v ws)
  let ?rest = "text_bytes (join crlf (v # ws)) @ CRLF @ CRLF @ x"
  obtain a t where rest: "?rest = a # t" "a \<noteq> 13"
  proof -
    from 3(3) [of v] obtain c v' where v: "v = c # v'" "c \<noteq> CHR 0x0D" by (cases v) auto
    then have "\<exists>t. ?rest = of_char c # t" by (cases ws) (simp_all add: text_bytes_def)
    moreover have "(of_char c :: u8) \<noteq> 13" using byte_free [of "[c]"] v(2) by (simp add: text_bytes_def)
    ultimately show thesis using that by blast
  qed
  have "find_subsequence (text_bytes w @ CRLF @ ?rest) (CRLF @ CRLF) = Some (length w + (2 + length (join crlf (v # ws))))"
    using find_skip [of "CRLF @ CRLF" "text_bytes w" "CRLF @ ?rest"] byte_free [of w] 3(3) [of w]
      find_past_line [OF rest(2), of t, folded rest(1)] 3(1) 3(3)
    by (simp add: CRLF_def)
  moreover have "text_bytes (join crlf (w # v # ws)) = text_bytes w @ CRLF @ text_bytes (join crlf (v # ws))"
    unfolding CRLF_text text_bytes_append [symmetric] by simp
  ultimately show ?case by simp
qed simp

lemma parse_header_lines_ok:
  "list_all header_ok hs \<Longrightarrow>
    parse_header_lines (map header_line hs) = Ok (map (\<lambda>h. (hh_name h, hh_value h)) hs)"
proof (induction hs)
  case (Cons h hs)
  have "split_once CHR '':'' (header_line h) = Some (hh_name h, '' '' @ hh_value h)"
    using Cons.prems split_once_append [of "CHR '':''" "hh_name h"] by (simp add: header_line_def header_ok_def clean_def)
  moreover have "header_line h \<noteq> []" by (simp add: header_line_def)
  ultimately show ?case using Cons by (simp add: header_ok_def Let_def)
qed simp

lemma ascii_join: "(\<And>l. l \<in> set ls \<Longrightarrow> ascii l) \<Longrightarrow> ascii (join crlf ls)"
  by (induction crlf ls rule: join.induct) (auto simp: ascii_def)

lemma parse_request_head_ok:
  assumes "head_ok r"
  shows "parse_request_head (head_bytes r) = Ok (hq_method r, hq_uri r, header_pairs r)"
proof -
  note lines = clean_lines [OF assms]
  have decoded: "from_utf8 (head_bytes r) = Some (join crlf (request_lines r))"
    unfolding head_bytes_def by (rule from_utf8_ascii [OF ascii_join [OF lines(1)]])
  have split: "split_crlf (join crlf (request_lines r)) = request_lines r"
    by (rule split_crlf_join [OF _ lines(2)]) (simp_all add: request_lines_def)
  have "split_on (CHR '' '') (hq_method r @ '' '' @ hq_uri r @ '' HTTP/1.1'') = [hq_method r, hq_uri r, ''HTTP/1.1'']"
    using assms split_on_append [of "CHR '' ''" "hq_method r"] split_on_append [of "CHR '' ''" "hq_uri r" "''HTTP/1.1''"]
    by (simp add: head_ok_def clean_def)
  then show ?thesis using assms parse_header_lines_ok [of "hq_headers r"]
    by (simp add: parse_request_head_def decoded split) (simp add: request_lines_def head_ok_def)
qed

section \<open>The buffer\<close>

definition buffered :: "http_codec \<Rightarrow> u8 list" where
  "buffered c = take (hc_pos c) (hc_buf c)"

definition codec_wf :: "http_codec \<Rightarrow> bool" where
  "codec_wf c \<longleftrightarrow> length (hc_buf c) = 16384 \<and> hc_pos c \<le> 16384"

lemma length_buffered: "codec_wf c \<Longrightarrow> length (buffered c) = hc_pos c"
  by (simp add: buffered_def codec_wf_def)

lemma codec_new_wf: "codec_wf codec_new" "buffered codec_new = []"
  by (simp_all add: codec_wf_def codec_new_def buffered_def)

lemma fill_buffer_effect:
  assumes "codec_wf c" "hc_pos c + length bs \<le> 16384"
  shows "codec_wf (fill_buffer bs c)" "buffered (fill_buffer bs c) = buffered c @ bs"
  using assms by (simp_all add: codec_wf_def buffered_def fill_buffer_def)

lemma shift_buffer:
  assumes "codec_wf c" "buffered c = a @ b" "n = length b"
  shows "codec_wf (c\<lparr>hc_buf := if n > 0 then copy_within (length a) (hc_pos c) (hc_buf c) else hc_buf c, hc_pos := n\<rparr>)"
    "buffered (c\<lparr>hc_buf := if n > 0 then copy_within (length a) (hc_pos c) (hc_buf c) else hc_buf c, hc_pos := n\<rparr>) = b"
proof -
  have pos: "hc_pos c = length a + length b" using assms(2) length_buffered [OF assms(1)] by simp
  have "take (length b) (drop (length a) (hc_buf c)) = drop (length a) (take (hc_pos c) (hc_buf c))"
    by (simp add: pos drop_take)
  also have "\<dots> = b" using assms(2) by (simp add: buffered_def)
  finally have "take (length b) (drop (length a) (hc_buf c)) = b" .
  with assms pos show "codec_wf (c\<lparr>hc_buf := if n > 0 then copy_within (length a) (hc_pos c) (hc_buf c) else hc_buf c, hc_pos := n\<rparr>)"
    "buffered (c\<lparr>hc_buf := if n > 0 then copy_within (length a) (hc_pos c) (hc_buf c) else hc_buf c, hc_pos := n\<rparr>) = b"
    by (simp_all add: codec_wf_def buffered_def copy_within_def)
qed

lemma find_request_head:
  "head_ok r \<Longrightarrow> find_subsequence (head_bytes r @ CRLF @ CRLF @ x) (CRLF @ CRLF) = Some (length (head_bytes r))"
  using find_head_end [of "request_lines r" x] clean_lines [of r]
  by (simp add: head_bytes_def request_lines_def)

lemma request_ok_head: "request_ok r \<Longrightarrow> head_ok r"
  by (simp add: request_ok_def)

lemma find_request_bytes:
  "request_ok r \<Longrightarrow> find_subsequence (request_bytes r @ x) (CRLF @ CRLF) = Some (length (head_bytes r))"
  using find_request_head [OF request_ok_head, of r "hq_body r @ x"] by (simp add: request_bytes_def)

lemma request_body_length:
  assumes "request_ok r" "length (head_bytes r) + 4 \<le> 16384"
  shows "request_body checks (header_pairs r) d (length (head_bytes r) + 4) =
    (if length d < length (request_bytes r) then Err Incomplete
     else if hq_body r \<noteq> []
       then bind_result (slice d (length (head_bytes r) + 4) (length (request_bytes r))) (\<lambda>body. Ok (body, length (request_bytes r)))
     else Ok ([], length (request_bytes r)))"
proof -
  have "(case get_header_str (header_pairs r) ''content-length'' of None \<Rightarrow> 0
       | Some v \<Rightarrow> (case usize_from_radix 10 v of None \<Rightarrow> 0 | Some n \<Rightarrow> n)) = length (hq_body r)"
    using assms(1) by (auto simp: request_ok_def split: option.splits)
  moreover have "usize_add checks (length (head_bytes r) + 4) (length (hq_body r)) = Ok (length (request_bytes r))"
    using assms(1) by (simp add: usize_add_def request_bytes_def request_ok_def CRLF_def)
  ultimately show ?thesis using assms(1) by (simp add: request_body_def request_ok_def head_ok_def Let_def)
qed

lemma header_eta: "(\<lambda>h :: http_header. \<lparr>hh_name = hh_name h, hh_value = hh_value h\<rparr>) = (\<lambda>h. h)"
  by (simp add: fun_eq_iff)

lemma try_parse_request:
  assumes "codec_wf c" "request_ok r" "buffered c = request_bytes r @ x"
  obtains c' where "try_parse checks c = Ok (r, c')" "codec_wf c'" "buffered c' = x"
proof -
  let ?c' = "c\<lparr>hc_buf := if length x > 0 then copy_within (length (request_bytes r)) (hc_pos c) (hc_buf c) else hc_buf c,
    hc_pos := length x\<rparr>"
  have pos: "hc_pos c = length (request_bytes r) + length x" using length_buffered [OF assms(1)] assms(3) by simp
  have head: "take (length (head_bytes r)) (request_bytes r @ x) = head_bytes r" by (simp add: request_bytes_def)
  have body: "slice (request_bytes r @ x) (length (head_bytes r) + 4) (length (request_bytes r)) = Ok (hq_body r)"
    by (simp add: slice_def request_bytes_def CRLF_def)
  have len: "length (head_bytes r) + 4 \<le> 16384" using assms(2) by (simp add: request_ok_def request_bytes_def CRLF_def)
  have "try_parse checks c = Ok (r, ?c')"
    unfolding try_parse_def buffered_def [symmetric] Let_def assms(3) find_request_bytes [OF assms(2)] ok_or_simps
      bind_result_simps head parse_request_head_ok [OF request_ok_head [OF assms(2)]] sum.case prod.case request_body_length [OF assms(2) len] body
    by (cases r) (simp add: pos comp_def header_eta)
  then show thesis using that shift_buffer [OF assms(1,3) refl] by blast
qed

lemma try_parse_partial:
  assumes "codec_wf c" "request_ok r" "request_bytes r = buffered c @ q" "q \<noteq> []"
  shows "try_parse checks c = Err Incomplete"
proof (cases "find_subsequence (buffered c) (CRLF @ CRLF)")
  case None
  then show ?thesis by (simp add: try_parse_def buffered_def Let_def)
next
  case (Some i)
  have i: "i = length (head_bytes r)"
    using find_subsequence_append [OF Some, of q] find_request_bytes [OF assms(2), of "[]"] assms(3) by simp
  have len: "i + 4 \<le> length (buffered c)" using find_subsequence_bound [OF Some] by (simp add: CRLF_def)
  have "take i (buffered c) = head_bytes r"
  proof -
    have "take i (buffered c @ q) = head_bytes r" by (simp add: assms(3) [symmetric] request_bytes_def i)
    then show ?thesis using len by simp
  qed
  moreover have "length (head_bytes r) + 4 \<le> 16384" using assms(1) len i by (simp add: length_buffered codec_wf_def)
  moreover have "length (buffered c) < length (request_bytes r)" using assms(3,4) by simp
  ultimately show ?thesis using Some
    by (simp add: try_parse_def buffered_def [symmetric] i parse_request_head_ok [OF request_ok_head [OF assms(2)]]
        request_body_length [OF assms(2)] Let_def)
qed

section \<open>Streams\<close>

definition stream_bytes :: "read_event list \<Rightarrow> u8 list" where
  "stream_bytes stream = concat (map (\<lambda>e. case e of Bytes bs \<Rightarrow> bs | ReadFailure \<Rightarrow> []) stream)"

definition stream_ok :: "read_event list \<Rightarrow> bool" where
  "stream_ok stream \<longleftrightarrow> list_all (\<lambda>e. case e of Bytes bs \<Rightarrow> bs \<noteq> [] | ReadFailure \<Rightarrow> False) stream"

lemma append_longer:
  assumes "a @ b = c @ d" "length c \<le> length a"
  obtains x where "a = c @ x" "x @ b = d"
proof
  show "a = c @ drop (length c) a" by (metis append_eq_append_conv_if append_take_drop_id assms)
  then show "drop (length c) a @ b = d" by (metis append_assoc append_same_eq assms(1) same_append_eq)
qed

lemma read_request_next:
  assumes "codec_wf c" "request_ok r" "stream_ok stream" "buffered c @ stream_bytes stream = request_bytes r @ rest"
  shows "\<exists>stream' c'. read_request checks stream c = (ReadRequest r, stream', c') \<and> codec_wf c' \<and> stream_ok stream' \<and>
    buffered c' @ stream_bytes stream' = rest"
  using assms
proof (induction checks stream c rule: read_request.induct)
  case (1 checks stream c)
  show ?case
  proof (cases "length (request_bytes r) \<le> length (buffered c)")
    case True
    obtain x where x: "buffered c = request_bytes r @ x" "x @ stream_bytes stream = rest"
      using "1.prems"(4) True by (rule append_longer)
    from "1.prems"(1,2) x(1) obtain c' where "try_parse checks c = Ok (r, c')" "codec_wf c'" "buffered c' = x"
      by (rule try_parse_request)
    then show ?thesis using "1.prems"(3) x(2) by (subst read_request.simps) simp
  next
    case False
    have longer: "length (buffered c) \<le> length (request_bytes r)" using False by simp
    obtain q where q: "request_bytes r = buffered c @ q" "q @ rest = stream_bytes stream"
      using "1.prems"(4) [symmetric] longer by (rule append_longer)
    have nonempty: "q \<noteq> []" using q(1) False by auto
    have partial: "try_parse checks c = Err Incomplete" by (rule try_parse_partial [OF "1.prems"(1,2) q(1) nonempty])
    have room: "hc_pos c < 16384"
      using q(1) nonempty "1.prems"(2) length_buffered [OF "1.prems"(1)] by (cases q) (simp_all add: request_ok_def)
    from q(2) nonempty "1.prems"(3) obtain bs stream' where st: "stream = Bytes bs # stream'" "bs \<noteq> []" "stream_ok stream'"
      by (cases stream) (auto simp: stream_bytes_def stream_ok_def split: read_event.splits)
    define n where "n = min (length bs) (length (hc_buf c) - hc_pos c)"
    let ?stream = "if n < length bs then Bytes (drop n bs) # stream' else stream'" and ?c = "fill_buffer (take n bs) c"
    have n: "n \<noteq> 0" "hc_pos c + length (take n bs) \<le> 16384" using room st(2) "1.prems"(1) by (simp_all add: n_def codec_wf_def)
    note fill = fill_buffer_effect [OF "1.prems"(1) n(2)]
    have ok: "stream_ok ?stream" using st by (simp add: stream_ok_def)
    have bytes: "buffered ?c @ stream_bytes ?stream = request_bytes r @ rest"
    proof -
      have "take n bs @ stream_bytes ?stream = bs @ stream_bytes stream'"
        by (cases "n < length bs") (simp_all add: stream_bytes_def append_assoc [symmetric] del: append_assoc)
      then show ?thesis using "1.prems"(4) st(1) unfolding fill(2) by (simp add: stream_bytes_def)
    qed
    have full: "hc_pos c \<noteq> length (hc_buf c)" using room "1.prems"(1) by (simp add: codec_wf_def)
    have step: "read_request checks stream c = read_request checks ?stream ?c"
      using partial full st(1) n(1) by (subst read_request.simps) (simp add: n_def Let_def)
    show ?thesis unfolding step
      using "1.IH" [OF partial refl full st(1) refl n_def n(1) fill(1) "1.prems"(2) ok bytes] .
  qed
qed

fun read_requests :: "bool \<Rightarrow> nat \<Rightarrow> read_event list \<Rightarrow> http_codec \<Rightarrow> read_outcome list" where
  "read_requests checks 0 stream c = []"
| "read_requests checks (Suc n) stream c =
    (case read_request checks stream c of
       (outcome, stream', c') \<Rightarrow> outcome # read_requests checks n stream' c')"

lemma read_requests_all:
  assumes "codec_wf c" "list_all request_ok rs" "stream_ok stream"
    "buffered c @ stream_bytes stream = concat (map request_bytes rs)"
  shows "read_requests checks (Suc (length rs)) stream c = map ReadRequest rs @ [ReadClosed]"
  using assms
proof (induction rs arbitrary: stream c)
  case Nil
  then have "stream = []" by (cases stream) (auto simp: stream_ok_def stream_bytes_def split: read_event.splits)
  moreover have "hc_pos c = 0" "buffered c = []" using Nil(4) length_buffered [OF Nil(1)] by simp_all
  moreover have "try_parse checks c = Err Incomplete"
    using \<open>buffered c = []\<close> by (simp add: try_parse_def buffered_def [symmetric] CRLF_def Let_def)
  ultimately show ?case using Nil(1) by (simp add: read_request.simps [of checks "[]"] read_end_def codec_wf_def)
next
  case (Cons r rs)
  then obtain stream' c' where "read_request checks stream c = (ReadRequest r, stream', c')" "codec_wf c'"
      "stream_ok stream'" "buffered c' @ stream_bytes stream' = concat (map request_bytes rs)"
    using read_request_next [of c r stream "concat (map request_bytes rs)" checks] by auto
  then show ?case using Cons.IH [of c' stream'] Cons.prems(2) by simp
qed

text \<open>C12. Pipelined requests are read in order, each exactly once, and then the end of the stream: for every
  list of well-formed requests that fit the buffer, and however their bytes are cut into reads, the codec
  returns exactly these requests and then reports that the client closed.\<close>

theorem pipelined_requests_are_read_in_order:
  assumes "list_all request_ok rs" "stream_ok stream" "stream_bytes stream = concat (map request_bytes rs)"
  shows "read_requests checks (Suc (length rs)) stream codec_new = map ReadRequest rs @ [ReadClosed]"
  by (rule read_requests_all) (simp_all add: assms codec_new_wf)

text \<open>C40. A declared length that overflows crashes the connector: when the end of the head and the content
  length add up to more than a \<open>usize\<close> holds, parsing panics, whether additions are checked or wrap, and
  so does the read that delivered the head.\<close>

theorem overflowing_length_panics:
  assumes "codec_wf c" "head_ok r" "buffered c = head_bytes r @ CRLF @ CRLF @ x"
    "get_header_str (header_pairs r) ''content-length'' = Some v" "usize_from_radix 10 v = Some n"
    "2 ^ 32 \<le> length (head_bytes r) + 4 + n"
  shows "try_parse checks c = Err Panicked \<and> fst (read_request checks stream c) = ReadPanic"
proof -
  have len: "length (head_bytes r) + 4 \<le> 16384"
    using length_buffered [OF assms(1)] assms(1,3) by (simp add: codec_wf_def CRLF_def)
  have head: "take (length (head_bytes r)) (head_bytes r @ CRLF @ CRLF @ x) = head_bytes r" by simp
  have n: "n < 2 ^ 32" "n \<noteq> 0" using usize_from_radix_less [OF assms(5)] assms(6) len by auto
  have "request_body checks (header_pairs r) d (length (head_bytes r) + 4) = Err Panicked"
    if "length (head_bytes r) + 4 \<le> length d" for d
    using assms(2,4-6) n len that
    by (auto simp: request_body_def head_ok_def usize_add_def slice_def Let_def)
  then have "try_parse checks c = Err Panicked"
    unfolding try_parse_def buffered_def [symmetric] Let_def assms(3) find_request_head [OF assms(2)] ok_or_simps
      bind_result_simps head parse_request_head_ok [OF assms(2)] sum.case prod.case
    by (simp add: CRLF_def)
  then show ?thesis by (simp add: read_request.simps [of checks stream])
qed

section \<open>Sample requests\<close>

definition sample_get :: http_request where
  "sample_get = \<lparr>hq_method = ''GET'', hq_uri = ''/'', hq_headers = [\<lparr>hh_name = ''host'', hh_value = ''acme''\<rparr>], hq_body = []\<rparr>"

definition sample_post :: "string \<Rightarrow> http_request" where
  "sample_post len = \<lparr>hq_method = ''POST'', hq_uri = ''/a'',
     hq_headers = [\<lparr>hh_name = ''content-length'', hh_value = len\<rparr>], hq_body = [104, 105]\<rparr>"

lemma sample_heads: "head_ok sample_get" "head_ok (sample_post ''2'')" "head_ok (sample_post ''4294967295'')"
  by (simp_all add: head_ok_def sample_get_def sample_post_def clean_def ascii_def header_ok_def get_header_str_def
      to_lowercase_def lower_char_def trim_def is_space_def)

lemma sample_requests: "request_ok sample_get" "request_ok (sample_post ''2'')"
  by (simp_all add: request_ok_def sample_heads)
    (simp_all add: sample_get_def sample_post_def get_header_str_def to_lowercase_def lower_char_def request_bytes_def
      head_bytes_def request_lines_def header_line_def CRLF_def usize_from_radix_def radix_digits_def digit_value_def
      radix_value_def)

theorem pipelined_requests_are_read_in_order_witness:
  "let wire = request_bytes sample_get @ request_bytes (sample_post ''2'')
   in read_requests True 3 [Bytes (take 5 wire), Bytes (drop 5 wire)] codec_new =
        [ReadRequest sample_get, ReadRequest (sample_post ''2''), ReadClosed]"
proof -
  let ?wire = "request_bytes sample_get @ request_bytes (sample_post ''2'')"
  have "length ?wire > 5"
    by (simp add: request_bytes_def head_bytes_def request_lines_def sample_get_def)
  then have "stream_ok [Bytes (take 5 ?wire), Bytes (drop 5 ?wire)]" by (auto simp: stream_ok_def)
  then show ?thesis
    using pipelined_requests_are_read_in_order [of "[sample_get, sample_post ''2'']" "[Bytes (take 5 ?wire), Bytes (drop 5 ?wire)]" True]
    by (simp add: sample_requests stream_bytes_def numeral_3_eq_3 del: take_append drop_append)
qed

theorem overflowing_length_panics_witness:
  "let c = fill_buffer (request_bytes (sample_post ''4294967295'')) codec_new
   in fst (read_request True [] c) = ReadPanic \<and> fst (read_request False [] c) = ReadPanic"
proof -
  let ?r = "sample_post ''4294967295''"
  let ?c = "fill_buffer (request_bytes ?r) codec_new"
  have "hc_pos codec_new + length (request_bytes ?r) \<le> 16384"
    by (simp add: codec_new_def request_bytes_def head_bytes_def request_lines_def header_line_def sample_post_def CRLF_def)
  note fill = fill_buffer_effect [OF codec_new_wf(1) this]
  have "buffered ?c = head_bytes ?r @ CRLF @ CRLF @ hq_body ?r" unfolding fill(2) codec_new_wf(2) by (simp add: request_bytes_def)
  moreover have "get_header_str (header_pairs ?r) ''content-length'' = Some ''4294967295''"
    by (simp add: sample_post_def get_header_str_def to_lowercase_def lower_char_def)
  moreover have "usize_from_radix 10 ''4294967295'' = Some 4294967295"
    by (simp add: usize_from_radix_def radix_digits_def digit_value_def radix_value_def)
  ultimately show ?thesis
    using overflowing_length_panics [OF fill(1) sample_heads(3), of "hq_body ?r" _ 4294967295 _ "[]"] by simp
qed

end
