(* ===== verification/Http_Egress.thy ===== *)
theory Http_Egress
  imports Http_Properties
begin

text \<open>
  The replies of the HTTP connector: rendering (\<^verbatim>\<open>guests/connector-http/src/wire_out.rs\<close>), the pump of a forwarded
  request, the correlation of replies with requests, and the loop that writes them to the client
  (\<^verbatim>\<open>guests/connector-http/src/pipeline.rs\<close>).  A write that fails closes the connection; what part of it the
  client still received is not modelled.
\<close>

section \<open>Rendering\<close>

abbreviation line_bytes :: "string \<Rightarrow> u8 list" where
  "line_bytes s \<equiv> text_bytes s @ CRLF"

definition status_reason :: "u16 \<Rightarrow> string" where
  "status_reason status =
    (if status = 200 then ''OK'' else if status = 201 then ''Created'' else if status = 204 then ''No Content''
     else if status = 301 then ''Moved Permanently'' else if status = 302 then ''Found''
     else if status = 304 then ''Not Modified'' else if status = 400 then ''Bad Request''
     else if status = 401 then ''Unauthorized'' else if status = 403 then ''Forbidden''
     else if status = 404 then ''Not Found'' else if status = 405 then ''Method Not Allowed''
     else if status = 408 then ''Request Timeout'' else if status = 413 then ''Payload Too Large''
     else if status = 414 then ''URI Too Long'' else if status = 429 then ''Too Many Requests''
     else if status = 500 then ''Internal Server Error'' else if status = 502 then ''Bad Gateway''
     else if status = 503 then ''Service Unavailable'' else ''Unknown'')"

definition status_line :: "u16 \<Rightarrow> u8 list" where
  "status_line status = line_bytes (''HTTP/1.1 '' @ dec_digits (unat status) @ '' '' @ status_reason status)"

definition field_line :: "string \<Rightarrow> string \<Rightarrow> u8 list" where
  "field_line name val = line_bytes (name @ '': '' @ val)"

definition error_response :: "u16 \<Rightarrow> http_response" where
  "error_response status = \<lparr>hs_status = status,
     hs_headers = [\<lparr>hh_name = ''content-type'', hh_value = ''text/plain''\<rparr>],
     hs_body = text_bytes (status_reason status)\<rparr>"

definition bad_gateway_response :: http_response where
  "bad_gateway_response = error_response 502"

definition write_chunk :: "u8 list \<Rightarrow> u8 list" where
  "write_chunk bs = line_bytes (hex_digits (length bs)) @ bs @ CRLF"

definition write_response :: "http_response \<Rightarrow> u8 list" where
  "write_response response =
    status_line (hs_status response) @
    concat (map (\<lambda>h. field_line (hh_name h) (hh_value h)) (hs_headers response)) @
    (if hs_body response \<noteq> [] then field_line ''Content-Length'' (dec_digits (length (hs_body response))) else []) @
    CRLF @ hs_body response"

definition write_stream_end :: "http_trailer list \<Rightarrow> u8 list" where
  "write_stream_end trailers =
    line_bytes ''0'' @ concat (map (\<lambda>t. field_line (ht_name t) (ht_value t)) trailers) @ CRLF"

definition write_stream_head :: "http_response \<Rightarrow> u8 list" where
  "write_stream_head head =
    status_line (hs_status head) @
    concat (map (\<lambda>h. field_line (hh_name h) (hh_value h))
      (filter (\<lambda>h. to_lowercase (hh_name h) \<notin> {''content-length'', ''transfer-encoding''}) (hs_headers head))) @
    line_bytes ''Transfer-Encoding: chunked'' @ CRLF"

section \<open>Replies\<close>

datatype reply_event =
    Complete http_response
  | Head http_response
  | Chunk "u8 list"
  | Trailer http_trailer
  | End
  | Fail

fun is_terminal :: "reply_event \<Rightarrow> bool" where
  "is_terminal (Complete _) \<longleftrightarrow> True"
| "is_terminal End \<longleftrightarrow> True"
| "is_terminal Fail \<longleftrightarrow> True"
| "is_terminal _ \<longleftrightarrow> False"

record stream_item =
  si_kind :: u8
  si_status :: u16
  si_headers :: "http_header list"
  si_data :: "u8 list"
  si_name :: string
  si_value :: string

definition stream_item_event :: "stream_item \<Rightarrow> reply_event" where
  "stream_item_event item =
    (if si_kind item = 1 then Head \<lparr>hs_status = si_status item, hs_headers = si_headers item, hs_body = []\<rparr>
     else if si_kind item = 2 then Chunk (si_data item)
     else if si_kind item = 3 then Trailer \<lparr>ht_name = si_name item, ht_value = si_value item\<rparr>
     else Fail)"

text \<open>A session relays a response, or the items of a stream up to its end or an error (\<open>None\<close>); the pump
  appends the terminal event that the session did not send.\<close>

datatype session_reply = Unary "http_response option" | Streamed "stream_item option list"

fun relay_items :: "stream_item option list \<Rightarrow> reply_event list" where
  "relay_items [] = []"
| "relay_items (None # _) = []"
| "relay_items (Some item # items) = stream_item_event item # relay_items items"

definition forward :: "session_reply \<Rightarrow> reply_event list" where
  "forward reply =
    (case reply of
       Unary None \<Rightarrow> []
     | Unary (Some response) \<Rightarrow> [Complete response]
     | Streamed items \<Rightarrow> relay_items items)"

definition pump :: "session_reply \<Rightarrow> reply_event list" where
  "pump reply =
    (let events = forward reply in
     if list_ex is_terminal events then events
     else events @ [if list_ex (\<lambda>e. case e of Head _ \<Rightarrow> True | _ \<Rightarrow> False) events then End else Fail])"

section \<open>Correlation\<close>

record correlation_map =
  cm_pending :: "u64 \<Rightarrow> reply_event list option"
  cm_next :: u64

definition correlation_new :: correlation_map where
  "correlation_new = \<lparr>cm_pending = (\<lambda>_. None), cm_next = 0\<rparr>"

function flush :: "correlation_map \<Rightarrow> reply_event list \<Rightarrow> reply_event list \<times> correlation_map" where
  "flush m ready =
    (case cm_pending m (cm_next m) of
       None \<Rightarrow> (ready, m)
     | Some queue \<Rightarrow>
         let ready = ready @ queue
         in if ready \<noteq> [] \<and> is_terminal (last ready)
            then flush \<lparr>cm_pending = (cm_pending m)(cm_next m := None), cm_next = cm_next m + 1\<rparr> ready
            else (ready, m\<lparr>cm_pending := (cm_pending m)(cm_next m \<mapsto> [])\<rparr>))"
  by pat_completeness auto
termination
  by (relation "measure (\<lambda>(m, _). card (dom (cm_pending m)))") (auto intro!: psubset_card_mono)

declare flush.simps [simp del]

definition insert_and_flush :: "u64 \<Rightarrow> reply_event \<Rightarrow> correlation_map \<Rightarrow> reply_event list \<times> correlation_map" where
  "insert_and_flush seq event m =
    flush (m\<lparr>cm_pending := (cm_pending m)(seq \<mapsto>
      (case cm_pending m seq of None \<Rightarrow> [] | Some queue \<Rightarrow> queue) @ [event])\<rparr>) []"

section \<open>The egress loop\<close>

record egress =
  eg_stream_open :: bool
  eg_trailers :: "http_trailer list"
  eg_out :: "u8 list"
  eg_closed :: bool

definition egress_new :: egress where
  "egress_new = \<lparr>eg_stream_open = False, eg_trailers = [], eg_out = [], eg_closed = False\<rparr>"

definition send_bytes :: "(u8 list \<Rightarrow> u8 list \<Rightarrow> bool) \<Rightarrow> u8 list \<Rightarrow> egress \<Rightarrow> egress" where
  "send_bytes accepts bs g =
    (if accepts (eg_out g) bs then g\<lparr>eg_out := eg_out g @ bs\<rparr> else g\<lparr>eg_closed := True\<rparr>)"

definition egress_event :: "(u8 list \<Rightarrow> u8 list \<Rightarrow> bool) \<Rightarrow> reply_event \<Rightarrow> egress \<Rightarrow> egress" where
  "egress_event accepts event g =
    (if eg_closed g then g
     else case event of
       Complete response \<Rightarrow> send_bytes accepts (write_response response) (g\<lparr>eg_stream_open := False, eg_trailers := []\<rparr>)
     | Head head \<Rightarrow> send_bytes accepts (write_stream_head head) (g\<lparr>eg_stream_open := True\<rparr>)
     | Chunk bs \<Rightarrow> if bs = [] then g else send_bytes accepts (write_chunk bs) g
     | Trailer t \<Rightarrow> g\<lparr>eg_trailers := eg_trailers g @ [t]\<rparr>
     | End \<Rightarrow> (send_bytes accepts (write_stream_end (eg_trailers g)) g)\<lparr>eg_trailers := [], eg_stream_open := False\<rparr>
     | Fail \<Rightarrow> if eg_stream_open g then g\<lparr>eg_closed := True\<rparr>
               else send_bytes accepts (write_response bad_gateway_response) g)"

definition egress_step ::
    "(u8 list \<Rightarrow> u8 list \<Rightarrow> bool) \<Rightarrow> u64 \<times> reply_event \<Rightarrow> correlation_map \<times> egress \<Rightarrow> correlation_map \<times> egress" where
  "egress_step accepts arrival st =
    (case (arrival, st) of ((seq, event), (m, g)) \<Rightarrow>
       let (ready, m') = insert_and_flush seq event m
       in (m', fold (egress_event accepts) ready g))"

definition egress_loop :: "(u8 list \<Rightarrow> u8 list \<Rightarrow> bool) \<Rightarrow> (u64 \<times> reply_event) list \<Rightarrow> correlation_map \<times> egress" where
  "egress_loop accepts arrivals = fold (egress_step accepts) arrivals (correlation_new, egress_new)"

end
