(* ===== verification/Http_Egress_Properties.thy ===== *)
theory Http_Egress_Properties
  imports Http_Egress
begin

text \<open>
  What the reply side of the HTTP connector guarantees: replies reach the client in request order however
  they interleave, and a chunked body that the connector writes is one that its codec reads.
\<close>

section \<open>Replies in request order\<close>

definition replies :: "u64 \<Rightarrow> (u64 \<times> reply_event) list \<Rightarrow> reply_event list" where
  "replies k arrivals = map snd (filter (\<lambda>(seq, _). seq = k) arrivals)"

definition terminated :: "reply_event list \<Rightarrow> bool" where
  "terminated evs \<longleftrightarrow> evs \<noteq> [] \<and> is_terminal (last evs)"

definition unbroken :: "reply_event list \<Rightarrow> bool" where
  "unbroken evs \<longleftrightarrow> list_all (Not \<circ> is_terminal) (butlast evs)"

definition known_items :: "session_reply \<Rightarrow> bool" where
  "known_items reply \<longleftrightarrow>
    (case reply of Unary _ \<Rightarrow> True | Streamed items \<Rightarrow> list_all (\<lambda>i. case i of None \<Rightarrow> True | Some item \<Rightarrow> si_kind item \<in> {1, 2, 3}) items)"

lemma relay_items_open:
  "list_all (\<lambda>i. case i of None \<Rightarrow> True | Some item \<Rightarrow> si_kind item \<in> {1, 2, 3}) items \<Longrightarrow>
    list_all (Not \<circ> is_terminal) (relay_items items)"
  by (induction items rule: relay_items.induct) (auto simp: stream_item_event_def)

lemma pump_complete:
  assumes "known_items reply"
  shows "terminated (pump reply)" "unbroken (pump reply)"
proof -
  have "forward reply = [] \<or> (\<exists>r. forward reply = [Complete r]) \<or> list_all (Not \<circ> is_terminal) (forward reply)"
    using assms relay_items_open by (auto simp: forward_def known_items_def split: session_reply.splits option.splits)
  then have "terminated (pump reply) \<and> unbroken (pump reply)"
    by (auto simp: pump_def terminated_def unbroken_def Let_def list_ex_iff list_all_iff)
  then show "terminated (pump reply)" "unbroken (pump reply)" by simp_all
qed

definition seqs :: "u64 \<Rightarrow> u64 list" where
  "seqs n = map of_nat [0..<unat n]"

lemma unat_Suc_less: "n < N \<Longrightarrow> unat (n + 1) = Suc (unat (n :: u64))"
proof -
  assume "n < N"
  then have "unat n + 1 < 2 ^ 64" using unat_u64_lt [of N] by (simp add: word_less_nat_alt)
  then show ?thesis by (simp add: unat_word_ariths)
qed

lemma seqs_Suc: "n < N \<Longrightarrow> seqs (n + 1) = seqs n @ [n]"
  by (simp add: seqs_def unat_Suc_less)

lemma set_seqs: "k \<in> set (seqs n) \<longleftrightarrow> k < n"
proof
  assume "k \<in> set (seqs n)"
  then obtain i where i: "k = of_nat i" "i < unat n" by (auto simp: seqs_def)
  moreover have "i < 2 ^ 64" using i(2) unat_u64_lt [of n] by simp
  ultimately show "k < n" by (simp add: word_less_nat_alt unat_of_nat_u64)
next
  assume "k < n"
  then have "unat k < unat n" by (simp add: word_less_nat_alt)
  moreover have "k = of_nat (unat k)" by simp
  ultimately show "k \<in> set (seqs n)" unfolding seqs_def by (auto intro!: image_eqI [of k of_nat "unat k"])
qed

lemma seqs_upd [simp]: "n \<le> seq \<Longrightarrow> map (ev(seq := es)) (seqs n) = map ev (seqs n)"
  by (auto simp: set_seqs)

lemma less_Suc_seq: "n < N \<Longrightarrow> k < n + 1 \<longleftrightarrow> k < n \<or> k = (n :: u64)"
  using unat_Suc_less [of n N] by (auto simp: word_less_nat_alt word_unat_eq_iff)

text \<open>The map before and after a flush, for the events \<open>ev k\<close> that have arrived for each request.\<close>

definition held_back :: "(u64 \<Rightarrow> reply_event list) \<Rightarrow> correlation_map \<Rightarrow> bool" where
  "held_back ev m \<longleftrightarrow> (\<forall>k<cm_next m. terminated (ev k)) \<and>
     (\<forall>k. cm_pending m k = (if k < cm_next m \<or> ev k = [] then None else Some (ev k)))"

definition caught_up :: "(u64 \<Rightarrow> reply_event list) \<Rightarrow> reply_event list \<Rightarrow> correlation_map \<Rightarrow> bool" where
  "caught_up ev sent m \<longleftrightarrow> sent = concat (map ev (seqs (cm_next m))) @ ev (cm_next m) \<and>
     (\<forall>k<cm_next m. terminated (ev k)) \<and> \<not> terminated (ev (cm_next m)) \<and>
     (\<forall>k. cm_pending m k =
        (if k < cm_next m \<or> ev k = [] then None else if k = cm_next m then Some [] else Some (ev k)))"

lemma flush_catches_up:
  assumes "held_back ev m" "\<And>k. ev k \<noteq> [] \<Longrightarrow> k < N" "cm_next m \<le> N"
    "sent @ ready = concat (map ev (seqs (cm_next m)))" "flush m ready = (ready', m')"
  shows "caught_up ev (sent @ ready') m' \<and> cm_next m' \<le> N"
  using assms
proof (induction m ready rule: flush.induct)
  case (1 m ready)
  let ?n = "cm_next m"
  show ?case
  proof (cases "ev ?n = []")
    case True
    then have "ready' = ready \<and> m' = m" using "1.prems"(1,5) by (simp add: flush.simps [of m] held_back_def)
    then show ?thesis using "1.prems"(1,3,4) True by (auto simp: terminated_def held_back_def caught_up_def)
  next
    case False
    then have pend: "cm_pending m ?n = Some (ev ?n)" and N: "?n < N" using "1.prems"(1,2) by (auto simp: held_back_def)
    show ?thesis
    proof (cases "terminated (ev ?n)")
      case True
      show ?thesis
      proof (rule "1.IH" [OF pend refl])
        show "ready @ ev ?n \<noteq> [] \<and> is_terminal (last (ready @ ev ?n))" using True by (simp add: terminated_def)
        show "flush \<lparr>cm_pending = (cm_pending m)(?n := None), cm_next = ?n + 1\<rparr> (ready @ ev ?n) = (ready', m')"
          using "1.prems"(5) True pend by (simp add: flush.simps [of m] terminated_def Let_def)
        show "sent @ ready @ ev ?n = concat (map ev (seqs (cm_next \<lparr>cm_pending = (cm_pending m)(?n := None), cm_next = ?n + 1\<rparr>)))"
          using "1.prems"(4) by (simp add: seqs_Suc [OF N] append_assoc [symmetric] del: append_assoc)
      qed (use "1.prems"(1,2) less_Suc_seq [OF N] True unat_Suc_less [OF N] N
          in \<open>auto simp: held_back_def word_le_nat_alt word_less_nat_alt\<close>)
    next
      case open': False
      then have "ready' = ready @ ev ?n" "m' = m\<lparr>cm_pending := (cm_pending m)(?n \<mapsto> [])\<rparr>"
        using "1.prems"(5) pend False by (simp_all add: flush.simps [of m] terminated_def Let_def)
      then show ?thesis using "1.prems"(1,3,4) open' False
        by (auto simp: held_back_def caught_up_def append_assoc [symmetric] simp del: append_assoc)
    qed
  qed
qed

lemma insert_catches_up:
  assumes "caught_up ev sent m" "cm_next m \<le> N" "\<not> terminated (ev seq)" "\<And>k. (ev(seq := ev seq @ [event])) k \<noteq> [] \<Longrightarrow> k < N"
    "insert_and_flush seq event m = (ready, m')"
  shows "caught_up (ev(seq := ev seq @ [event])) (sent @ ready) m' \<and> cm_next m' \<le> N"
proof -
  let ?ev = "ev(seq := ev seq @ [event])" and ?n = "cm_next m"
  let ?m = "m\<lparr>cm_pending := (cm_pending m)(seq \<mapsto> (case cm_pending m seq of None \<Rightarrow> [] | Some queue \<Rightarrow> queue) @ [event])\<rparr>"
  have run: "flush ?m [] = (ready, m')" using assms(5) by (simp add: insert_and_flush_def)
  have seq: "?n \<le> seq" using assms(1,3) by (auto simp: caught_up_def not_less [symmetric])
  show ?thesis
  proof (cases "seq = ?n")
    case False
    then have "cm_pending ?m ?n = None \<or> cm_pending ?m ?n = Some []" using assms(1) by (auto simp: caught_up_def)
    then have "ready = [] \<and> cm_next m' = ?n \<and> cm_pending m' = cm_pending ?m"
      using run by (auto simp: flush.simps [of ?m] fun_upd_idem_iff simp del: fun_upd_apply)
    then show ?thesis using assms(1,2) False seq by (auto simp: caught_up_def)
  next
    case head: True
    then have pend: "cm_pending ?m ?n = Some [event]" using assms(1) by (auto simp: caught_up_def)
    show ?thesis
    proof (cases "is_terminal event")
      case False
      have "(ready, m') = ([event], ?m\<lparr>cm_pending := (cm_pending ?m)(?n \<mapsto> [])\<rparr>)"
        unfolding run [symmetric] using pend False by (simp add: flush.simps [of ?m] Let_def)
      then show ?thesis using assms(1,2) False head by (auto simp: caught_up_def terminated_def)
    next
      case True
      let ?next = "\<lparr>cm_pending = (cm_pending ?m)(?n := None), cm_next = ?n + 1\<rparr>"
      have N: "?n < N" using assms(4) [of ?n] head by simp
      have "flush ?next [event] = (ready, m')"
        using run pend True by (simp add: flush.simps [of ?m] Let_def)
      moreover have "held_back ?ev ?next"
        using assms(1) True head less_Suc_seq [OF N] by (auto simp: held_back_def caught_up_def terminated_def)
      moreover have "sent @ [event] = concat (map ?ev (seqs (cm_next ?next)))"
        using assms(1) head by (simp add: seqs_Suc [OF N] caught_up_def)
      moreover have "cm_next ?next \<le> N" using unat_Suc_less [OF N] N by (simp add: word_le_nat_alt word_less_nat_alt)
      ultimately show ?thesis by (intro flush_catches_up [where N = N]) (use assms(4) in auto)
    qed
  qed
qed

lemma replies_snoc:
  "(\<lambda>k. replies k (arrivals @ [(seq, event)])) =
    (\<lambda>k. replies k arrivals)(seq := replies seq arrivals @ [event])"
  by (auto simp: replies_def fun_eq_iff)

lemma egress_loop_sent:
  assumes "\<And>k. unbroken (replies k arrivals)" "\<And>k. replies k arrivals \<noteq> [] \<Longrightarrow> k < N"
  shows "\<exists>sent m. egress_loop accepts arrivals = (m, fold (egress_event accepts) sent egress_new) \<and>
    caught_up (\<lambda>k. replies k arrivals) sent m \<and> cm_next m \<le> N"
  using assms
proof (induction arrivals rule: rev_induct)
  case Nil
  have "caught_up (\<lambda>k. replies k []) [] correlation_new"
    by (simp add: caught_up_def correlation_new_def replies_def terminated_def seqs_def)
  then show ?case
    by (intro exI [of _ "[]"] exI [of _ correlation_new]) (simp add: egress_loop_def correlation_new_def)
next
  case (snoc arrival arrivals)
  obtain seq event where a: "arrival = (seq, event)" by (cases arrival)
  have before: "list_all (Not \<circ> is_terminal) (replies seq arrivals)"
    using snoc.prems(1) [of seq] by (simp add: a replies_def unbroken_def)
  have "unbroken (replies k arrivals)" for k
    using snoc.prems(1) [of k] before fun_cong [OF replies_snoc [of arrivals seq event], of k]
    by (cases "k = seq") (auto simp: a unbroken_def list_all_iff dest: in_set_butlastD)
  moreover have "replies k arrivals \<noteq> [] \<Longrightarrow> k < N" for k using snoc.prems(2) [of k] by (auto simp: replies_def)
  ultimately obtain sent m where IH: "egress_loop accepts arrivals = (m, fold (egress_event accepts) sent egress_new)"
      "caught_up (\<lambda>k. replies k arrivals) sent m" "cm_next m \<le> N"
    using snoc.IH by blast
  obtain ready m' where run: "insert_and_flush seq event m = (ready, m')" by fastforce
  have "\<not> terminated (replies seq arrivals)" using before by (auto simp: terminated_def list_all_iff)
  moreover have "((\<lambda>k. replies k arrivals)(seq := replies seq arrivals @ [event])) k \<noteq> [] \<Longrightarrow> k < N" for k
    unfolding replies_snoc [symmetric] using snoc.prems(2) [of k] by (simp add: a)
  ultimately have "caught_up (\<lambda>k. replies k (arrivals @ [arrival])) (sent @ ready) m' \<and> cm_next m' \<le> N"
    unfolding a replies_snoc by (intro insert_catches_up [OF IH(2,3) _ _ run])
  moreover have "egress_loop accepts (arrivals @ [arrival]) = (m', fold (egress_event accepts) (sent @ ready) egress_new)"
    using IH(1) run by (simp add: egress_loop_def egress_step_def a)
  ultimately show ?case by blast
qed

lemma egress_in_request_order:
  assumes "\<forall>k<n. replies k arrivals = pump (sessions k) \<and> known_items (sessions k)" "\<forall>(k, e)\<in>set arrivals. k < n"
  shows "snd (egress_loop accepts arrivals) =
    fold (egress_event accepts) (concat (map (\<lambda>k. pump (sessions (of_nat k))) [0..<unat n])) egress_new"
proof -
  have none: "replies k arrivals = []" if "\<not> k < n" for k
    using assms(2) that by (auto simp: replies_def filter_empty_conv)
  have some: "terminated (replies k arrivals)" "unbroken (replies k arrivals)" if "k < n" for k
    using assms(1) pump_complete that by simp_all
  have "unbroken (replies k arrivals)" for k
    using none [of k] some(2) [of k] by (cases "k < n") (simp_all add: unbroken_def)
  moreover have "replies k arrivals \<noteq> [] \<Longrightarrow> k < n" for k using none [of k] by blast
  ultimately obtain sent m where loop: "egress_loop accepts arrivals = (m, fold (egress_event accepts) sent egress_new)"
      "caught_up (\<lambda>k. replies k arrivals) sent m" "cm_next m \<le> n"
    using egress_loop_sent [of arrivals n accepts] by blast
  have next_is: "cm_next m = n"
    using loop(2,3) some(1) [of "cm_next m"] by (auto simp: caught_up_def le_less)
  have "map (\<lambda>k. replies k arrivals) (seqs n) = map (\<lambda>k. pump (sessions (of_nat k))) [0..<unat n]"
    using assms(1) set_seqs [of _ n] by (auto simp: seqs_def)
  then have "sent = concat (map (\<lambda>k. pump (sessions (of_nat k))) [0..<unat n])"
    using loop(2) none [of n] by (simp add: caught_up_def next_is)
  then show ?thesis using loop(1) by simp
qed


definition sample_item :: "u8 \<Rightarrow> string \<Rightarrow> stream_item" where
  "sample_item kind name = \<lparr>si_kind = kind, si_status = 200, si_headers = [], si_data = [104, 105], si_name = name, si_value = ''v''\<rparr>"


text \<open>Trailers leak from one reply into another: when a session sends a trailer before any head and then
  breaks off, its reply becomes an error response and the trailer is kept.  It is written at the end of the
  next streamed reply on the connection, which belongs to another request.\<close>

theorem trailers_leak_into_next_reply:
  "eg_out (snd (egress_loop (\<lambda>_ _. True)
     (map (Pair 0) (pump (Streamed [Some (sample_item 3 name), None])) @ map (Pair 1) (pump (Streamed [Some (sample_item 1 [])]))))) =
   write_response bad_gateway_response @ write_stream_head \<lparr>hs_status = 200, hs_headers = [], hs_body = []\<rparr> @
     write_stream_end [\<lparr>ht_name = name, ht_value = ''v''\<rparr>]"
proof -
  let ?sessions = "\<lambda>k :: u64. Streamed (if k = 0 then [Some (sample_item 3 name), None] else [Some (sample_item 1 [])])"
  let ?arrivals = "map (Pair 0) (pump (?sessions 0)) @ map (Pair 1) (pump (?sessions 1))"
  have pumps: "pump (?sessions 0) = [Trailer \<lparr>ht_name = name, ht_value = ''v''\<rparr>, Fail]"
      "pump (?sessions 1) = [Head \<lparr>hs_status = 200, hs_headers = [], hs_body = []\<rparr>, End]"
    by (simp_all add: pump_def forward_def stream_item_event_def sample_item_def)
  have "k = 0 \<or> k = 1" if "k < 2" for k :: u64 using that by (auto simp: word_less_nat_alt word_unat_eq_iff less_2_cases_iff)
  then have "\<forall>k<2. replies k ?arrivals = pump (?sessions k) \<and> known_items (?sessions k)"
    using pumps by (auto simp: replies_def known_items_def sample_item_def)
  from egress_in_request_order [OF this, of "\<lambda>_ _. True"] show ?thesis
    using pumps by (simp add: upt_rec egress_event_def egress_new_def send_bytes_def)
qed

section \<open>Chunked bodies\<close>

definition hex_char :: "char \<Rightarrow> bool" where
  "hex_char c \<longleftrightarrow> (let n = of_char c :: nat in 48 \<le> n \<and> n \<le> 57 \<or> 97 \<le> n \<and> n \<le> 102)"

lemma hex_char_digit:
  "d < 16 \<Longrightarrow> hex_char (char_of (if d < 10 then 48 + d else 87 + d)) \<and>
    digit_value (char_of (if d < 10 then 48 + d else 87 + d)) = Some d"
  by (auto simp: hex_char_def digit_value_def Let_def of_char_of)

lemma radix_value_snoc: "radix_value r (s @ [c]) = r * radix_value r s + the (digit_value c)"
  by (simp add: radix_value_def)

lemma hex_digits_correct:
  "radix_value 16 (hex_digits n) = n \<and> radix_digits 16 (hex_digits n) \<and> list_all hex_char (hex_digits n)"
proof (induction n rule: hex_digits.induct)
  case (1 n)
  define d where "d = n mod 16"
  have d: "d < 16" by (simp add: d_def)
  note c = hex_char_digit [OF d]
  show ?case
  proof (cases "n < 16")
    case True
    then have "hex_digits n = [char_of (if d < 10 then 48 + d else 87 + d)]" "n = d"
      by (simp_all add: hex_digits.simps [of n] d_def Let_def)
    then show ?thesis using c d by (simp add: radix_digits_def radix_value_def)
  next
    case False
    then have eq: "hex_digits n = hex_digits (n div 16) @ [char_of (if d < 10 then 48 + d else 87 + d)]"
      by (simp add: hex_digits.simps [of n] d_def Let_def)
    have "16 * (n div 16) + d = n" by (simp add: d_def)
    then show ?thesis unfolding eq using "1" False c d by (simp add: radix_value_snoc radix_digits_def Let_def)
  qed
qed

lemma hex_char_plain:
  "hex_char c \<Longrightarrow> (of_char c :: nat) < 128 \<and> c \<noteq> CHR 0x0D \<and> c \<noteq> CHR '';'' \<and> c \<noteq> CHR ''+'' \<and> \<not> is_space c"
  by (auto simp: hex_char_def is_space_def Let_def)

lemma trim_plain: "(\<And>c. c \<in> set s \<Longrightarrow> \<not> is_space c) \<Longrightarrow> trim s = s"
proof -
  have keep: "(\<And>c. c \<in> set t \<Longrightarrow> \<not> is_space c) \<Longrightarrow> dropWhile is_space t = t" for t by (cases t) auto
  show "(\<And>c. c \<in> set s \<Longrightarrow> \<not> is_space c) \<Longrightarrow> trim s = s"
    using keep [of s] keep [of "rev s"] by (simp add: trim_def)
qed

lemma size_line:
  assumes "n < 2 ^ 32"
  shows "CHR 0x0D \<notin> set (hex_digits n)" "from_utf8 (text_bytes (hex_digits n)) = Some (hex_digits n)"
    "usize_from_radix 16 (trim (hd (split_on CHR '';'' (hex_digits n)))) = Some n"
proof -
  note hex = hex_digits_correct [of n]
  have plain: "\<And>c. c \<in> set (hex_digits n) \<Longrightarrow> hex_char c" using hex by (simp add: list_all_iff)
  show "CHR 0x0D \<notin> set (hex_digits n)" using plain hex_char_plain by blast
  show "from_utf8 (text_bytes (hex_digits n)) = Some (hex_digits n)"
    using plain hex_char_plain by (intro from_utf8_ascii) (auto simp: ascii_def list_all_iff)
  have "split_on CHR '';'' (hex_digits n) = [hex_digits n]" using plain hex_char_plain by (intro split_on_clean) blast
  moreover have "trim (hex_digits n) = hex_digits n"
    using plain hex_char_plain by (intro trim_plain) blast
  moreover have "(case hex_digits n of CHR ''+'' # r \<Rightarrow> r | _ \<Rightarrow> hex_digits n) = hex_digits n"
    using plain [of "CHR ''+''"] hex_char_plain [of "CHR ''+''"] by (auto split: list.split char.split bool.split)
  ultimately show "usize_from_radix 16 (trim (hd (split_on CHR '';'' (hex_digits n)))) = Some n"
    using hex assms by (simp add: usize_from_radix_def Let_def)
qed

lemma find_line_end: "CHR 0x0D \<notin> set l \<Longrightarrow> find_subsequence (line_bytes l @ x) CRLF = Some (length l)"
  using find_skip [of CRLF "text_bytes l" "CRLF @ x"] find_here [of CRLF x] byte_free [of l] by (simp add: CRLF_def)

lemma chunk_step_write_chunk:
  assumes "bs \<noteq> []" "length (pre @ write_chunk bs @ rest) < 2 ^ 32"
  shows "chunk_step checks (pre @ write_chunk bs @ rest) (length pre) = Ok (Inr (bs, length (pre @ write_chunk bs)))"
proof -
  let ?hex = "hex_digits (length bs)"
  have lt: "length bs < 2 ^ 32" using assms(2) by (simp add: write_chunk_def)
  note line = size_line [OF lt]
  have "find_subsequence (write_chunk bs @ rest) CRLF = Some (length ?hex)"
    using find_line_end [OF line(1), of "bs @ CRLF @ rest"] by (simp add: write_chunk_def)
  then show ?thesis
    using assms line(2,3) by (simp add: chunk_step_def slice_def Let_def) (simp add: write_chunk_def CRLF_def usize_add_def slice_def)
qed

lemma chunk_step_write_end:
  assumes "find_subsequence x CRLF = Some i"
  shows "chunk_step checks (pre @ line_bytes ''0'' @ x) (length pre) = Ok (Inl (length pre + 3 + i + 2))"
proof -
  have "find_subsequence (line_bytes ''0'' @ x) CRLF = Some 1" using find_line_end [of "''0''" x] by simp
  moreover have "from_utf8 (text_bytes ''0'') = Some ''0''" by (intro from_utf8_ascii) (simp add: ascii_def)
  moreover have "usize_from_radix 16 (trim (hd (split_on CHR '';'' ''0''))) = Some 0"
    by (simp add: trim_def is_space_def usize_from_radix_def radix_digits_def digit_value_def radix_value_def)
  ultimately show ?thesis using assms
    by (simp add: chunk_step_def slice_def Let_def) (simp add: text_bytes_def CRLF_def)
qed

lemma decode_written_chunks:
  assumes "list_all (\<lambda>bs. bs \<noteq> []) cs" "find_subsequence x CRLF = Some i"
    "length (pre @ concat (map write_chunk cs) @ line_bytes ''0'' @ x) < 2 ^ 32"
  shows "decode_chunked_body checks (pre @ concat (map write_chunk cs) @ line_bytes ''0'' @ x) (length pre) body =
    Ok (body @ concat cs, length pre + length (concat (map write_chunk cs)) + 3 + i + 2)"
  using assms(1,3)
proof (induction cs arbitrary: pre body)
  case Nil
  then show ?case using chunk_step_write_end [OF assms(2), of checks pre]
    by (subst decode_chunked_body.simps) simp
next
  case (Cons bs cs)
  let ?rest = "concat (map write_chunk cs) @ line_bytes ''0'' @ x"
  have "chunk_step checks (pre @ write_chunk bs @ ?rest) (length pre) = Ok (Inr (bs, length (pre @ write_chunk bs)))"
    using Cons.prems by (intro chunk_step_write_chunk) simp_all
  then show ?case using Cons.IH [of "pre @ write_chunk bs" "body @ bs"] Cons.prems
    by (subst decode_chunked_body.simps) (simp add: add.assoc)
qed

text \<open>C17. The chunked bodies that the connector writes are the ones its codec reads: for every list of chunks
  that are not empty, decoding what is written for them and for the end of the stream, followed by anything
  else, returns their concatenation and consumes exactly what was written.\<close>

theorem chunked_body_round_trip:
  assumes "list_all (\<lambda>bs. bs \<noteq> []) cs" "length (concat (map write_chunk cs) @ write_stream_end [] @ rest) < 2 ^ 32"
  shows "decode_chunked_body checks (concat (map write_chunk cs) @ write_stream_end [] @ rest) 0 [] =
    Ok (concat cs, length (concat (map write_chunk cs) @ write_stream_end []))"
  using decode_written_chunks [OF assms(1), of "CRLF @ rest" 0 "[]" checks "[]"] find_here [of CRLF rest] assms(2)
  by (simp add: write_stream_end_def CRLF_def)

text \<open>Trailers are not consumed with the body: of a chunked request body that ends with trailers, decoding
  consumes the first trailer only.  The other trailers and the blank line stay in the buffer, where the next
  request is looked for.\<close>

theorem trailers_are_left_in_the_buffer:
  assumes "list_all (\<lambda>bs. bs \<noteq> []) cs" "CHR 0x0D \<notin> set (ht_name t)" "CHR 0x0D \<notin> set (ht_value t)"
    "length (concat (map write_chunk cs) @ write_stream_end (t # ts) @ rest) < 2 ^ 32"
  shows "\<exists>n. decode_chunked_body checks (concat (map write_chunk cs) @ write_stream_end (t # ts) @ rest) 0 [] = Ok (concat cs, n) \<and>
    drop n (concat (map write_chunk cs) @ write_stream_end (t # ts) @ rest) =
      concat (map (\<lambda>t. field_line (ht_name t) (ht_value t)) ts) @ CRLF @ rest"
proof -
  let ?line = "ht_name t @ '': '' @ ht_value t" and ?more = "concat (map (\<lambda>t. field_line (ht_name t) (ht_value t)) ts) @ CRLF @ rest"
  have wire: "write_stream_end (t # ts) @ rest = line_bytes ''0'' @ line_bytes ?line @ ?more"
    by (simp add: write_stream_end_def field_line_def)
  have "find_subsequence (line_bytes ?line @ ?more) CRLF = Some (length ?line)"
    using assms(2,3) by (intro find_line_end) auto
  note decode = decode_written_chunks [OF assms(1) this, of "[]" checks "[]"]
  let ?read = "concat (map write_chunk cs) @ line_bytes ''0'' @ line_bytes ?line"
  have "length ?read = length (concat (map write_chunk cs)) + 3 + length ?line + 2" by (simp add: CRLF_def)
  then have "decode_chunked_body checks (concat (map write_chunk cs) @ write_stream_end (t # ts) @ rest) 0 [] =
      Ok (concat cs, length ?read)"
    using decode assms(4) unfolding wire by simp
  moreover have "drop (length ?read) (?read @ ?more) = ?more" by simp
  ultimately show ?thesis unfolding wire append_assoc by blast
qed

section \<open>Sample bodies\<close>

lemma sample_chunk: "write_chunk [104, 105] = [50, 13, 10, 104, 105, 13, 10]"
  by (simp add: write_chunk_def hex_digits.simps text_bytes_def CRLF_def byte_of_char of_char_of)

theorem chunked_body_round_trip_witness:
  "decode_chunked_body True ([50, 13, 10, 104, 105, 13, 10] @ [50, 13, 10, 104, 105, 13, 10] @ [48, 13, 10, 13, 10] @ [71]) 0 [] =
    Ok ([104, 105, 104, 105], 19)"
  using chunked_body_round_trip [of "[[104, 105], [104, 105]]" "[71]" True]
  by (simp add: sample_chunk write_stream_end_def text_bytes_def CRLF_def)

theorem trailers_are_left_in_the_buffer_witness:
  "\<exists>n. decode_chunked_body True (write_chunk [104, 105] @
       write_stream_end [\<lparr>ht_name = ''a'', ht_value = ''b''\<rparr>, \<lparr>ht_name = ''GET / x'', ht_value = ''y''\<rparr>]) 0 [] = Ok ([104, 105], n) \<and>
     drop n (write_chunk [104, 105] @
       write_stream_end [\<lparr>ht_name = ''a'', ht_value = ''b''\<rparr>, \<lparr>ht_name = ''GET / x'', ht_value = ''y''\<rparr>]) =
       field_line ''GET / x'' ''y'' @ CRLF"
  using trailers_are_left_in_the_buffer [of "[[104, 105]]" "\<lparr>ht_name = ''a'', ht_value = ''b''\<rparr>"
      "[\<lparr>ht_name = ''GET / x'', ht_value = ''y''\<rparr>]" "[]" True]
  by (simp add: sample_chunk) (simp add: write_stream_end_def field_line_def CRLF_def)

end
