(* ===== verification/Dns_Wire.thy ===== *)
theory Dns_Wire
  imports Text_Encoding
begin

text \<open>
  The DNS message codec (\<^verbatim>\<open>crates/proto-dns/src/wire.rs\<close>): queries, names with compression pointers, and the
  addresses of a response.  Positions in a message are naturals; the checked additions of the code fail
  with the same error as the comparison with the length of the message that follows them.
\<close>

section \<open>Messages\<close>

datatype dns_record_type = RecordA | RecordCname | RecordAaaa

datatype dns_outcome = Resolved | NxDomain | TimedOut | TruncatedReply | ServFail | RefusedReply | UpstreamError

record dns_query =
  dq_name :: string
  dq_type :: dns_record_type

record dns_response =
  dr_outcome :: dns_outcome
  dr_addresses :: "string list"

record parsed_response =
  pr_txid :: u16
  pr_outcome :: dns_outcome
  pr_addresses :: "string list"

datatype dns_error = ShortMessage | NameTooLong | MalformedName | CompressionLoop

definition be_bytes :: "u16 \<Rightarrow> u8 list" where
  "be_bytes w = [ucast (drop_bit 8 w), ucast w]"

definition be_value :: "u8 \<Rightarrow> u8 \<Rightarrow> u16" where
  "be_value a b = push_bit 8 (ucast a) + ucast b"

fun as_wire :: "dns_record_type \<Rightarrow> u16" where
  "as_wire RecordA = 1"
| "as_wire RecordCname = 5"
| "as_wire RecordAaaa = 28"

section \<open>Queries\<close>

fun encode_labels :: "string list \<Rightarrow> (dns_error, u8 list) result" where
  "encode_labels [] = Ok []"
| "encode_labels (label # labels) =
    (if label = [] then Err MalformedName
     else if length label > 63 then Err NameTooLong
     else bind_result (encode_labels labels) (\<lambda>bs. Ok (of_nat (length label) # text_bytes label @ bs)))"

definition encode_name :: "string \<Rightarrow> (dns_error, u8 list) result" where
  "encode_name raw =
    (let name = trim_end_matches CHR ''.'' raw in
     if name = [] then Ok [0]
     else bind_result (encode_labels (split_on CHR ''.'' name)) (\<lambda>bs.
       if length bs \<ge> 255 then Err NameTooLong else Ok (bs @ [0])))"

definition encode_query :: "dns_query \<Rightarrow> u16 \<Rightarrow> (dns_error, u8 list) result" where
  "encode_query query txid =
    bind_result (encode_name (dq_name query)) (\<lambda>name.
      Ok (be_bytes txid @ be_bytes 0x0100 @ be_bytes 1 @ [0, 0, 0, 0, 0, 0] @ name @
          be_bytes (as_wire (dq_type query)) @ be_bytes 1))"

section \<open>Names\<close>

definition require :: "u8 list \<Rightarrow> nat \<Rightarrow> nat \<Rightarrow> (dns_error, nat) result" where
  "require bs pos n = (if pos + n > length bs then Err ShortMessage else Ok (pos + n))"

text \<open>The loop of \<open>parse_name\<close>: \<open>stop\<close> is the position after the name once a pointer was followed.\<close>

function parse_labels :: "u8 list \<Rightarrow> nat \<Rightarrow> nat option \<Rightarrow> nat \<Rightarrow> string list \<Rightarrow> (dns_error, string list \<times> nat) result" where
  "parse_labels bs pos stop jumps labels =
    (if pos \<ge> length bs then Err ShortMessage
     else
       let len = bs ! pos in
       if len = 0 then Ok (labels, case stop of None \<Rightarrow> pos + 1 | Some e \<Rightarrow> e)
       else if len \<ge> 0xC0 then
         (if pos + 1 \<ge> length bs then Err ShortMessage
          else
            let pointer = unat (len AND 0x3F) * 256 + unat (bs ! (pos + 1));
                stop' = (case stop of None \<Rightarrow> Some (pos + 2) | Some e \<Rightarrow> Some e)
            in if jumps + 1 > 32 then Err CompressionLoop else parse_labels bs pointer stop' (jumps + 1) labels)
       else if len \<ge> 0x40 then Err MalformedName
       else
         case require bs (pos + 1) (unat len) of
           Err e \<Rightarrow> Err e
         | Ok label_end \<Rightarrow>
             (case from_utf8 (take (unat len) (drop (pos + 1) bs)) of
                None \<Rightarrow> Err MalformedName
              | Some label \<Rightarrow> parse_labels bs label_end stop jumps (labels @ [label])))"
  by pat_completeness auto
termination
  by (relation "measures [\<lambda>(_, _, _, jumps, _). 32 - jumps, \<lambda>(bs, pos, _). length bs - pos]")
    (auto simp: require_def word_neq_0_conv unat_gt_0 split: if_splits)

declare parse_labels.simps [simp del]

definition parse_name :: "u8 list \<Rightarrow> nat \<Rightarrow> (dns_error, string \<times> nat) result" where
  "parse_name bs start =
    bind_result (parse_labels bs start None 0 []) (\<lambda>(labels, e). Ok (join ''.'' labels, e))"

section \<open>Addresses\<close>

definition show_ipv4 :: "u8 list \<Rightarrow> string" where
  "show_ipv4 octets = join ''.'' (map (\<lambda>b. dec_digits (unat b)) octets)"

text \<open>The standard library's rendering of an IPv6 address: an address that maps an IPv4 address ends in that
  address, and otherwise the first longest run of at least two zero segments is shortened.\<close>

fun segments :: "u8 list \<Rightarrow> u16 list" where
  "segments (a # b # bs) = be_value a b # segments bs"
| "segments _ = []"

definition zero_run :: "u16 list \<Rightarrow> nat \<Rightarrow> nat" where
  "zero_run segs i = length (takeWhile (\<lambda>w. w = 0) (drop i segs))"

definition longest_run :: "u16 list \<Rightarrow> nat \<times> nat" where
  "longest_run segs =
    foldl (\<lambda>(start, n) i. if zero_run segs i > n then (i, zero_run segs i) else (start, n)) (0, 0) [0..<length segs]"

definition show_ipv6 :: "u8 list \<Rightarrow> string" where
  "show_ipv6 octets =
    (let segs = segments octets; hex = (\<lambda>ws. join '':'' (map (\<lambda>w. hex_digits (unat w)) ws));
         (start, n) = longest_run segs
     in if take 12 octets = [0, 0, 0, 0, 0, 0, 0, 0, 0, 0, 0xFF, 0xFF] then ''::ffff:'' @ show_ipv4 (drop 12 octets)
        else if n > 1 then hex (take start segs) @ ''::'' @ hex (drop (start + n) segs)
        else hex segs)"

section \<open>Responses\<close>

definition rcode :: "u16 \<Rightarrow> u8" where
  "rcode flags = ucast (flags AND 0x000F)"

definition header_outcome :: "u16 \<Rightarrow> dns_outcome" where
  "header_outcome flags =
    (if flags AND 0x0200 \<noteq> 0 then TruncatedReply
     else if rcode flags = 0 then Resolved
     else if rcode flags = 2 then ServFail
     else if rcode flags = 3 then NxDomain
     else if rcode flags = 5 then RefusedReply
     else UpstreamError)"

fun skip_questions :: "nat \<Rightarrow> u8 list \<Rightarrow> nat \<Rightarrow> (dns_error, nat) result" where
  "skip_questions 0 bs pos = Ok pos"
| "skip_questions (Suc n) bs pos =
    bind_result (parse_name bs pos) (\<lambda>(_, e).
      if e + 4 > length bs then Err ShortMessage else skip_questions n bs (e + 4))"

fun parse_answers :: "nat \<Rightarrow> u8 list \<Rightarrow> nat \<Rightarrow> (dns_error, string list) result" where
  "parse_answers 0 bs pos = Ok []"
| "parse_answers (Suc n) bs pos =
    bind_result (parse_name bs pos) (\<lambda>(_, e).
    bind_result (require bs e 10) (\<lambda>pos.
      let rtype = be_value (bs ! (pos - 10)) (bs ! (pos - 9));
          rdlength = unat (be_value (bs ! (pos - 2)) (bs ! (pos - 1)))
      in if pos + rdlength > length bs then Err ShortMessage
         else bind_result (parse_answers n bs (pos + rdlength)) (\<lambda>addresses.
           Ok (if rtype = 1 \<and> rdlength = 4 then show_ipv4 (take 4 (drop pos bs)) # addresses
               else if rtype = 28 \<and> rdlength = 16 then show_ipv6 (take 16 (drop pos bs)) # addresses
               else addresses))))"

definition parse_response :: "u8 list \<Rightarrow> (dns_error, parsed_response) result" where
  "parse_response bs =
    (if length bs < 12 then Err ShortMessage
     else
       let flags = be_value (bs ! 2) (bs ! 3);
           qdcount = unat (be_value (bs ! 4) (bs ! 5));
           ancount = unat (be_value (bs ! 6) (bs ! 7))
       in bind_result (skip_questions qdcount bs 12) (\<lambda>pos.
          bind_result (parse_answers ancount bs pos) (\<lambda>addresses.
            Ok \<lparr>pr_txid = be_value (bs ! 0) (bs ! 1), pr_outcome = header_outcome flags, pr_addresses = addresses\<rparr>)))"

end
