(* ===== verification/Dns_Connector.thy ===== *)
theory Dns_Connector
  imports Dns_Wire
begin

text \<open>
  The DNS connector: the map of queries in flight (\<^verbatim>\<open>guests/connector-dns/src/correlate.rs\<close>) and the tasks that use
  it (\<^verbatim>\<open>guests/connector-dns/src/lib.rs\<close>), the handler of a query up to its answer and the loop that receives
  datagrams.  A requester stands for the channel on which its handler waits.  Each task's work between two
  waits is one step; a reply counts as given when it is put on the channel, and a handler whose time is up at
  that very moment may still answer with the timeout instead.  A query that cannot be decoded is not a
  query here.
\<close>

section \<open>Queries in flight\<close>

record 'r in_flight =
  fl_pending :: "u16 \<Rightarrow> 'r option"
  fl_next :: u16

definition in_flight_new :: "'r in_flight" where
  "in_flight_new = \<lparr>fl_pending = (\<lambda>_. None), fl_next = 1\<rparr>"

definition next_txid :: "u16 \<Rightarrow> u16" where
  "next_txid candidate = max (candidate + 1) 1"

text \<open>The search for an id runs until it finds one that is not in flight; \<open>None\<close> is not returning.\<close>

partial_function (option) find_txid :: "(u16 \<Rightarrow> 'r option) \<Rightarrow> u16 \<Rightarrow> (u16 \<times> u16) option" where
  "find_txid pending candidate =
    (if pending candidate = None then Some (candidate, next_txid candidate)
     else find_txid pending (next_txid candidate))"

definition register_query :: "'r \<Rightarrow> 'r in_flight \<Rightarrow> (u16 \<times> 'r in_flight) option" where
  "register_query requester fl =
    map_option (\<lambda>(txid, nxt). (txid, \<lparr>fl_pending = (fl_pending fl)(txid \<mapsto> requester), fl_next = nxt\<rparr>))
      (find_txid (fl_pending fl) (fl_next fl))"

definition take_query :: "u16 \<Rightarrow> 'r in_flight \<Rightarrow> 'r option \<times> 'r in_flight" where
  "take_query txid fl = (fl_pending fl txid, fl\<lparr>fl_pending := (fl_pending fl)(txid := None)\<rparr>)"

definition response_from_parsed :: "parsed_response \<Rightarrow> dns_response" where
  "response_from_parsed parsed =
    (if pr_outcome parsed = Resolved then \<lparr>dr_outcome = Resolved, dr_addresses = pr_addresses parsed\<rparr>
     else \<lparr>dr_outcome = pr_outcome parsed, dr_addresses = []\<rparr>)"

definition failure_response :: "dns_outcome \<Rightarrow> dns_response" where
  "failure_response outcome = \<lparr>dr_outcome = outcome, dr_addresses = []\<rparr>"

section \<open>The connector\<close>

record ('r, 'a) connector =
  co_flight :: "'r in_flight"
  co_sent :: "('a \<times> u8 list) list"
  co_replies :: "('r \<times> dns_response) list"

text \<open>A query is forwarded (\<open>sends\<close> says whether the socket takes the datagram), a datagram is received, or
  the time of a query that is still in flight is up.\<close>

datatype ('r, 'a) connector_event =
    Query 'r dns_query bool
  | Datagram 'a "u8 list"
  | Deadline u16

definition serve_query :: "'a \<Rightarrow> 'r \<Rightarrow> dns_query \<Rightarrow> bool \<Rightarrow> ('r, 'a) connector \<Rightarrow> ('r, 'a) connector option" where
  "serve_query resolver requester query sends co =
    (case register_query requester (co_flight co) of
       None \<Rightarrow> None
     | Some (txid, fl) \<Rightarrow>
         let failed = co\<lparr>co_flight := snd (take_query txid fl),
                         co_replies := co_replies co @ [(requester, failure_response UpstreamError)]\<rparr>
         in Some (case encode_query query txid of
              Err _ \<Rightarrow> failed
            | Ok payload \<Rightarrow>
                if sends then co\<lparr>co_flight := fl, co_sent := co_sent co @ [(resolver, payload)]\<rparr> else failed))"

definition receive_datagram :: "'a \<Rightarrow> 'a \<Rightarrow> u8 list \<Rightarrow> ('r, 'a) connector \<Rightarrow> ('r, 'a) connector" where
  "receive_datagram resolver source payload co =
    (if source \<noteq> resolver then co
     else case parse_response payload of
       Err _ \<Rightarrow> co
     | Ok parsed \<Rightarrow>
         (case take_query (pr_txid parsed) (co_flight co) of
            (None, _) \<Rightarrow> co
          | (Some requester, fl) \<Rightarrow>
              co\<lparr>co_flight := fl, co_replies := co_replies co @ [(requester, response_from_parsed parsed)]\<rparr>))"

definition time_out :: "u16 \<Rightarrow> ('r, 'a) connector \<Rightarrow> ('r, 'a) connector" where
  "time_out txid co =
    (case take_query txid (co_flight co) of
       (None, _) \<Rightarrow> co
     | (Some requester, fl) \<Rightarrow>
         co\<lparr>co_flight := fl, co_replies := co_replies co @ [(requester, failure_response TimedOut)]\<rparr>)"

definition connector_step :: "'a \<Rightarrow> ('r, 'a) connector_event \<Rightarrow> ('r, 'a) connector \<Rightarrow> ('r, 'a) connector option" where
  "connector_step resolver event co =
    (case event of
       Query requester query sends \<Rightarrow> serve_query resolver requester query sends co
     | Datagram source payload \<Rightarrow> Some (receive_datagram resolver source payload co)
     | Deadline txid \<Rightarrow> Some (time_out txid co))"

fun connector_run :: "'a \<Rightarrow> ('r, 'a) connector_event list \<Rightarrow> ('r, 'a) connector \<Rightarrow> ('r, 'a) connector option" where
  "connector_run resolver [] co = Some co"
| "connector_run resolver (event # events) co =
    Option.bind (connector_step resolver event co) (connector_run resolver events)"

end
