(* ===== verification/Dns_Properties.thy ===== *)
theory Dns_Properties
  imports Dns_Connector
begin

text \<open>
  What the DNS connector guarantees: an id is found exactly when one is free, every query is answered once,
  and names and answers are read back from the messages that carry them.
\<close>

section \<open>Transaction ids\<close>

lemma unat_u16_lt: "unat (w :: u16) < 65536"
  using unsigned_less [of w, where 'a = nat] by simp

lemma unat_next_txid: "unat (next_txid c) = (if unat c = 65535 then 1 else unat c + 1)"
proof (cases "unat c = 65535")
  case True
  then have "c = - 1" by (simp add: word_unat_eq_iff unsigned_minus_1_eq_mask mask_eq_exp_minus_1)
  then show ?thesis using True by (simp add: next_txid_def)
next
  case False
  then have "unat c + 1 < 65536" using unat_u16_lt [of c] by simp
  then have "unat (c + 1) = unat c + 1" by (simp add: unat_word_ariths)
  moreover from this have "1 \<le> c + 1" by (simp add: word_le_nat_alt)
  ultimately show ?thesis using False by (simp add: next_txid_def max_def)
qed

lemma next_txid_nonzero: "next_txid c \<noteq> 0"
  using unat_next_txid [of c] by (auto simp: word_unat_eq_iff split: if_splits)

definition distance :: "u16 \<Rightarrow> u16 \<Rightarrow> nat" where
  "distance c t = (if unat c \<le> unat t then unat t - unat c else 65535 - unat c + unat t)"

lemma distance_next: "c \<noteq> 0 \<Longrightarrow> t \<noteq> 0 \<Longrightarrow> c \<noteq> t \<Longrightarrow> distance (next_txid c) t < distance c t"
  using unat_u16_lt [of c] unat_u16_lt [of t]
  by (auto simp: distance_def unat_next_txid word_unat_eq_iff)

lemma find_txid_returns:
  assumes "t \<noteq> 0" "pending t = None" "c \<noteq> 0"
  shows "\<exists>txid nxt. find_txid pending c = Some (txid, nxt)"
  using assms(3)
proof (induction "distance c t" arbitrary: c rule: less_induct)
  case less
  show ?case
  proof (cases "pending c = None")
    case True
    then show ?thesis by (simp add: find_txid.simps [of pending c])
  next
    case False
    then have "c \<noteq> t" using assms(2) by auto
    from less.hyps [OF distance_next [OF less.prems assms(1) this] next_txid_nonzero] False
    show ?thesis by (simp add: find_txid.simps [of pending c])
  qed
qed

lemma find_txid_free:
  assumes "find_txid pending c = Some y" "c \<noteq> 0"
  shows "fst y \<noteq> 0 \<and> pending (fst y) = None \<and> snd y \<noteq> 0"
proof -
  have "c \<noteq> 0 \<longrightarrow> fst y \<noteq> 0 \<and> pending (fst y) = None \<and> snd y \<noteq> 0"
  proof (rule find_txid.raw_induct [OF _ assms(1)])
    fix f and pending :: "u16 \<Rightarrow> 'a option" and c y
    assume IH: "\<And>pending c y. f pending c = Some y \<Longrightarrow> c \<noteq> 0 \<longrightarrow> fst y \<noteq> 0 \<and> pending (fst y) = None \<and> snd y \<noteq> 0"
      and step: "(if pending c = None then Some (c, next_txid c) else f pending (next_txid c)) = Some y"
    show "c \<noteq> 0 \<longrightarrow> fst y \<noteq> 0 \<and> pending (fst y) = None \<and> snd y \<noteq> 0"
      using step next_txid_nonzero [of c] IH [of pending "next_txid c" y] by (auto split: if_splits)
  qed
  with assms(2) show ?thesis by blast
qed

lemma register_query_Some:
  assumes "register_query r fl = Some (txid, fl')" "fl_next fl \<noteq> 0"
  shows "txid \<noteq> 0 \<and> fl_pending fl txid = None \<and> fl_pending fl' = (fl_pending fl)(txid \<mapsto> r) \<and> fl_next fl' \<noteq> 0"
proof -
  from assms(1) obtain nxt where "find_txid (fl_pending fl) (fl_next fl) = Some (txid, nxt)"
      "fl' = \<lparr>fl_pending = (fl_pending fl)(txid \<mapsto> r), fl_next = nxt\<rparr>"
    by (auto simp: register_query_def)
  with find_txid_free [OF this(1) assms(2)] show ?thesis by simp
qed

text \<open>C16. Registering a query returns exactly when an id is free: from a counter that is not zero, the search ends
  if some nonzero id is not in flight, and then with such an id, under which the query is registered without
  disturbing the others.  When all 65535 nonzero ids are in flight it never returns.\<close>

theorem txid_search_returns_iff_one_is_free:
  assumes "fl_next fl \<noteq> 0"
  shows "(register_query r fl \<noteq> None \<longleftrightarrow> (\<exists>t. t \<noteq> 0 \<and> fl_pending fl t = None)) \<and>
    (\<forall>txid fl'. register_query r fl = Some (txid, fl') \<longrightarrow>
       txid \<noteq> 0 \<and> fl_pending fl txid = None \<and> fl_pending fl' = (fl_pending fl)(txid \<mapsto> r) \<and> fl_next fl' \<noteq> 0)"
proof (intro conjI allI impI iffI)
  assume "register_query r fl \<noteq> None"
  then obtain y where "find_txid (fl_pending fl) (fl_next fl) = Some y" by (auto simp: register_query_def)
  from find_txid_free [OF this assms] show "\<exists>t. t \<noteq> 0 \<and> fl_pending fl t = None" by blast
next
  assume "\<exists>t. t \<noteq> 0 \<and> fl_pending fl t = None"
  then obtain y where "find_txid (fl_pending fl) (fl_next fl) = Some y" using find_txid_returns assms by blast
  then show "register_query r fl \<noteq> None" by (simp add: register_query_def)
next
  fix txid fl'
  assume "register_query r fl = Some (txid, fl')"
  then show "txid \<noteq> 0" "fl_pending fl txid = None" "fl_pending fl' = (fl_pending fl)(txid \<mapsto> r)" "fl_next fl' \<noteq> 0"
    using register_query_Some [OF _ assms] by blast+
qed

section \<open>Answers\<close>

definition held :: "'r \<Rightarrow> 'r in_flight \<Rightarrow> nat" where
  "held r fl = card {t. fl_pending fl t = Some r}"

lemma held_register:
  assumes "register_query r fl = Some (txid, fl')" "fl_next fl \<noteq> 0"
  shows "held r' fl' = held r' fl + (if r' = r then 1 else 0)"
proof -
  note reg = register_query_Some [OF assms]
  have "{t. fl_pending fl' t = Some r} = insert txid {t. fl_pending fl t = Some r}" using reg by auto
  moreover have "txid \<notin> {t. fl_pending fl t = Some r}" using reg by simp
  moreover have "{t. fl_pending fl' t = Some r'} = {t. fl_pending fl t = Some r'}" if "r' \<noteq> r" using reg that by auto
  ultimately show ?thesis by (simp add: held_def)
qed

lemma held_take:
  assumes "take_query txid fl = (Some r, fl')"
  shows "held r' fl = held r' fl' + (if r' = r then 1 else 0)"
proof -
  have "{t. fl_pending fl t = Some r} = insert txid {t. fl_pending fl' t = Some r}"
    "txid \<notin> {t. fl_pending fl' t = Some r}"
    "r' \<noteq> r \<Longrightarrow> {t. fl_pending fl' t = Some r'} = {t. fl_pending fl t = Some r'}"
    using assms by (auto simp: take_query_def split: if_splits)
  then show ?thesis by (simp add: held_def)
qed

definition answers :: "'r \<Rightarrow> ('r, 'a) connector \<Rightarrow> nat" where
  "answers r co = length (filter (\<lambda>(r', _). r' = r) (co_replies co))"

definition queries :: "'r \<Rightarrow> ('r, 'a) connector_event list \<Rightarrow> nat" where
  "queries r events = length (filter (\<lambda>e. case e of Query r' _ _ \<Rightarrow> r' = r | _ \<Rightarrow> False) events)"

lemma connector_step_accounts:
  assumes "connector_step resolver event co = Some co'" "fl_next (co_flight co) \<noteq> 0"
  shows "answers r co' + held r (co_flight co') = answers r co + held r (co_flight co) + queries r [event]"
    "fl_next (co_flight co') \<noteq> 0"
proof -
  have "answers r co' + held r (co_flight co') = answers r co + held r (co_flight co) + queries r [event] \<and>
    fl_next (co_flight co') \<noteq> 0"
  proof (cases event)
    case (Query r' query sends)
    then obtain txid fl where reg: "register_query r' (co_flight co) = Some (txid, fl)"
      using assms(1) by (auto simp: connector_step_def serve_query_def split: option.splits)
    note held' = held_register [OF reg assms(2), of r] and fl = register_query_Some [OF reg assms(2)]
    obtain fl' where "take_query txid fl = (Some r', fl')" using fl by (simp add: take_query_def)
    note taken = held_take [OF this, of r] and this
    moreover have "fl_next fl' = fl_next fl" using calculation(2) by (auto simp: take_query_def)
    ultimately show ?thesis using assms Query reg held' fl
      by (auto simp: connector_step_def serve_query_def answers_def queries_def Let_def split: sum.splits if_splits)
  next
    case (Datagram source payload)
    then show ?thesis using assms held_take [of _ "co_flight co" _ _ r]
      by (fastforce simp: connector_step_def receive_datagram_def answers_def queries_def take_query_def split: sum.splits option.splits if_splits)
  next
    case (Deadline txid)
    then show ?thesis using assms held_take [of txid "co_flight co" _ _ r]
      by (fastforce simp: connector_step_def time_out_def answers_def queries_def take_query_def split: option.splits)
  qed
  then show "answers r co' + held r (co_flight co') = answers r co + held r (co_flight co) + queries r [event]"
    "fl_next (co_flight co') \<noteq> 0" by simp_all
qed

definition connector_new :: "('r, 'a) connector" where
  "connector_new = \<lparr>co_flight = in_flight_new, co_sent = [], co_replies = []\<rparr>"

lemma connector_run_accounts:
  "connector_run resolver events co = Some co' \<Longrightarrow> fl_next (co_flight co) \<noteq> 0 \<Longrightarrow>
    answers r co' + held r (co_flight co') = answers r co + held r (co_flight co) + queries r events"
proof (induction events arbitrary: co)
  case (Cons event events)
  then obtain mid where mid: "connector_step resolver event co = Some mid" "connector_run resolver events mid = Some co'"
    by (cases "connector_step resolver event co") auto
  note step = connector_step_accounts [OF mid(1) Cons.prems(2)]
  from Cons.IH [OF mid(2) step(2)] step(1) [of r] show ?case by (simp add: queries_def)
qed (simp add: queries_def)

text \<open>C14. Every query is answered exactly once, or is still in flight: along every sequence of queries, datagrams
  and deadlines in which no registration hangs, the answers a requester got and its queries in flight add up
  to the queries it made.  So no datagram, late, repeated or made up, adds an answer or takes one away.\<close>

theorem every_query_is_answered_once:
  assumes "connector_run resolver events connector_new = Some co"
  shows "answers r co + held r (co_flight co) = queries r events"
  using connector_run_accounts [OF assms, of r]
  by (simp add: connector_new_def in_flight_new_def answers_def held_def)

section \<open>Names\<close>

lemma byte_nth: "(pre @ b # rest) ! length pre = b" "(pre @ b # c # rest) ! Suc (length pre) = c"
  by (simp_all add: nth_append)

lemma parse_labels_end:
  "parse_labels (pre @ 0 # rest) (length pre) stop jumps acc =
    Ok (acc, case stop of None \<Rightarrow> length pre + 1 | Some e \<Rightarrow> e)"
  by (subst parse_labels.simps) (simp add: byte_nth)

lemma parse_labels_label:
  assumes "label \<noteq> []" "length label \<le> 63" "ascii label"
  shows "parse_labels (pre @ of_nat (length label) # text_bytes label @ rest) (length pre) stop jumps acc =
    parse_labels (pre @ of_nat (length label) # text_bytes label @ rest) (length pre + 1 + length label) stop jumps (acc @ [label])"
proof -
  let ?len = "of_nat (length label) :: u8"
  have len: "unat ?len = length label" using assms(2) by (simp add: unat_of_nat take_bit_nat_eq_self)
  then have "?len \<noteq> 0" "\<not> 0xC0 \<le> ?len" "\<not> 0x40 \<le> ?len" using assms(1,2) by (auto simp: word_unat_eq_iff word_le_nat_alt)
  then show ?thesis using len from_utf8_ascii [OF assms(3)]
    by (subst parse_labels.simps) (simp add: byte_nth require_def Let_def)
qed

lemma parse_labels_encoded:
  assumes "encode_labels ls = Ok bs" "list_all ascii ls"
  shows "parse_labels (pre @ bs @ 0 # rest) (length pre) stop jumps acc =
    Ok (acc @ ls, case stop of None \<Rightarrow> length pre + length bs + 1 | Some e \<Rightarrow> e)"
  using assms
proof (induction ls arbitrary: pre bs acc)
  case Nil
  then have "bs = []" by simp
  then show ?case by (cases stop) (simp_all add: parse_labels_end)
next
  case (Cons l ls)
  then obtain bs' where bs: "bs = of_nat (length l) # text_bytes l @ bs'" "encode_labels ls = Ok bs'" "l \<noteq> []" "length l \<le> 63"
    by (auto simp: bind_result_Ok_iff split: if_splits)
  have "parse_labels (pre @ bs @ 0 # rest) (length pre) stop jumps acc =
      parse_labels (pre @ bs @ 0 # rest) (length pre + 1 + length l) stop jumps (acc @ [l])"
    using parse_labels_label [OF bs(3,4), of pre "bs' @ 0 # rest"] Cons.prems(2) by (simp add: bs(1))
  then show ?case
    using Cons.IH [OF bs(2), of "pre @ of_nat (length l) # text_bytes l" "acc @ [l]"] Cons.prems(2)
    by (simp add: bs(1) add.assoc split: option.split)
qed

text \<open>The labels of a name that was encoded, and its encoding.\<close>

lemma encode_name_labels:
  assumes "encode_name raw = Ok bs" "ascii raw"
  obtains ls ls_bytes where "encode_labels ls = Ok ls_bytes" "list_all ascii ls" "bs = ls_bytes @ [0]"
    "join ''.'' ls = trim_end_matches CHR ''.'' raw"
proof (cases "trim_end_matches CHR ''.'' raw = []")
  case True
  then show thesis using assms(1) by (intro that [of "[]" "[]"]) (simp_all add: encode_name_def)
next
  case False
  let ?name = "trim_end_matches CHR ''.'' raw"
  from assms(1) False obtain ls_bytes where "encode_labels (split_on CHR ''.'' ?name) = Ok ls_bytes" "bs = ls_bytes @ [0]"
    by (auto simp: encode_name_def bind_result_Ok_iff Let_def split: if_splits)
  moreover have "list_all ascii (split_on CHR ''.'' ?name)"
  proof -
    have "set ?name \<subseteq> set raw" by (auto simp: trim_end_matches_def dest: set_dropWhileD)
    then show ?thesis using assms(2) set_split_on [of _ "CHR ''.''" ?name] by (auto simp: ascii_def list_all_iff)
  qed
  ultimately show thesis by (intro that [of "split_on CHR ''.'' ?name" ls_bytes]) simp_all
qed

text \<open>C18. Names survive the wire: a name that is encoded somewhere in a message is decoded there to the same
  name without its trailing dots, and the parser continues right behind it.\<close>

theorem dns_name_round_trip:
  assumes "encode_name raw = Ok bs" "ascii raw"
  shows "parse_name (pre @ bs @ rest) (length pre) = Ok (trim_end_matches CHR ''.'' raw, length (pre @ bs))"
proof -
  obtain ls ls_bytes where "encode_labels ls = Ok ls_bytes" "list_all ascii ls" "bs = ls_bytes @ [0]"
      "join ''.'' ls = trim_end_matches CHR ''.'' raw"
    using assms by (rule encode_name_labels)
  then show ?thesis using parse_labels_encoded [of ls ls_bytes pre rest None 0 "[]"] by (simp add: parse_name_def)
qed

section \<open>Answers on the wire\<close>

lemma unat_be_value: "unat (be_value a b) = 256 * unat a + unat b"
proof -
  have "unat a < 256" "unat b < 256" using unsigned_less [of a, where 'a = nat] unsigned_less [of b, where 'a = nat] by simp_all
  then show ?thesis by (simp add: be_value_def push_bit_eq_mult unat_word_ariths unsigned_ucast_eq take_bit_eq_mod)
qed

lemma be_value_be_bytes: "be_value (ucast (drop_bit 8 w)) (ucast w) = w"
proof -
  have "unat w div 256 < 256" using unat_u16_lt [of w] by simp
  then have "unat (be_value (ucast (drop_bit 8 w)) (ucast w)) = unat w"
    by (simp add: unat_be_value unsigned_ucast_eq unsigned_drop_bit_eq take_bit_eq_mod drop_bit_eq_div unat_div_distrib)
  then show ?thesis by (simp add: word_unat_eq_iff)
qed

definition question_bytes :: "u8 list \<Rightarrow> dns_query \<Rightarrow> u8 list" where
  "question_bytes name query = name @ be_bytes (as_wire (dq_type query)) @ be_bytes 1"

definition answer_bytes :: "u8 list \<times> u8 list \<Rightarrow> u8 list" where
  "answer_bytes answer =
    [0xC0, 12] @ be_bytes 1 @ be_bytes 1 @ fst answer @ be_bytes (of_nat (length (snd answer))) @ snd answer"

text \<open>A resolver's reply: the header, the question, and one address record for each answer, whose name points to
  the question; an answer is its time to live and the address.\<close>

definition reply_bytes :: "u16 \<Rightarrow> u16 \<Rightarrow> u8 list \<Rightarrow> dns_query \<Rightarrow> (u8 list \<times> u8 list) list \<Rightarrow> u8 list" where
  "reply_bytes txid flags name query records =
    be_bytes txid @ be_bytes flags @ be_bytes 1 @ be_bytes (of_nat (length records)) @ [0, 0, 0, 0] @
    question_bytes name query @ concat (map answer_bytes records)"

lemma length_be_bytes [simp]: "length (be_bytes w) = 2"
  by (simp add: be_bytes_def)

lemma parse_name_pointer:
  assumes "encode_name raw = Ok name" "ascii raw" "length pre = 12" "msg = pre @ name @ rest"
    "msg = before @ [0xC0, 12] @ after"
  shows "\<exists>n. parse_name msg (length before) = Ok (n, length before + 2)"
proof -
  obtain ls ls_bytes where ls: "encode_labels ls = Ok ls_bytes" "list_all ascii ls" "name = ls_bytes @ [0]"
    using assms(1,2) by (rule encode_name_labels)
  have "parse_labels msg 12 (Some (length before + 2)) 1 [] = Ok (ls, length before + 2)"
    using parse_labels_encoded [OF ls(1,2), of pre rest "Some (length before + 2)" 1 "[]"] assms(3)
    by (simp add: assms(4) ls(3))
  moreover have "parse_labels msg (length before) None 0 [] = parse_labels msg 12 (Some (length before + 2)) 1 []"
    by (subst parse_labels.simps) (simp add: assms(5) byte_nth)
  ultimately show ?thesis by (simp add: parse_name_def)
qed

lemma parse_answers_written:
  assumes "encode_name raw = Ok name" "ascii raw" "length pre = 12" "msg = pre @ name @ rest"
    "list_all (\<lambda>(ttl, octets). length ttl = 4 \<and> length octets = 4) records"
    "msg = before @ concat (map answer_bytes records)"
  shows "parse_answers (length records) msg (length before) = Ok (map (show_ipv4 \<circ> snd) records)"
  using assms(5,6)
proof (induction records arbitrary: before)
  case (Cons answer records)
  obtain ttl octets where a: "answer = (ttl, octets)" "length ttl = 4" "length octets = 4" using Cons.prems(1) by (cases answer) auto
  obtain t1 t2 t3 t4 where ttl: "ttl = [t1, t2, t3, t4]" using a(2) by (auto simp: numeral_eq_Suc length_Suc_conv)
  let ?tail = "concat (map answer_bytes records)"
  have msg: "msg = before @ [0xC0, 12] @ [0, 1, 0, 1, t1, t2, t3, t4, 0, 4] @ octets @ ?tail"
  proof -
    have "answer_bytes answer = [0xC0, 12] @ [0, 1, 0, 1, t1, t2, t3, t4, 0, 4] @ octets"
      by (simp add: answer_bytes_def be_bytes_def a ttl)
    then show ?thesis using Cons.prems(2) by simp
  qed
  obtain n where n: "parse_name msg (length before) = Ok (n, length before + 2)"
    using parse_name_pointer [OF assms(1-4) msg] by blast
  have rest: "parse_answers (length records) msg (length before + 16) = Ok (map (show_ipv4 \<circ> snd) records)"
    using Cons.IH [of "before @ answer_bytes answer"] Cons.prems a by (simp add: answer_bytes_def)
  have fields: "msg ! (length before + 2) = 0" "msg ! (length before + 3) = 1" "msg ! (length before + 10) = 0"
      "msg ! (length before + 11) = 4" "take 4 (drop (length before + 12) msg) = octets" "length msg \<ge> length before + 16"
    unfolding msg using a(3) by (simp_all add: nth_append)
  have offsets: "length before + 12 - 10 = length before + 2" "length before + 12 - 9 = length before + 3"
      "length before + 12 - 2 = length before + 10" "length before + 12 - 1 = length before + 11" by simp_all
  have rtype: "be_value (msg ! (length before + 12 - 10)) (msg ! (length before + 12 - 9)) = 1"
    unfolding offsets fields by (simp add: be_value_def)
  have rdlength: "unat (be_value (msg ! (length before + 12 - 2)) (msg ! (length before + 12 - 1))) = 4"
    unfolding offsets fields by (simp add: unat_be_value)
  have require: "require msg (length before + 2) 10 = Ok (length before + 12)" using fields(6) by (simp add: require_def)
  show ?case
    unfolding list.size add_0_right add_Suc_right parse_answers.simps n bind_result_simps prod.case require Let_def rtype rdlength
    using fields(5,6) rest by (simp add: a(1) add.commute [of 16] comp_def)
qed simp

lemma parse_reply:
  assumes "encode_name (dq_name query) = Ok name" "ascii (dq_name query)" "length records < 65536"
    "list_all (\<lambda>(ttl, octets). length ttl = 4 \<and> length octets = 4) records"
  shows "parse_response (reply_bytes txid flags name query records) =
    Ok \<lparr>pr_txid = txid, pr_outcome = header_outcome flags, pr_addresses = map (show_ipv4 \<circ> snd) records\<rparr>"
proof -
  let ?msg = "reply_bytes txid flags name query records"
  let ?head = "be_bytes txid @ be_bytes flags @ be_bytes 1 @ be_bytes (of_nat (length records)) @ [0, 0, 0, 0]"
  let ?answers = "concat (map answer_bytes records)"
  have msg: "?msg = ?head @ name @ be_bytes (as_wire (dq_type query)) @ be_bytes 1 @ ?answers"
    by (simp add: reply_bytes_def question_bytes_def)
  have count: "unat (of_nat (length records) :: u16) = length records"
    using assms(3) by (simp add: unat_of_nat take_bit_nat_eq_self)
  have fields: "be_value (?msg ! 0) (?msg ! 1) = txid" "be_value (?msg ! 2) (?msg ! 3) = flags"
      "be_value (?msg ! 4) (?msg ! 5) = 1" "be_value (?msg ! 6) (?msg ! 7) = of_nat (length records)"
    unfolding msg by (simp_all add: be_bytes_def be_value_be_bytes be_value_be_bytes [of 1, simplified])
  have "parse_name ?msg 12 = Ok (trim_end_matches CHR ''.'' (dq_name query), 12 + length name)"
  proof -
    obtain ls ls_bytes where "encode_labels ls = Ok ls_bytes" "list_all ascii ls" "name = ls_bytes @ [0]"
        "join ''.'' ls = trim_end_matches CHR ''.'' (dq_name query)"
      using assms(1,2) by (rule encode_name_labels)
    then show ?thesis using parse_labels_encoded [of ls ls_bytes ?head _ None 0 "[]"] unfolding msg by (simp add: parse_name_def)
  qed
  moreover have "parse_answers (length records) ?msg (12 + length name + 4) = Ok (map (show_ipv4 \<circ> snd) records)"
    using parse_answers_written [OF assms(1,2) _ msg assms(4), of "?head @ name @ be_bytes (as_wire (dq_type query)) @ be_bytes 1"] msg
    by simp
  ultimately have "skip_questions 1 ?msg 12 = Ok (12 + length name + 4)" by (simp add: msg)
  then show ?thesis using fields count \<open>parse_answers _ _ _ = _\<close> by (simp add: parse_response_def msg Let_def)
qed


section \<open>A sample query\<close>

definition sample_query :: dns_query where
  "sample_query = \<lparr>dq_name = ''a.b.'', dq_type = RecordA\<rparr>"

lemma sample_name_encoded: "encode_name ''a.b.'' = Ok [1, 97, 1, 98, 0]" "ascii ''a.b.''"
  by (simp_all add: encode_name_def trim_end_matches_def text_bytes_def ascii_def Let_def)

lemma sample_registered:
  "register_query r in_flight_new = Some (1, \<lparr>fl_pending = (\<lambda>_. None)(1 \<mapsto> r), fl_next = 2\<rparr>)"
  by (simp add: register_query_def in_flight_new_def find_txid.simps [of _ 1] next_txid_def)

theorem txid_search_returns_iff_one_is_free_witness:
  "register_query () in_flight_new \<noteq> None \<and> register_query () \<lparr>fl_pending = (\<lambda>_. Some ()), fl_next = 1\<rparr> = None"
proof
  let ?new = "in_flight_new :: unit in_flight" and ?full = "\<lparr>fl_pending = (\<lambda>_. Some ()), fl_next = 1\<rparr>"
  have start: "fl_next ?new \<noteq> 0" "fl_next ?full \<noteq> 0" by (simp_all add: in_flight_new_def)
  have "(1 :: u16) \<noteq> 0 \<and> fl_pending ?new 1 = None" by (simp add: in_flight_new_def)
  then have "\<exists>t. t \<noteq> 0 \<and> fl_pending ?new t = None" by (rule exI)
  with conjunct1 [OF txid_search_returns_iff_one_is_free [OF start(1), of "()"]] show "register_query () ?new \<noteq> None" by (rule iffD2)
  have "\<not> (\<exists>t. t \<noteq> 0 \<and> fl_pending ?full t = None)" by simp
  then have "\<not> register_query () ?full \<noteq> None"
    by (rule contrapos_nn) (rule iffD1 [OF conjunct1 [OF txid_search_returns_iff_one_is_free [OF start(2), of "()"]]])
  then show "register_query () ?full = None" by (rule notnotD)
qed

theorem every_query_is_answered_once_witness:
  "\<exists>co. connector_run (0 :: nat) [Query (7 :: nat) sample_query True, Deadline 1, Deadline 1] connector_new = Some co \<and>
     answers 7 co + held 7 (co_flight co) = 1"
proof -
  obtain co where run: "connector_run (0 :: nat) [Query (7 :: nat) sample_query True, Deadline 1, Deadline 1] connector_new = Some co"
    by (simp add: connector_step_def serve_query_def connector_new_def sample_registered encode_query_def sample_query_def
        sample_name_encoded Let_def)
  with every_query_is_answered_once [OF run, of 7] show ?thesis by (simp add: queries_def)
qed

theorem dns_name_round_trip_witness:
  "parse_name ([9, 9] @ [1, 97, 1, 98, 0] @ [7]) 2 = Ok (''a.b'', 7)"
proof -
  have "length [9 :: u8, 9] = 2" "length ([9, 9] @ [1, 97, 1, 98, 0 :: u8]) = 7" "trim_end_matches CHR ''.'' ''a.b.'' = ''a.b''"
    by (simp_all add: trim_end_matches_def)
  with dns_name_round_trip [OF sample_name_encoded, of "[9, 9]" "[7]"] show ?thesis by (simp only:)
qed


end
