(* ===== verification/Spec2Isabelle.thy ===== *)
theory Spec2Isabelle
  imports Ring_Properties Runtime_Properties Tenant_Lookup Billing Http_Egress_Properties Dns_Properties
begin

text \<open>
  Selium runs WebAssembly guests that talk to each other through rings in shared memory.  The kernel
  owns the memory, the queues, the storage, the quotas and the process table; the runtime decides what
  each guest may do, serves its hostcalls and cleans up after it; system guests provide the services above
  it, among them discovery, the registry of addresses, the accountant, which meters tenants and sets
  their quotas, and the connectors, which carry HTTP and DNS to and from the guests.  This development models these parts from \<^verbatim>\<open>src/crates\<close> and \<^verbatim>\<open>src/guests\<close> as
  executable functions and proves what makes them correct.

  \<^bold>\<open>Conventions.\<close>  Rust's \<open>u8\<close> to \<open>u64\<close> are words of that width, so arithmetic wraps where the code wraps.
  A fallible operation on a state is a computation \<open>('s, 'e, 'a) comp\<close>: from a state to a result and the
  state it leaves, on failure as on success (\<open>Prelude\<close>).  A hash map that the code iterates is an
  association list, any other map a partial function; the theorems do not depend on the order.  An
  operation of the kernel or of the runtime is one step of the model; interleavings inside an operation,
  which in the code takes several locks in turn, are modelled for the ring only (\<open>Ring_Concurrency\<close>).  Errors
  keep their code or variant; rendered message texts are kept only where other code reads them.

  \<^bold>\<open>Shared memory\<close> (\<^verbatim>\<open>memory/src\<close>, \<^verbatim>\<open>shm/src/layout.rs\<close>, \<^verbatim>\<open>wire/src/error.rs\<close>).
  \<^item> \<open>Frame_Header\<close>: the frame header, its checksum, encoding and decoding; decoding accepts exactly the
    encodings and detects a change of any single byte.
  \<^item> \<open>Mapping_Backend\<close>: byte-addressed mappings.  The locale \<open>mapping_access\<close> states what the ring needs of a
    backend and is interpreted on the pointer backend here and on the kernel's in \<open>Memory_Registry\<close>.
  \<^item> \<open>Multi_Memory\<close>: the header that splits a region in two, and its round trip.
  \<^item> \<open>Wire_Error\<close>, \<open>Ring_Layout\<close>, \<open>Ring_Correct\<close>, \<open>Ring_Delivery\<close>, \<open>Ring_Concurrency\<close>, \<open>Ring_Properties\<close>: the
    ring's cursors, reservation loop, frames, readers and writers; delivery in order and once, protection
    of unread data, all-or-nothing writes, disjointness of racing reservations.  The reservation loop is a
    partial function, and that it returns is part of the theorems.

  \<^bold>\<open>Interface types\<close> (\<^verbatim>\<open>abi/src\<close>).
  \<^item> \<open>Strings\<close>, \<open>Abi_Scope\<close>, \<open>Uri\<close>: selectors, grants, framing, resource URIs and names, with their round trips.

  \<^bold>\<open>Kernel\<close> (\<^verbatim>\<open>kernel/src\<close>).
  \<^item> \<open>Kernel_Ids\<close>: identifiers; distinct and never zero.
  \<^item> \<open>Memory_Registry\<close>: regions and attachments over an abstract engine; no mapping dangles, attachments share.
  \<^item> \<open>Quota\<close>, \<open>Host_Queue\<close>, \<open>Storage\<close>, \<open>Process_Table\<close>: the quota table refines a ledger of naturals, queues are
    first-in first-out, logs are gapless, blobs content-addressed, log channels drained once.

  \<^bold>\<open>Runtime\<close> (\<^verbatim>\<open>runtime/src\<close>).
  \<^item> \<open>Module_Probe\<close> (\<^verbatim>\<open>module_probe.rs\<close>): exact on every module written by the writer given there.
  \<^item> \<open>Authority\<close> (\<^verbatim>\<open>hostcall.rs\<close>, \<^verbatim>\<open>process.rs\<close>): grants, descent, delegation; a child never exceeds its parent.
  \<^item> \<open>Runtime_State\<close>, \<open>Runtime_Ops\<close>: the record \<open>runtime\<close> has a field for each table of the struct \<open>Runtime\<close>;
    owners, quota reservations, waits, metering, budgets and operation ids.  \<open>Operation_Ids\<close> shows that
    the search for an operation id returns; \<open>Ownership\<close> has the locale \<open>owner_table\<close>, interpreted on local
    handles and on shared resources, and the theorems on handing over regions and on generation waits.
  \<^item> \<open>Lifecycle\<close>, \<open>Network_Ops\<close>: spawning and stopping a guest, reclaiming what it held, sockets and their
    regions.  \<open>Teardown\<close> shows that a stop is complete or can be retried.
  \<^item> \<open>Hostcalls\<close>: one definition for each of the 47 requests, the dispatcher, and beginning, polling and
    dropping an operation.  \<open>Runtime_Frame\<close> is a calculus for their effects and \<open>Mediation\<close> applies it to the
    whole dispatcher: a request without its capability has no effect, and no process widens its own
    authority.  \<open>Runtime_Properties\<close> relates several components; \<open>Runtime_Sample\<close> is a concrete runtime.

  \<^bold>\<open>Discovery\<close> (\<^verbatim>\<open>guests/discovery/src/lib.rs\<close>).
  \<^item> \<open>Discovery_Store\<close>: the record \<open>discovery_store\<close> has a field for each table of the struct
    \<open>DiscoveryStore\<close>; its operations, the handler of client requests (\<open>serve_request\<close>) and the task that applies
    the runtime's feed (\<open>apply_tier1_event\<close>), which share the store under one lock (\<open>discovery_step\<close>).
  \<^item> \<open>Discovery_Correct\<close>: the invariant of the store and its preservation.  \<open>Discovery_Properties\<close>: what a client can
    change and learn, cascading revocation, registered routes resolve, and what happens to a rebound alias.
  \<^item> \<open>Discovery_Feed\<close>: the locale \<open>registry_feed\<close> states what the runtime needs of a registry that follows its
    events; it is interpreted on the discovery store, and a stop of a process leaves no address of it there.

  \<^bold>\<open>Accountant\<close> (\<^verbatim>\<open>guests/accountant/src/lib.rs\<close>).
  \<^item> \<open>Accountant\<close>: usage, accounts, ledger records, billing windows, enforcement, controls, the rolling loop, and
    the bookkeeper's reduction of samples.  The hostcalls it makes are a field of its state.
  \<^item> \<open>Accountant_Properties\<close>: the ledger determines the accounts, and controls reach the runtime's quota table.
  \<^item> \<open>Billing\<close>: the locale \<open>counter\<close>, interpreted on CPU and bandwidth; every bucket is billed once, and a minute
    that is read late is split.
  \<^item> \<open>Tenant_Lookup\<close> (\<^verbatim>\<open>crates/guest/src/hostcall.rs\<close>): the query by which both guests learn the tenant of a client.

  \<^bold>\<open>HTTP connector\<close> (\<^verbatim>\<open>guests/connector-http/src\<close>, messages in \<^verbatim>\<open>crates/proto-http/src/lib.rs\<close>).
  \<^item> \<open>Text_Encoding\<close>: the parts of Rust's strings the protocols use: text as bytes, validity of UTF-8, digits.
  \<^item> \<open>Http_Codec\<close> (\<^verbatim>\<open>codec.rs\<close>): the read buffer, heads, fixed and chunked bodies, and the loop that reads until a
    request is complete.  A \<open>usize\<close> of the guest has 32 bits; whether additions are checked, as in a debug build,
    is the argument \<open>checks\<close>, and a panic is a value.  \<open>Http_Properties\<close>: pipelined requests are read in order
    however the stream is cut, and a length that overflows panics.
  \<^item> \<open>Http_Egress\<close> (\<^verbatim>\<open>wire_out.rs\<close>, \<^verbatim>\<open>pipeline.rs\<close>): rendering, the pump of a request, the correlation of
    replies and the egress loop.  \<open>Http_Egress_Properties\<close>: replies are written in request order whatever order
    they arrive in, written chunks are read back, and what becomes of trailers.

  \<^bold>\<open>DNS connector\<close> (\<^verbatim>\<open>guests/connector-dns/src\<close>, \<^verbatim>\<open>crates/proto-dns/src\<close>).
  \<^item> \<open>Dns_Wire\<close> (\<^verbatim>\<open>wire.rs\<close>): queries, compressed names, answers, rendered addresses; \<open>Dns_Connector\<close>: the queries in
    flight, the handler, the receive loop and deadlines, one step each.
  \<^item> \<open>Dns_Properties\<close>: each query is answered once, a reply reaches its requester, names survive the wire, and the
    search for a transaction id, a partial function, returns exactly when an id is free.

  \<^bold>\<open>Parameters.\<close>  The WebAssembly engine, the discovery publisher, digests, certificates, sockets, clocks and
  entropy are not part of the repository: they are fields of the records \<open>region_engine\<close>, \<open>host\<close>,
  \<open>certificates\<close>, \<open>socket_outcome\<close> and \<open>host_inputs\<close>.  The accountant's codec and log, which the guest
  library provides, are fields of \<open>accountant_env\<close>.  The bytes a client sends, whether it accepts what is written,
  and the replies of sessions and resolvers are arguments of the connectors' loops.  The theorems hold for all of them unless a hypothesis
  says otherwise.  Running a guest is a parameter that acts on the whole runtime, since a guest
  makes hostcalls while it runs; delivering a wake is recorded in the state, and the guest runs later.

  \<^bold>\<open>Bounds.\<close>  The walk of the parent chain has the bound the code gives it, the number of processes plus one,
  and the theorem on descent shows that it is enough.  No other definition carries fuel.

  \<^bold>\<open>Not modelled.\<close>  The order of bootstrap and its readiness waits, the threads that copy between sockets and
  rings, the poller, mailboxes in guest memory and the worker pool, which are threads and system calls; the
  async channel and protocol layers, the connectors' start-up, accept and dispatch loops and their queries for
  routes, the QUIC connector, the identity, control-plane, bridge and other guests, the client and the command
  line, which are tasks and I/O over third-party libraries; generated message codecs.
\<close>

end
